(* ===== verification/Prelude.thy ===== *)
theory Prelude
  imports Main
begin

text \<open>
  Shared vocabulary of the development: the JavaScript values the pages pass
  around (strings, possibly-undefined strings, router calls), the removal of
  one settled request from a list of requests in flight, and the generic list
  lemmas the component theories share.
\<close>

named_theorems page_simps "equations that evaluate the page models on concrete events"

type_synonym js_string = string

text \<open>A JavaScript value that may be \<open>undefined\<close>: \<open>None\<close> is \<open>undefined\<close>.\<close>

type_synonym 'a js_opt = "'a option"

text \<open>
  A template literal \<open>`${x}`\<close> turns \<open>undefined\<close> into the text
  \<open>undefined\<close>.
\<close>

definition js_template :: "string js_opt \<Rightarrow> string" where
  "js_template v = (case v of None \<Rightarrow> ''undefined'' | Some x \<Rightarrow> x)"

text \<open>The calls a page makes on the Next.js router.\<close>

datatype nav = Push string | Replace string | Reload | Redirect string

text \<open>An exception a render throws: the message of its \<open>TypeError\<close>.\<close>

datatype render_error = TypeError string

text \<open>
  Removing the \<open>k\<close>-th element: a request that settles leaves the list of
  requests in flight. An index out of range leaves the list as it is.
\<close>

definition drop_nth :: "nat \<Rightarrow> 'a list \<Rightarrow> 'a list" where
  "drop_nth k xs = take k xs @ drop (Suc k) xs"

lemma set_drop_nth_subset: "set (drop_nth k xs) \<subseteq> set xs"
  unfolding drop_nth_def using set_take_subset set_drop_subset by fastforce

lemma drop_nth_out_of_range [simp]: "length xs \<le> k \<Longrightarrow> drop_nth k xs = xs"
  by (simp add: drop_nth_def)

lemma length_drop_nth [simp]: "k < length xs \<Longrightarrow> length (drop_nth k xs) = length xs - 1"
  by (simp add: drop_nth_def)

lemma drop_nth_0 [simp]: "drop_nth 0 (x # xs) = xs"
  by (simp add: drop_nth_def)

lemma drop_nth_Suc [simp]: "drop_nth (Suc k) (x # xs) = x # drop_nth k xs"
  by (simp add: drop_nth_def)

lemma drop_nth_Nil [simp]: "drop_nth k [] = []"
  by (simp add: drop_nth_def)

lemma js_template_Some [simp]: "js_template (Some x) = x"
  and js_template_None [simp]: "js_template None = ''undefined''"
  by (simp_all add: js_template_def)

lemma js_template_nonempty [simp]: "js_template v = [] \<longleftrightarrow> v = Some []"
  by (cases v) simp_all

text \<open>
  When every position satisfies \<open>P\<close>, a first position satisfying \<open>Q\<close>
  preceded only by \<open>P\<close>-positions is any element satisfying \<open>Q\<close>.
\<close>

lemma first_occurrence_free:
  assumes "\<forall>m < length v. P (v ! m)"
  shows "(\<exists>k < length v. (\<forall>m < k. P (v ! m)) \<and> Q (v ! k)) \<longleftrightarrow> (\<exists>c \<in> set v. Q c)"
proof
  assume "\<exists>k < length v. (\<forall>m < k. P (v ! m)) \<and> Q (v ! k)"
  then show "\<exists>c \<in> set v. Q c" using nth_mem by blast
next
  assume "\<exists>c \<in> set v. Q c"
  then obtain k where "k < length v" "Q (v ! k)" by (auto simp: in_set_conv_nth)
  with assms show "\<exists>k < length v. (\<forall>m < k. P (v ! m)) \<and> Q (v ! k)" by auto
qed


text \<open>A split of a list, as an append or as a bounded index.\<close>

lemma ex_append_split:
  "(\<exists>a b. w = a @ b \<and> P a b) \<longleftrightarrow> (\<exists>n \<le> length w. P (take n w) (drop n w))"
proof
  assume "\<exists>a b. w = a @ b \<and> P a b"
  then obtain a b where "w = a @ b" "P a b" by blast
  then show "\<exists>n \<le> length w. P (take n w) (drop n w)" by (intro exI [of _ "length a"]) simp
next
  assume "\<exists>n \<le> length w. P (take n w) (drop n w)"
  then obtain n where "P (take n w) (drop n w)" by blast
  then show "\<exists>a b. w = a @ b \<and> P a b" by (intro exI [of _ "take n w"] exI [of _ "drop n w"]) simp
qed


lemma ex_append_split_ne:
  "(\<exists>a b. w = a @ b \<and> a \<noteq> [] \<and> P a b) \<longleftrightarrow> (\<exists>n. 0 < n \<and> n \<le> length w \<and> P (take n w) (drop n w))"
proof
  assume "\<exists>a b. w = a @ b \<and> a \<noteq> [] \<and> P a b"
  then obtain a b where "w = a @ b" "a \<noteq> []" "P a b" by blast
  then show "\<exists>n. 0 < n \<and> n \<le> length w \<and> P (take n w) (drop n w)"
    by (intro exI [of _ "length a"]) simp
next
  assume "\<exists>n. 0 < n \<and> n \<le> length w \<and> P (take n w) (drop n w)"
  then obtain n where "0 < n" "n \<le> length w" "P (take n w) (drop n w)" by blast
  then show "\<exists>a b. w = a @ b \<and> a \<noteq> [] \<and> P a b"
    by (intro exI [of _ "take n w"] exI [of _ "drop n w"]) auto
qed

end
