(* ===== verification/Regex.thy ===== *)
theory Regex
  imports Prelude
begin

text \<open>
  The fragment of ECMAScript regular expressions that the two validation
  patterns of the sign-in pages use, and \<open>RegExp.prototype.test\<close> on it.
  The engine is not code of this repository: it is modelled from the
  ECMAScript semantics (RegExpBuiltinExec and the pattern matchers of
  section 22.2.2), so that the literals of the source can be read exactly.

  \<^item> \<open>ends r s i\<close> is the backtracking matcher: the end positions of the
    matches of \<open>r\<close> that start at index \<open>i\<close> of \<open>s\<close>, in the order the
    engine's backtracking tries them (greedy quantifiers first try one more
    iteration). A repetition runs on fuel; \<open>rep_fuel_enough\<close> shows the fuel
    given is never exhausted.
  \<^item> \<open>matches r s i j\<close> is the reference semantics, an inductive relation;
    \<open>ends_matches\<close> proves that the matcher computes exactly it.
  \<^item> \<open>search\<close> is the loop of RegExpBuiltinExec for a pattern with neither
    the \<open>g\<close> nor the \<open>y\<close> flag: try each start index from 0 to the length.
\<close>

section \<open>Syntax\<close>

text \<open>A class item: a character, a range \<open>a-z\<close>, \<open>\w\<close> or \<open>\d\<close>.\<close>

datatype citem = CChar char | CRange char char | CWord | CDigit

text \<open>
  \<open>Cls neg items\<close> is \<open>[...]\<close> (\<open>[^...]\<close> when \<open>neg\<close>); \<open>AnyNL\<close> is \<open>.\<close>
  without the \<open>s\<close> flag; \<open>Rep r mn mx\<close> is the greedy quantifier
  \<open>{mn,mx}\<close> (\<open>None\<close> for no upper bound: \<open>*\<close> and \<open>+\<close>); \<open>Grp\<close> a
  capturing group; \<open>Look\<close> the lookahead \<open>(?=...)\<close>; \<open>Bol\<close> and \<open>Eol\<close> the
  assertions \<open>^\<close> and \<open>$\<close> without the \<open>m\<close> flag.
\<close>

datatype re =
    Empty
  | Cls bool "citem list"
  | AnyNL
  | Seq re re
  | Alt re re
  | Rep re nat "nat option"
  | Grp re
  | Look re
  | Bol
  | Eol

section \<open>Characters\<close>

text \<open>
  Characters are those of HOL's \<open>char\<close> (8 bits), a subset of the UTF-16
  code units of JavaScript strings; the two line terminators beyond it
  (U+2028, U+2029) do not occur.
\<close>

definition is_digit :: "char \<Rightarrow> bool" where
  "is_digit c \<longleftrightarrow> (48::nat) \<le> of_char c \<and> of_char c \<le> (57::nat)"

definition is_ascii_letter :: "char \<Rightarrow> bool" where
  "is_ascii_letter c \<longleftrightarrow>
     ((65::nat) \<le> of_char c \<and> of_char c \<le> (90::nat)) \<or>
     ((97::nat) \<le> of_char c \<and> of_char c \<le> (122::nat))"

definition is_word_char :: "char \<Rightarrow> bool" where
  "is_word_char c \<longleftrightarrow> is_ascii_letter c \<or> is_digit c \<or> c = CHR ''_''"

definition line_terminator :: "char \<Rightarrow> bool" where
  "line_terminator c \<longleftrightarrow> c = CHR 0x0A \<or> c = CHR 0x0D"

fun citem_match :: "citem \<Rightarrow> char \<Rightarrow> bool" where
  "citem_match (CChar d) c \<longleftrightarrow> c = d"
| "citem_match (CRange a b) c \<longleftrightarrow> of_char a \<le> (of_char c :: nat) \<and> of_char c \<le> (of_char b :: nat)"
| "citem_match CWord c \<longleftrightarrow> is_word_char c"
| "citem_match CDigit c \<longleftrightarrow> is_digit c"

definition cls_match :: "bool \<Rightarrow> citem list \<Rightarrow> char \<Rightarrow> bool" where
  "cls_match neg items c \<longleftrightarrow> list_ex (\<lambda>it. citem_match it c) items \<noteq> neg"

section \<open>The backtracking matcher\<close>

text \<open>
  RepeatMatcher: with \<open>mx = Some 0\<close> the continuation runs at once; otherwise
  one more iteration is tried first, refused when it matched the empty string
  and the minimum is already reached, and with the minimum reached the
  continuation runs last. \<open>m\<close> is the matcher of the body; the second
  argument is fuel.
\<close>

fun rep :: "(nat \<Rightarrow> nat list) \<Rightarrow> nat \<Rightarrow> nat \<Rightarrow> nat option \<Rightarrow> nat \<Rightarrow> nat list" where
  "rep m 0 mn mx i = []"
| "rep m (Suc n) mn mx i =
     (if mx = Some 0 then [i]
      else concat (map (\<lambda>j. if mn = 0 \<and> j = i then []
                             else rep m n (mn - 1) (map_option (\<lambda>k. k - 1) mx) j) (m i))
           @ (if mn = 0 then [i] else []))"

fun ends :: "re \<Rightarrow> string \<Rightarrow> nat \<Rightarrow> nat list" where
  "ends Empty s i = [i]"
| "ends (Cls neg items) s i =
     (if i < length s \<and> cls_match neg items (s ! i) then [Suc i] else [])"
| "ends AnyNL s i =
     (if i < length s \<and> \<not> line_terminator (s ! i) then [Suc i] else [])"
| "ends (Seq r1 r2) s i = concat (map (\<lambda>j. ends r2 s j) (ends r1 s i))"
| "ends (Alt r1 r2) s i = ends r1 s i @ ends r2 s i"
| "ends (Rep r mn mx) s i = rep (\<lambda>j. ends r s j) (Suc (length s + mn)) mn mx i"
| "ends (Grp r) s i = ends r s i"
| "ends (Look r) s i = (if ends r s i = [] then [] else [i])"
| "ends Bol s i = (if i = 0 then [i] else [])"
| "ends Eol s i = (if i = length s then [i] else [])"

text \<open>
  RegExpBuiltinExec without the \<open>g\<close> and \<open>y\<close> flags: from \<open>lastIndex = 0\<close>,
  fail beyond the end of the string, otherwise take the first match at the
  index or advance by one. The result is the start and end of the match.
\<close>

function (domintros) search :: "re \<Rightarrow> string \<Rightarrow> nat \<Rightarrow> (nat \<times> nat) option" where
  "search r s i =
     (if length s < i then None
      else case ends r s i of
             [] \<Rightarrow> search r s (Suc i)
           | j # _ \<Rightarrow> Some (i, j))"
  by pat_completeness auto
termination
  by (relation "measure (\<lambda>(r, s, i). Suc (length s) - i)") auto

declare search.simps [simp del]

definition re_test :: "re \<Rightarrow> string \<Rightarrow> bool" where
  "re_test r s \<longleftrightarrow> search r s 0 \<noteq> None"

section \<open>Reference semantics\<close>

inductive matches :: "re \<Rightarrow> string \<Rightarrow> nat \<Rightarrow> nat \<Rightarrow> bool" where
  m_empty: "matches Empty s i i"
| m_cls: "i < length s \<Longrightarrow> cls_match neg items (s ! i) \<Longrightarrow> matches (Cls neg items) s i (Suc i)"
| m_any: "i < length s \<Longrightarrow> \<not> line_terminator (s ! i) \<Longrightarrow> matches AnyNL s i (Suc i)"
| m_seq: "matches r1 s i k \<Longrightarrow> matches r2 s k j \<Longrightarrow> matches (Seq r1 r2) s i j"
| m_alt1: "matches r1 s i j \<Longrightarrow> matches (Alt r1 r2) s i j"
| m_alt2: "matches r2 s i j \<Longrightarrow> matches (Alt r1 r2) s i j"
| m_rep_stop: "mx = Some 0 \<or> mn = 0 \<Longrightarrow> matches (Rep r mn mx) s i i"
| m_rep_step: "mx \<noteq> Some 0 \<Longrightarrow> matches r s i k \<Longrightarrow> mn \<noteq> 0 \<or> k \<noteq> i \<Longrightarrow>
     matches (Rep r (mn - 1) (map_option (\<lambda>m. m - 1) mx)) s k j \<Longrightarrow> matches (Rep r mn mx) s i j"
| m_grp: "matches r s i j \<Longrightarrow> matches (Grp r) s i j"
| m_look: "matches r s i k \<Longrightarrow> matches (Look r) s i i"
| m_bol: "matches Bol s 0 0"
| m_eol: "matches Eol s (length s) (length s)"

text \<open>
  A repetition of a pattern that matches exactly one character satisfying
  \<open>P\<close> (a class or \<open>.\<close>) matches exactly the segments of admissible length
  whose characters all satisfy \<open>P\<close>.
\<close>

definition single_char :: "re \<Rightarrow> string \<Rightarrow> (char \<Rightarrow> bool) \<Rightarrow> bool" where
  "single_char r s P \<longleftrightarrow> (\<forall>i j. matches r s i j \<longleftrightarrow> i < length s \<and> P (s ! i) \<and> j = Suc i)"

definition rep_bounds :: "nat \<Rightarrow> nat option \<Rightarrow> nat \<Rightarrow> bool" where
  "rep_bounds mn mx d \<longleftrightarrow> mn \<le> d \<and> (case mx of None \<Rightarrow> True | Some m \<Rightarrow> d \<le> m)"

text \<open>A pattern with no \<open>^\<close> can match after any prefix.\<close>

fun no_bol :: "re \<Rightarrow> bool" where
  "no_bol Bol \<longleftrightarrow> False"
| "no_bol (Seq r1 r2) \<longleftrightarrow> no_bol r1 \<and> no_bol r2"
| "no_bol (Alt r1 r2) \<longleftrightarrow> no_bol r1 \<and> no_bol r2"
| "no_bol (Rep r mn mx) \<longleftrightarrow> no_bol r"
| "no_bol (Grp r) \<longleftrightarrow> no_bol r"
| "no_bol (Look r) \<longleftrightarrow> no_bol r"
| "no_bol _ \<longleftrightarrow> True"

text \<open>
  \<open>needs r c\<close>: every match of \<open>r\<close> consumes the literal character \<open>c\<close>.
\<close>

fun needs :: "re \<Rightarrow> char \<Rightarrow> bool" where
  "needs (Cls neg items) c \<longleftrightarrow> \<not> neg \<and> items = [CChar c]"
| "needs (Seq r1 r2) c \<longleftrightarrow> needs r1 c \<or> needs r2 c"
| "needs (Alt r1 r2) c \<longleftrightarrow> needs r1 c \<and> needs r2 c"
| "needs (Rep r mn mx) c \<longleftrightarrow> 0 < mn \<and> mx \<noteq> Some 0 \<and> needs r c"
| "needs (Grp r) c \<longleftrightarrow> needs r c"
| "needs _ c \<longleftrightarrow> False"

text \<open>
  Patterns without \<open>^\<close>, \<open>$\<close> and lookahead: whether they match a segment
  depends on the segment alone, so they denote a language of strings
  (\<open>full_match\<close>: the pattern matches the whole string).
\<close>

fun local_re :: "re \<Rightarrow> bool" where
  "local_re Bol \<longleftrightarrow> False"
| "local_re Eol \<longleftrightarrow> False"
| "local_re (Look r) \<longleftrightarrow> False"
| "local_re (Seq r1 r2) \<longleftrightarrow> local_re r1 \<and> local_re r2"
| "local_re (Alt r1 r2) \<longleftrightarrow> local_re r1 \<and> local_re r2"
| "local_re (Rep r mn mx) \<longleftrightarrow> local_re r"
| "local_re (Grp r) \<longleftrightarrow> local_re r"
| "local_re _ \<longleftrightarrow> True"

definition full_match :: "re \<Rightarrow> string \<Rightarrow> bool" where
  "full_match r w \<longleftrightarrow> matches r w 0 (length w)"

inductive_simps matches_Empty [simp]: "matches Empty s i j"
inductive_simps matches_Cls [simp]: "matches (Cls neg items) s i j"
inductive_simps matches_AnyNL [simp]: "matches AnyNL s i j"
inductive_simps matches_Seq [simp]: "matches (Seq r1 r2) s i j"
inductive_simps matches_Alt [simp]: "matches (Alt r1 r2) s i j"
inductive_simps matches_Grp [simp]: "matches (Grp r) s i j"
inductive_simps matches_Look [simp]: "matches (Look r) s i j"
inductive_simps matches_Bol [simp]: "matches Bol s i j"
inductive_simps matches_Eol [simp]: "matches Eol s i j"
lemma matches_RepE:
  assumes "matches (Rep r mn mx) s i j"
  obtains (stop) "j = i" "mx = Some 0 \<or> mn = 0"
    | (step) k where "mx \<noteq> Some 0" "matches r s i k" "mn \<noteq> 0 \<or> k \<noteq> i"
        "matches (Rep r (mn - 1) (map_option (\<lambda>m. m - 1) mx)) s k j"
  using assms by (cases rule: matches.cases) blast+

section \<open>The matcher computes the reference semantics\<close>

lemma matches_bound: "matches r s i j \<Longrightarrow> i \<le> j \<and> j \<le> max i (length s)"
  by (induction rule: matches.induct) auto

lemma set_rep_Suc:
  "j \<in> set (rep m (Suc n) mn mx i) \<longleftrightarrow>
     (mx = Some 0 \<and> j = i) \<or>
     (mx \<noteq> Some 0 \<and>
      ((\<exists>k \<in> set (m i). (mn \<noteq> 0 \<or> k \<noteq> i) \<and>
          j \<in> set (rep m n (mn - 1) (map_option (\<lambda>k. k - 1) mx) k)) \<or>
       (mn = 0 \<and> j = i)))"
  by auto

lemma rep_sound:
  assumes m: "\<And>i j. j \<in> set (m i) \<Longrightarrow> matches r s i j"
  shows "j \<in> set (rep m n mn mx i) \<Longrightarrow> matches (Rep r mn mx) s i j"
proof (induction n arbitrary: mn mx i j)
  case 0
  then show ?case by simp
next
  case (Suc n)
  then show ?case
    unfolding set_rep_Suc by (blast intro: m_rep_stop m_rep_step m)
qed

lemma rep_fuel_step:
  assumes "matches r s i k" "mn \<noteq> 0 \<or> k \<noteq> i" "length s - i + mn < Suc n"
  shows "length s - k + (mn - 1) < n"
proof -
  from matches_bound [OF assms(1)] have "i \<le> k" "k \<le> max i (length s)" by auto
  with assms(2,3) show ?thesis by (auto simp: max_def split: if_splits)
qed

lemma rep_complete:
  assumes m: "\<And>i j. matches r s i j \<Longrightarrow> j \<in> set (m i)"
  shows "matches (Rep r mn mx) s i j \<Longrightarrow> length s - i + mn < n \<Longrightarrow> j \<in> set (rep m n mn mx i)"
proof (induction n arbitrary: mn mx i j)
  case 0
  then show ?case by simp
next
  case (Suc n)
  from Suc.prems(1) show ?case
  proof (cases rule: matches_RepE)
    case stop
    then show ?thesis unfolding set_rep_Suc by auto
  next
    case (step k)
    from rep_fuel_step [OF step(2) step(3) Suc.prems(2)]
    have "j \<in> set (rep m n (mn - 1) (map_option (\<lambda>k. k - 1) mx) k)"
      using step(4) by (intro Suc.IH) simp_all
    moreover have "k \<in> set (m i)" using m step(2) .
    ultimately show ?thesis using step(1) step(3) unfolding set_rep_Suc by blast
  qed
qed

theorem ends_matches: "j \<in> set (ends r s i) \<longleftrightarrow> matches r s i j"
proof (induction r arbitrary: i j)
  case (Rep r mn mx)
  have sound: "\<And>i j. j \<in> set (ends r s i) \<Longrightarrow> matches r s i j"
    and complete: "\<And>i j. matches r s i j \<Longrightarrow> j \<in> set (ends r s i)"
    using Rep.IH by blast+
  show ?case
  proof
    assume "j \<in> set (ends (Rep r mn mx) s i)"
    then show "matches (Rep r mn mx) s i j"
      by (simp only: ends.simps) (rule rep_sound [OF sound])
  next
    assume "matches (Rep r mn mx) s i j"
    moreover have "length s - i + mn < Suc (length s + mn)" by arith
    ultimately show "j \<in> set (ends (Rep r mn mx) s i)"
      unfolding ends.simps by - (rule rep_complete, rule complete, assumption+)
  qed
next
  case (Look r)
  have "ends r s i \<noteq> [] \<longleftrightarrow> (\<exists>k. matches r s i k)"
    using Look.IH by (metis ex_in_conv set_empty)
  then show ?case by auto
qed auto

lemma ends_Nil_iff: "ends r s i = [] \<longleftrightarrow> (\<forall>j. \<not> matches r s i j)"
  by (metis ends_matches ex_in_conv set_empty)

text \<open>The search loop is total: each call that recurses moves the start index towards \<open>Suc (length s)\<close>.\<close>

lemma search_total: "search_dom (r, s, i)"
proof (induction "Suc (length s) - i" arbitrary: i)
  case 0
  show ?case by (rule search.domintros) (use 0 in simp)
next
  case (Suc n)
  have "n = Suc (length s) - Suc i" using Suc.hyps(2) by simp
  then show ?case by (rule search.domintros [OF Suc.hyps(1)])
qed

text \<open>It returns the leftmost start index at or after \<open>i\<close> where the pattern matches.\<close>

lemma search_leftmost:
  "search r s i = Some (k, j) \<Longrightarrow>
   i \<le> k \<and> matches r s k j \<and> (\<forall>k'. i \<le> k' \<and> k' < k \<longrightarrow> (\<forall>j'. \<not> matches r s k' j'))"
proof (induction r s i rule: search.induct)
  case (1 r s i)
  show ?case
  proof (cases "length s < i")
    case True
    with "1.prems" show ?thesis by (simp add: search.simps)
  next
    case False
    show ?thesis
    proof (cases "ends r s i")
      case Nil
      with False "1.prems" have "search r s (Suc i) = Some (k, j)" by (simp add: search.simps)
      with "1.IH" [OF False Nil] Nil show ?thesis
        by (metis Suc_leD ends_Nil_iff le_antisym not_less_eq_eq)
    next
      case (Cons j' js)
      with False "1.prems" have "k = i" "j = j'" by (simp_all add: search.simps)
      with Cons show ?thesis by (metis ends_matches list.set_intros(1) order.refl not_le)
    qed
  qed
qed

lemma search_Some_iff:
  "search r s i \<noteq> None \<longleftrightarrow> (\<exists>k j. i \<le> k \<and> k \<le> length s \<and> matches r s k j)"
proof (induction r s i rule: search.induct)
  case (1 r s i)
  show ?case
  proof (cases "length s < i")
    case True
    then show ?thesis by (auto simp: search.simps)
  next
    case False
    show ?thesis
    proof (cases "ends r s i")
      case Nil
      then have none: "\<not> matches r s i j" for j by (simp add: ends_Nil_iff)
      have "(\<exists>k j. Suc i \<le> k \<and> k \<le> length s \<and> matches r s k j) \<longleftrightarrow>
            (\<exists>k j. i \<le> k \<and> k \<le> length s \<and> matches r s k j)"
      proof
        assume "\<exists>k j. i \<le> k \<and> k \<le> length s \<and> matches r s k j"
        then obtain k j where k: "i \<le> k" "k \<le> length s" "matches r s k j" by blast
        with none have "k \<noteq> i" by blast
        with k have "Suc i \<le> k" by simp
        with k show "\<exists>k j. Suc i \<le> k \<and> k \<le> length s \<and> matches r s k j" by blast
      qed (blast dest: Suc_leD)
      with "1.IH" [OF False Nil] False Nil show ?thesis by (simp add: search.simps)
    next
      case (Cons j js)
      then have "matches r s i j" using ends_matches by (metis list.set_intros(1))
      with False Cons show ?thesis by (auto simp: search.simps)
    qed
  qed
qed

theorem re_test_iff: "re_test r s \<longleftrightarrow> (\<exists>k j. k \<le> length s \<and> matches r s k j)"
  unfolding re_test_def search_Some_iff by simp

lemma single_charD:
  "single_char r s P \<Longrightarrow> matches r s i j \<longleftrightarrow> i < length s \<and> P (s ! i) \<and> j = Suc i"
  unfolding single_char_def by (erule allE)+

lemma single_char_Cls: "single_char (Cls neg items) s (cls_match neg items)"
  by (auto simp: single_char_def)

lemma single_char_AnyNL: "single_char AnyNL s (\<lambda>c. \<not> line_terminator c)"
  by (auto simp: single_char_def)

lemma rep_single_sound:
  "matches (Rep r mn mx) s i j \<Longrightarrow> single_char r s P \<Longrightarrow> i \<le> length s \<Longrightarrow> (\<forall>m. mx = Some m \<longrightarrow> mn \<le> m) \<Longrightarrow>
    i \<le> j \<and> j \<le> length s \<and> rep_bounds mn mx (j - i) \<and> (\<forall>k. i \<le> k \<and> k < j \<longrightarrow> P (s ! k))"
proof (induction "Rep r mn mx" s i j arbitrary: mn mx rule: matches.induct)
  case (m_rep_stop mx mn s i)
  then show ?case by (auto simp: rep_bounds_def split: option.splits)
next
  case (m_rep_step mx s i k mn j)
  from m_rep_step.hyps(2) have "i < length s \<and> P (s ! i) \<and> k = Suc i"
    by (simp only: single_charD [OF m_rep_step.prems(1)])
  then have k: "k = Suc i" "i < length s" "P (s ! i)"
    by simp_all
  have bnd: "\<forall>m. map_option (\<lambda>m. m - 1) mx = Some m \<longrightarrow> mn - 1 \<le> m"
    using m_rep_step.prems(3) m_rep_step.hyps(1) by (cases mx) auto
  have "k \<le> length s" using k by simp
  from m_rep_step.hyps(6) [OF m_rep_step.prems(1) this bnd] have ih: "k \<le> j" "j \<le> length s"
    "rep_bounds (mn - 1) (map_option (\<lambda>m. m - 1) mx) (j - k)" "\<forall>l. k \<le> l \<and> l < j \<longrightarrow> P (s ! l)"
    by auto
  from ih(3) m_rep_step.hyps(1) k(1) ih(1) have "rep_bounds mn mx (j - i)"
    by (cases mx) (auto simp: rep_bounds_def split: option.splits)
  moreover have "P (s ! l)" if "i \<le> l" "l < j" for l
  proof (cases "l = i")
    case True
    with k(3) show ?thesis by simp
  next
    case False
    with that k(1) ih(4) show ?thesis by simp
  qed
  ultimately show ?case using ih(1,2) k(1) by simp
qed

lemma rep_single_complete:
  assumes r: "single_char r s P"
  shows "j - i = d \<Longrightarrow> i \<le> j \<Longrightarrow> j \<le> length s \<Longrightarrow> rep_bounds mn mx d \<Longrightarrow>
    \<forall>k. i \<le> k \<and> k < j \<longrightarrow> P (s ! k) \<Longrightarrow> matches (Rep r mn mx) s i j"
proof (induction d arbitrary: i mn mx)
  case 0
  then show ?case by (auto simp: rep_bounds_def intro: m_rep_stop split: option.splits)
next
  case (Suc d)
  have mx: "mx \<noteq> Some 0" using Suc.prems(1,4) by (auto simp: rep_bounds_def split: option.splits)
  from Suc.prems have step: "matches r s i (Suc i)"
    by (simp add: single_charD [OF r])
  have "matches (Rep r (mn - 1) (map_option (\<lambda>m. m - 1) mx)) s (Suc i) j"
    using Suc.prems mx by (intro Suc.IH) (auto simp: rep_bounds_def split: option.splits)
  with mx step show ?case by (auto intro: m_rep_step)
qed

theorem rep_single_iff:
  assumes "single_char r s P" "i \<le> length s" "\<forall>m. mx = Some m \<longrightarrow> mn \<le> m"
  shows "matches (Rep r mn mx) s i j \<longleftrightarrow>
    i \<le> j \<and> j \<le> length s \<and> rep_bounds mn mx (j - i) \<and> (\<forall>k. i \<le> k \<and> k < j \<longrightarrow> P (s ! k))"
  using rep_single_sound [OF _ assms(1) assms(2,3)] rep_single_complete [OF assms(1) refl] by blast

text \<open>\<open>.*\<close> followed by one class character: the first occurrence search of a lookahead.\<close>

lemma matches_any_star_cls:
  assumes "i \<le> length s"
  shows "matches (Seq (Rep AnyNL 0 None) (Cls False items)) s i j \<longleftrightarrow>
    (\<exists>k. i \<le> k \<and> k < length s \<and> (\<forall>m. i \<le> m \<and> m < k \<longrightarrow> \<not> line_terminator (s ! m)) \<and>
         cls_match False items (s ! k) \<and> j = Suc k)"
  using rep_single_iff [OF single_char_AnyNL assms, of None 0]
  by (auto simp: rep_bounds_def split: option.splits)

section \<open>The fuel of a repetition is never exhausted\<close>

lemma rep_Suc_fuel:
  "length s - i + mn < n \<Longrightarrow> rep (ends r s) n mn mx i = rep (ends r s) (Suc n) mn mx i"
proof (induction n arbitrary: mn mx i)
  case 0
  then show ?case by simp
next
  case (Suc n)
  let ?mx' = "map_option (\<lambda>k. k - 1) mx"
  have "(if mn = 0 \<and> j = i then [] else rep (ends r s) n (mn - 1) ?mx' j) =
        (if mn = 0 \<and> j = i then [] else rep (ends r s) (Suc n) (mn - 1) ?mx' j)"
    if j: "j \<in> set (ends r s i)" for j
  proof (cases "mn = 0 \<and> j = i")
    case False
    from j have "matches r s i j" by (simp add: ends_matches)
    from rep_fuel_step [OF this _ Suc.prems] False have "length s - j + (mn - 1) < n" by auto
    then have "rep (ends r s) n (mn - 1) ?mx' j = rep (ends r s) (Suc n) (mn - 1) ?mx' j"
      by (rule Suc.IH)
    then show ?thesis by (simp only: if_not_P [OF False])
  qed simp
  then have "map (\<lambda>j. if mn = 0 \<and> j = i then [] else rep (ends r s) n (mn - 1) ?mx' j) (ends r s i) =
             map (\<lambda>j. if mn = 0 \<and> j = i then [] else rep (ends r s) (Suc n) (mn - 1) ?mx' j) (ends r s i)"
    by (rule map_cong [OF refl])
  then show ?case
    by (simp only: rep.simps(2) [of "ends r s" n mn mx i] rep.simps(2) [of "ends r s" "Suc n" mn mx i])
qed

text \<open>
  The fuel \<open>ends\<close> gives a repetition, \<open>Suc (length s + mn)\<close>, exceeds the
  number of iterations any match can make (each consumes a character or
  counts down the minimum), so any larger amount computes the same matches.
\<close>

theorem rep_fuel_enough:
  assumes "length s - i + mn < n" "n \<le> n'"
  shows "rep (ends r s) n mn mx i = rep (ends r s) n' mn mx i"
  using assms(2)
proof (induction n' rule: dec_induct)
  case base
  then show ?case by simp
next
  case (step n')
  with assms(1) show ?case using rep_Suc_fuel [of s i mn n' r mx] by simp
qed

section \<open>Generic facts about patterns\<close>

lemma matches_shift:
  "matches r s i j \<Longrightarrow> no_bol r \<Longrightarrow> matches r (p @ s) (length p + i) (length p + j)"
proof (induction rule: matches.induct)
  case (m_rep_step mx r s i k mn j)
  then show ?case by (auto intro: matches.m_rep_step)
qed (auto simp: nth_append intro: matches.intros)

lemma re_test_prefix:
  assumes "no_bol r" and "re_test r s"
  shows "re_test r (p @ s)"
proof -
  from assms(2) obtain k j where "k \<le> length s" "matches r s k j"
    unfolding re_test_iff by blast
  with assms(1) have "length p + k \<le> length (p @ s)" "matches r (p @ s) (length p + k) (length p + j)"
    by (simp_all add: matches_shift)
  then show ?thesis unfolding re_test_iff by blast
qed

lemma needs_sound:
  "matches r s i j \<Longrightarrow> needs r c \<Longrightarrow> \<exists>k. i \<le> k \<and> k < j \<and> k < length s \<and> s ! k = c"
proof (induction rule: matches.induct)
  case (m_seq r1 s i k r2 j)
  from m_seq.hyps have "i \<le> k" "k \<le> j" using matches_bound by blast+
  with m_seq.IH m_seq.prems show ?case by (meson le_trans less_le_trans needs.simps(2))
next
  case (m_rep_step mx r s i k mn j)
  from m_rep_step.hyps(4) have "k \<le> j" using matches_bound by blast
  with m_rep_step.IH(1) m_rep_step.prems show ?case by (meson less_le_trans needs.simps(4))
qed (auto simp: cls_match_def)

section \<open>Patterns without anchors denote languages\<close>

lemma local_re_no_bol: "local_re r \<Longrightarrow> no_bol r"
  by (induction r) simp_all

lemma matches_take:
  "matches r s i j \<Longrightarrow> local_re r \<Longrightarrow> j \<le> n \<Longrightarrow> matches r (take n s) i j"
proof (induction rule: matches.induct)
  case (m_seq r1 s i k r2 j)
  then show ?case using matches_bound [OF m_seq.hyps(2)] by (auto intro: matches.m_seq)
next
  case (m_rep_step mx r s i k mn j)
  then show ?case using matches_bound [OF m_rep_step.hyps(4)] by (auto intro: matches.m_rep_step)
qed (auto intro: matches.intros)

lemma matches_drop:
  "matches r s i j \<Longrightarrow> local_re r \<Longrightarrow> m \<le> i \<Longrightarrow> matches r (drop m s) (i - m) (j - m)"
proof (induction rule: matches.induct)
  case (m_cls i s neg items)
  then show ?case by (simp add: Suc_diff_le)
next
  case (m_any i s)
  then show ?case by (simp add: Suc_diff_le)
next
  case (m_seq r1 s i k r2 j)
  then show ?case using matches_bound [OF m_seq.hyps(1)] by (auto intro: matches.m_seq)
next
  case (m_rep_step mx r s i k mn j)
  then have "i \<le> k" using matches_bound by blast
  with m_rep_step show ?case by (auto intro: matches.m_rep_step)
qed (auto intro: matches.intros)

lemma matches_append_right:
  "matches r w i j \<Longrightarrow> local_re r \<Longrightarrow> matches r (w @ b) i j"
proof (induction rule: matches.induct)
  case (m_rep_step mx r s i k mn j)
  then show ?case by (auto intro: matches.m_rep_step)
qed (auto simp: nth_append intro: matches.intros)

text \<open>A segment \<open>[i, j)\<close> of \<open>s\<close> is matched exactly when the pattern matches the whole segment.\<close>

lemma matches_seg:
  assumes "local_re r" "i \<le> j" "j \<le> length s"
  shows "matches r s i j \<longleftrightarrow> full_match r (take (j - i) (drop i s))"
proof
  assume "matches r s i j"
  from matches_drop [OF matches_take [OF this assms(1) order_refl] assms(1) order_refl]
  show "full_match r (take (j - i) (drop i s))"
    using assms(2,3) by (simp add: full_match_def drop_take)
next
  assume f: "full_match r (take (j - i) (drop i s))"
  have s: "take i s @ take (j - i) (drop i s) @ drop (j - i) (drop i s) = s"
    by (simp only: append_take_drop_id)
  have m: "matches r (take i s @ take (j - i) (drop i s) @ drop (j - i) (drop i s))
          (length (take i s) + 0) (length (take i s) + length (take (j - i) (drop i s)))"
    by (rule matches_shift [OF matches_append_right [OF f [unfolded full_match_def] assms(1)]
        local_re_no_bol [OF assms(1)]])
  have e: "length (take i s) + 0 = i" "length (take i s) + length (take (j - i) (drop i s)) = j"
    using assms(2,3) by auto
  from m show "matches r s i j" unfolding s e .
qed

lemma matches_full_bound: "matches r s i j \<Longrightarrow> i \<le> length s \<Longrightarrow> i \<le> j \<and> j \<le> length s"
  using matches_bound by fastforce

lemma full_match_Seq:
  assumes "local_re r1" "local_re r2"
  shows "full_match (Seq r1 r2) w \<longleftrightarrow> (\<exists>n \<le> length w. full_match r1 (take n w) \<and> full_match r2 (drop n w))"
proof -
  have "matches (Seq r1 r2) w 0 (length w) \<longleftrightarrow>
        (\<exists>n \<le> length w. matches r1 w 0 n \<and> matches r2 w n (length w))"
    using matches_full_bound [of r1 w 0] by auto
  also have "\<dots> \<longleftrightarrow> (\<exists>n \<le> length w. full_match r1 (take n w) \<and> full_match r2 (drop n w))"
    using matches_seg [OF assms(1), of 0 _ w] matches_seg [OF assms(2), of _ "length w" w]
    by (auto simp: le_imp_diff_is_add)
  finally show ?thesis unfolding full_match_def .
qed

lemma full_match_Cls: "full_match (Cls neg items) w \<longleftrightarrow> (\<exists>c. w = [c] \<and> cls_match neg items c)"
  by (cases w) (auto simp: full_match_def)

lemma full_match_Rep_Cls:
  assumes "\<forall>m. mx = Some m \<longrightarrow> mn \<le> m"
  shows "full_match (Rep (Cls neg items) mn mx) w \<longleftrightarrow>
    rep_bounds mn mx (length w) \<and> list_all (cls_match neg items) w"
  using rep_single_iff [OF single_char_Cls, of 0 w mx mn neg items "length w"] assms
  by (auto simp: full_match_def list_all_length)

text \<open>A star consumes at least one character per iteration; a \<open>+\<close> at least one iteration.\<close>

lemma full_match_star:
  assumes "local_re r"
  shows "full_match (Rep r 0 None) w \<longleftrightarrow>
    w = [] \<or> (\<exists>n. 0 < n \<and> n \<le> length w \<and> full_match r (take n w) \<and> full_match (Rep r 0 None) (drop n w))"
proof
  assume "full_match (Rep r 0 None) w"
  then have "matches (Rep r 0 None) w 0 (length w)" by (simp add: full_match_def)
  then show "w = [] \<or> (\<exists>n. 0 < n \<and> n \<le> length w \<and> full_match r (take n w) \<and>
      full_match (Rep r 0 None) (drop n w))"
  proof (cases rule: matches_RepE)
    case (step k)
    then have k: "k \<le> length w" using matches_full_bound [of r w 0 k] by simp
    with step matches_seg [OF assms, of 0 k w] matches_seg [of "Rep r 0 None" k "length w" w] assms
    show ?thesis by (auto simp: full_match_def)
  qed simp
next
  assume "w = [] \<or> (\<exists>n. 0 < n \<and> n \<le> length w \<and> full_match r (take n w) \<and>
      full_match (Rep r 0 None) (drop n w))"
  then show "full_match (Rep r 0 None) w"
  proof
    assume "w = []"
    then show ?thesis by (simp add: full_match_def m_rep_stop)
  next
    assume "\<exists>n. 0 < n \<and> n \<le> length w \<and> full_match r (take n w) \<and> full_match (Rep r 0 None) (drop n w)"
    then obtain n where n: "0 < n" "n \<le> length w" "full_match r (take n w)"
      "full_match (Rep r 0 None) (drop n w)" by blast
    have "matches r w 0 n" using matches_seg [OF assms, of 0 n w] n by simp
    moreover have "matches (Rep r 0 None) w n (length w)"
      using matches_seg [of "Rep r 0 None" n "length w" w] assms n by simp
    ultimately show ?thesis unfolding full_match_def
      using n(1) by (auto intro: m_rep_step)
  qed
qed

lemma full_match_plus:
  assumes "local_re r"
  shows "full_match (Rep r 1 None) w \<longleftrightarrow>
    (\<exists>n \<le> length w. full_match r (take n w) \<and> full_match (Rep r 0 None) (drop n w))"
proof
  assume "full_match (Rep r 1 None) w"
  then have "matches (Rep r 1 None) w 0 (length w)" by (simp add: full_match_def)
  then show "\<exists>n \<le> length w. full_match r (take n w) \<and> full_match (Rep r 0 None) (drop n w)"
  proof (cases rule: matches_RepE)
    case (step k)
    then have k: "k \<le> length w" using matches_full_bound [of r w 0 k] by simp
    with step matches_seg [OF assms, of 0 k w] matches_seg [of "Rep r 0 None" k "length w" w] assms
    show ?thesis by (auto simp: full_match_def)
  qed simp
next
  assume "\<exists>n \<le> length w. full_match r (take n w) \<and> full_match (Rep r 0 None) (drop n w)"
  then obtain n where n: "n \<le> length w" "full_match r (take n w)" "full_match (Rep r 0 None) (drop n w)"
    by blast
  have "matches r w 0 n" using matches_seg [OF assms, of 0 n w] n by simp
  moreover have "matches (Rep r 0 None) w n (length w)"
    using matches_seg [of "Rep r 0 None" n "length w" w] assms n by simp
  ultimately show "full_match (Rep r 1 None) w" unfolding full_match_def
    by (auto intro: m_rep_step)
qed

lemma full_match_Grp [simp]: "full_match (Grp r) w \<longleftrightarrow> full_match r w"
  and full_match_Alt [simp]: "full_match (Alt r1 r2) w \<longleftrightarrow> full_match r1 w \<or> full_match r2 w"
  by (simp_all add: full_match_def)

lemma full_match_Seq_append:
  "local_re r1 \<Longrightarrow> local_re r2 \<Longrightarrow>
   full_match (Seq r1 r2) w \<longleftrightarrow> (\<exists>a b. w = a @ b \<and> full_match r1 a \<and> full_match r2 b)"
  by (simp only: full_match_Seq ex_append_split)

lemma full_match_star_append:
  "local_re r \<Longrightarrow>
   full_match (Rep r 0 None) w \<longleftrightarrow>
     w = [] \<or> (\<exists>a b. w = a @ b \<and> a \<noteq> [] \<and> full_match r a \<and> full_match (Rep r 0 None) b)"
  unfolding ex_append_split_ne by (rule full_match_star)

lemma full_match_plus_append:
  "local_re r \<Longrightarrow>
   full_match (Rep r 1 None) w \<longleftrightarrow> (\<exists>a b. w = a @ b \<and> full_match r a \<and> full_match (Rep r 0 None) b)"
  unfolding ex_append_split by (rule full_match_plus)

end
