(* ===== verification/Validation.thy ===== *)
theory Validation
  imports Regex
begin

text \<open>
  The two client-side validation patterns of the sign-in pages
  (\<open>emailCheckRegex\<close> and \<open>passwordCheckRegex\<close>, written identically in
  \<open>src/pages/sign-in/index.tsx\<close> and \<open>src/pages/signin/index.tsx\<close>), transcribed
  term by term from their literals, and the \<open>test\<close> calls of the change
  handlers. The lemmas characterise the accepted strings directly.
\<close>

section \<open>The pattern literals\<close>

definition lit :: "char \<Rightarrow> re" where
  "lit c = Cls False [CChar c]"

fun seqs :: "re list \<Rightarrow> re" where
  "seqs [] = Empty"
| "seqs [r] = r"
| "seqs (r # rs) = Seq r (seqs rs)"

text \<open>
  \<open>/([\w-.]+)@((\[[0-9]{1,3}\.[0-9]{1,3}\.[0-9]{1,3}\.)|(([\w-]+\.)+))([a-zA-Z]{2,4}|[0-9]{1,3})(\]?)$/\<close>.
  In \<open>[\w-.]\<close> the hyphen follows a class escape and is a literal (Annex B).
\<close>

definition email_regex :: re where
  "email_regex = seqs
     [Grp (Rep (Cls False [CWord, CChar CHR ''-'', CChar CHR ''.'']) 1 None),
      lit CHR ''@'',
      Grp (Alt
        (Grp (seqs [lit CHR ''['', Rep (Cls False [CRange CHR ''0'' CHR ''9'']) 1 (Some 3),
                    lit CHR ''.'', Rep (Cls False [CRange CHR ''0'' CHR ''9'']) 1 (Some 3),
                    lit CHR ''.'', Rep (Cls False [CRange CHR ''0'' CHR ''9'']) 1 (Some 3),
                    lit CHR ''.'']))
        (Grp (Rep (Grp (Seq (Rep (Cls False [CWord, CChar CHR ''-'']) 1 None) (lit CHR ''.''))) 1 None))),
      Grp (Alt (Rep (Cls False [CRange CHR ''a'' CHR ''z'', CRange CHR ''A'' CHR ''Z'']) 2 (Some 4))
               (Rep (Cls False [CRange CHR ''0'' CHR ''9'']) 1 (Some 3))),
      Grp (Rep (lit CHR '']'') 0 (Some 1)),
      Eol]"

text \<open>\<open>/^(?=.*[a-zA-Z])(?=.*[!@#$%^*+=-])(?=.*[0-9]).{8,25}$/\<close>.\<close>

definition password_special :: "char list" where
  "password_special = ''!@#$%^*+=-''"

definition password_regex :: re where
  "password_regex = seqs
     [Bol,
      Look (Seq (Rep AnyNL 0 None) (Cls False [CRange CHR ''a'' CHR ''z'', CRange CHR ''A'' CHR ''Z''])),
      Look (Seq (Rep AnyNL 0 None) (Cls False (map CChar password_special))),
      Look (Seq (Rep AnyNL 0 None) (Cls False [CRange CHR ''0'' CHR ''9''])),
      Rep AnyNL 8 (Some 25),
      Eol]"

text \<open>\<open>emailCheckRegex.test(emailValue)\<close> and \<open>passwordCheckRegex.test(passwordValue)\<close>.\<close>

definition email_ok :: "string \<Rightarrow> bool" where
  "email_ok v \<longleftrightarrow> re_test email_regex v"

definition password_ok :: "string \<Rightarrow> bool" where
  "password_ok v \<longleftrightarrow> re_test password_regex v"

section \<open>What the email check accepts, stated directly\<close>

text \<open>
  An abstract description of the addresses the email pattern stands for,
  written without regular expressions: a local part of word characters,
  hyphens and dots; an \<open>@\<close>; a domain that is either one or more labels of
  word characters and hyphens, each followed by a dot, or a bracketed prefix
  of three dotted groups of one to three digits; a top-level part of two to
  four ASCII letters or one to three digits; and at most one closing bracket.
  \<open>dot_fields\<close> splits a string at its dots. The check accepts a string
  exactly when some suffix of it is such an address (\<open>email_spec\<close>).
\<close>

definition local_char :: "char \<Rightarrow> bool" where
  "local_char c \<longleftrightarrow> is_word_char c \<or> c = CHR ''-'' \<or> c = CHR ''.''"

definition label_char :: "char \<Rightarrow> bool" where
  "label_char c \<longleftrightarrow> is_word_char c \<or> c = CHR ''-''"

fun dot_fields :: "string \<Rightarrow> string list" where
  "dot_fields [] = [[]]"
| "dot_fields (c # cs) =
     (let fs = dot_fields cs in if c = CHR ''.'' then [] # fs else (c # hd fs) # tl fs)"

definition labels_dom :: "string \<Rightarrow> bool" where
  "labels_dom d \<longleftrightarrow>
     (let fs = dot_fields d
      in 2 \<le> length fs \<and> last fs = [] \<and> list_all (\<lambda>f. f \<noteq> [] \<and> list_all label_char f) (butlast fs))"

definition octet :: "string \<Rightarrow> bool" where
  "octet f \<longleftrightarrow> f \<noteq> [] \<and> length f \<le> 3 \<and> list_all is_digit f"

definition ip_dom :: "string \<Rightarrow> bool" where
  "ip_dom d \<longleftrightarrow>
     (case d of [] \<Rightarrow> False
      | c # r \<Rightarrow> c = CHR ''['' \<and>
          (let fs = dot_fields r in length fs = 4 \<and> last fs = [] \<and> list_all octet (butlast fs)))"

definition tld_ok :: "string \<Rightarrow> bool" where
  "tld_ok t \<longleftrightarrow>
     (2 \<le> length t \<and> length t \<le> 4 \<and> list_all is_ascii_letter t) \<or>
     (t \<noteq> [] \<and> length t \<le> 3 \<and> list_all is_digit t)"

definition tld_tail :: "string \<Rightarrow> bool" where
  "tld_tail t \<longleftrightarrow> (\<exists>m \<le> length t. tld_ok (take m t) \<and> (drop m t = [] \<or> drop m t = '']''))"

definition domain_tail :: "string \<Rightarrow> bool" where
  "domain_tail p \<longleftrightarrow> (\<exists>n \<le> length p. (ip_dom (take n p) \<or> labels_dom (take n p)) \<and> tld_tail (drop n p))"

definition email_address :: "string \<Rightarrow> bool" where
  "email_address w \<longleftrightarrow>
     (\<exists>i < length w. 0 < i \<and> list_all local_char (take i w) \<and> w ! i = CHR ''@'' \<and>
        domain_tail (drop (Suc i) w))"

definition email_spec :: "string \<Rightarrow> bool" where
  "email_spec v \<longleftrightarrow> (\<exists>k \<le> length v. email_address (drop k v))"

section \<open>The password rule\<close>

lemma cls_letter: "cls_match False [CRange CHR ''a'' CHR ''z'', CRange CHR ''A'' CHR ''Z''] c \<longleftrightarrow> is_ascii_letter c"
  by (auto simp: cls_match_def is_ascii_letter_def)

lemma cls_digit: "cls_match False [CRange CHR ''0'' CHR ''9''] c \<longleftrightarrow> is_digit c"
  by (simp add: cls_match_def is_digit_def)

lemma cls_special: "cls_match False (map CChar password_special) c \<longleftrightarrow> c \<in> set password_special"
  by (auto simp: cls_match_def password_special_def)

lemma any_star_from:
  "i \<le> length v \<Longrightarrow> matches (Rep AnyNL 0 None) v i k \<longleftrightarrow>
     i \<le> k \<and> k \<le> length v \<and> (\<forall>m. i \<le> m \<and> m < k \<longrightarrow> \<not> line_terminator (v ! m))"
  using rep_single_iff [OF single_char_AnyNL, of i v None 0 k] by (simp add: rep_bounds_def)

lemma password_body:
  "matches (Rep AnyNL 8 (Some 25)) v 0 j \<longleftrightarrow>
     j \<le> length v \<and> 8 \<le> j \<and> j \<le> 25 \<and> (\<forall>k < j. \<not> line_terminator (v ! k))"
  using rep_single_iff [OF single_char_AnyNL, of 0 v "Some 25" 8 j] by (auto simp: rep_bounds_def)

lemma lookahead_any_star:
  "Ex (matches (Seq (Rep AnyNL 0 None) (Cls False items)) v 0) \<longleftrightarrow>
     (\<exists>k < length v. (\<forall>m < k. \<not> line_terminator (v ! m)) \<and> cls_match False items (v ! k))"
proof -
  have "matches (Seq (Rep AnyNL 0 None) (Cls False items)) v 0 j \<longleftrightarrow>
     (\<exists>k < length v. (\<forall>m < k. \<not> line_terminator (v ! m)) \<and> cls_match False items (v ! k) \<and> j = Suc k)"
    for j
    using matches_any_star_cls [of 0 v items j] by simp
  then show ?thesis by blast
qed

text \<open>The pattern, read as conditions on the positions of the string.\<close>

lemma password_ok_positions:
  "password_ok v \<longleftrightarrow>
     (\<exists>k < length v. (\<forall>m < k. \<not> line_terminator (v ! m)) \<and> is_ascii_letter (v ! k)) \<and>
     (\<exists>k < length v. (\<forall>m < k. \<not> line_terminator (v ! m)) \<and> v ! k \<in> set password_special) \<and>
     (\<exists>k < length v. (\<forall>m < k. \<not> line_terminator (v ! m)) \<and> is_digit (v ! k)) \<and>
     8 \<le> length v \<and> length v \<le> 25 \<and> (\<forall>k < length v. \<not> line_terminator (v ! k))"
  unfolding password_ok_def re_test_iff password_regex_def
  by (auto simp: lookahead_any_star password_body cls_letter cls_digit cls_special)

text \<open>
  C2: The password check accepts exactly the strings of 8 to 25 characters
  without a line terminator that contain an ASCII letter, one of the special
  characters \<open>!@#$%^*+=-\<close> and a digit.
\<close>

theorem password_ok_iff:
  "password_ok v \<longleftrightarrow>
     8 \<le> length v \<and> length v \<le> 25 \<and> (\<forall>c \<in> set v. \<not> line_terminator c) \<and>
     (\<exists>c \<in> set v. is_ascii_letter c) \<and> (\<exists>c \<in> set v. c \<in> set password_special) \<and>
     (\<exists>c \<in> set v. is_digit c)"
proof (cases "\<forall>k < length v. \<not> line_terminator (v ! k)")
  case True
  then show ?thesis
    unfolding password_ok_positions
      first_occurrence_free [OF True, of is_ascii_letter]
      first_occurrence_free [OF True, of "\<lambda>c. c \<in> set password_special"]
      first_occurrence_free [OF True, of is_digit]
    by (auto simp: all_set_conv_all_nth)
next
  case False
  then show ?thesis
    unfolding password_ok_positions by (auto simp: all_set_conv_all_nth)
qed

theorem password_ok_iff_witness:
  "password_ok ''abcd123!'' \<and> \<not> password_ok ''abcd1234''"
  using password_ok_iff [of "''abcd123!''"] password_ok_iff [of "''abcd1234''"]
  by (simp add: line_terminator_def is_ascii_letter_def is_digit_def password_special_def)

section \<open>The email rule\<close>

text \<open>Every accepted string contains an \<open>@\<close> and a \<open>.\<close>.\<close>

lemma needs_email_regex: "needs email_regex CHR ''@''" "needs email_regex CHR ''.''"
  by (simp_all add: email_regex_def lit_def)

lemma email_ok_has_char:
  assumes "email_ok v" "needs email_regex c"
  shows "c \<in> set v"
proof -
  from assms(1) obtain k j where "matches email_regex v k j"
    unfolding email_ok_def re_test_iff by blast
  from needs_sound [OF this assms(2)] show ?thesis by (metis nth_mem)
qed

lemma no_bol_email_regex: "no_bol email_regex"
  by (simp add: email_regex_def lit_def)

text \<open>Segments of a string matched by the pieces of the pattern.\<close>

lemma matches_Rep_Cls_segment:
  assumes "s = a @ w @ b" "\<forall>c \<in> set w. cls_match neg items c" "rep_bounds mn mx (length w)"
    "\<forall>m. mx = Some m \<longrightarrow> mn \<le> m"
  shows "matches (Rep (Cls neg items) mn mx) s (length a) (length a + length w)"
proof -
  have "\<forall>k. length a \<le> k \<and> k < length a + length w \<longrightarrow> cls_match neg items (s ! k)"
    using assms(1,2) by (auto simp: nth_append)
  with assms show ?thesis by (subst rep_single_iff [OF single_char_Cls]) auto
qed

lemma matches_lit_at: "s = a @ c # b \<Longrightarrow> matches (lit c) s (length a) (Suc (length a))"
  by (simp add: lit_def cls_match_def)

lemma matches_label_dot:
  assumes "s = a @ dm @ CHR ''.'' # b" "dm \<noteq> []" "\<forall>c \<in> set dm. is_word_char c \<or> c = CHR ''-''"
  shows "matches (Rep (Grp (Seq (Rep (Cls False [CWord, CChar CHR ''-'']) 1 None) (lit CHR ''.''))) 1 None)
           s (length a) (Suc (length a + length dm))"
proof -
  have d1: "matches (Rep (Cls False [CWord, CChar CHR ''-'']) 1 None) s (length a) (length a + length dm)"
    using matches_Rep_Cls_segment [of s a dm "CHR ''.'' # b" False "[CWord, CChar CHR ''-'']" 1 None] assms
    by (auto simp: cls_match_def rep_bounds_def Suc_le_eq)
  have d2: "matches (lit CHR ''.'') s (length a + length dm) (Suc (length a + length dm))"
    using matches_lit_at [of s "a @ dm" "CHR ''.''" b] assms(1) by simp
  show ?thesis
    by (rule m_rep_step [OF _ m_grp [OF m_seq [OF d1 d2]]]) (simp_all add: m_rep_stop)
qed

lemma matches_opt_bracket:
  assumes "s = a @ cl" "cl = [] \<or> cl = '']''"
  shows "matches (Rep (lit CHR '']'') 0 (Some 1)) s (length a) (length s)"
  using assms(2)
proof
  assume "cl = []"
  then show ?thesis using assms(1) by (simp add: m_rep_stop)
next
  assume c: "cl = '']''"
  have l: "matches (lit CHR '']'') s (length a) (Suc (length a))"
    using matches_lit_at [of s a "CHR '']''" "[]"] assms(1) c by simp
  have "matches (Rep (lit CHR '']'') 0 (Some 1)) s (length a) (Suc (length a))"
    by (rule m_rep_step [OF _ l]) (simp_all add: m_rep_stop)
  then show ?thesis using assms(1) c by simp
qed

text \<open>
  The pattern matches the whole of an ordinary address, with or without one
  closing bracket after the top-level domain.
\<close>

lemma email_simple_matches:
  assumes loc: "loc \<noteq> []" "\<forall>c \<in> set loc. is_word_char c \<or> c = CHR ''-'' \<or> c = CHR ''.''"
    and dm: "dm \<noteq> []" "\<forall>c \<in> set dm. is_word_char c \<or> c = CHR ''-''"
    and tld: "2 \<le> length tld" "length tld \<le> 4" "\<forall>c \<in> set tld. is_ascii_letter c"
    and cl: "cl = [] \<or> cl = '']''"
  shows "matches email_regex (loc @ CHR ''@'' # dm @ CHR ''.'' # tld @ cl) 0
           (length (loc @ CHR ''@'' # dm @ CHR ''.'' # tld @ cl))"
proof -
  let ?s = "loc @ CHR ''@'' # dm @ CHR ''.'' # tld @ cl"
  let ?p4 = "Suc (Suc (length loc) + length dm)"
  have m1: "matches (Rep (Cls False [CWord, CChar CHR ''-'', CChar CHR ''.'']) 1 None) ?s 0 (length loc)"
    using matches_Rep_Cls_segment [of ?s "[]" loc "CHR ''@'' # dm @ CHR ''.'' # tld @ cl"
        False "[CWord, CChar CHR ''-'', CChar CHR ''.'']" 1 None] loc
    by (auto simp: cls_match_def rep_bounds_def Suc_le_eq)
  have m2: "matches (lit CHR ''@'') ?s (length loc) (Suc (length loc))" by (rule matches_lit_at) simp
  have m3: "matches (Rep (Grp (Seq (Rep (Cls False [CWord, CChar CHR ''-'']) 1 None) (lit CHR ''.''))) 1 None)
              ?s (Suc (length loc)) ?p4"
    using matches_label_dot [of ?s "loc @ [CHR ''@'']" dm "tld @ cl"] dm by simp
  have m4: "matches (Rep (Cls False [CRange CHR ''a'' CHR ''z'', CRange CHR ''A'' CHR ''Z'']) 2 (Some 4))
              ?s ?p4 (length (loc @ CHR ''@'' # dm @ CHR ''.'' # tld))"
    using matches_Rep_Cls_segment [of ?s "loc @ CHR ''@'' # dm @ [CHR ''.'']" tld cl
        False "[CRange CHR ''a'' CHR ''z'', CRange CHR ''A'' CHR ''Z'']" 2 "Some 4"] tld
    by (auto simp: cls_letter rep_bounds_def add.assoc)
  have m5: "matches (Rep (lit CHR '']'') 0 (Some 1)) ?s (length (loc @ CHR ''@'' # dm @ CHR ''.'' # tld))
              (length ?s)"
    by (rule matches_opt_bracket [OF _ cl]) simp
  note m = m_seq [OF m_grp [OF m1] m_seq [OF m2 m_seq [OF m_grp [OF m_alt2 [OF m_grp [OF m3]]]
    m_seq [OF m_grp [OF m_alt1 [OF m4]] m_seq [OF m_grp [OF m5] m_eol]]]]]
  show ?thesis unfolding email_regex_def seqs.simps by (rule m)
qed

text \<open>
  C5: Every address made of a non-empty local part of word characters, hyphens
  and dots, an \<open>@\<close>, a non-empty label of word characters and hyphens, a
  dot and a top-level domain of two to four ASCII letters passes the email
  check.
\<close>

theorem email_ok_simple:
  assumes loc: "loc \<noteq> []" "\<forall>c \<in> set loc. is_word_char c \<or> c = CHR ''-'' \<or> c = CHR ''.''"
    and dm: "dm \<noteq> []" "\<forall>c \<in> set dm. is_word_char c \<or> c = CHR ''-''"
    and tld: "2 \<le> length tld" "length tld \<le> 4" "\<forall>c \<in> set tld. is_ascii_letter c"
  shows "email_ok (loc @ CHR ''@'' # dm @ CHR ''.'' # tld)"
  using email_simple_matches [OF loc dm tld, of "[]"]
  unfolding email_ok_def re_test_iff by auto

theorem email_ok_simple_witness:
  "email_ok ''john.doe@mail.com''"
  using email_ok_simple [of "''john.doe''" "''mail''" "''com''"]
  by (simp add: is_word_char_def is_ascii_letter_def is_digit_def)

lemma dot_fields_ne [simp]: "dot_fields w \<noteq> []"
  by (induction w) (simp_all add: Let_def)

lemma dot_fields_nodot:
  "CHR ''.'' \<notin> set l \<Longrightarrow> dot_fields (l @ r) = (l @ hd (dot_fields r)) # tl (dot_fields r)"
  by (induction l) (auto simp: Let_def)

lemma dot_fields_dot:
  "CHR ''.'' \<notin> set l \<Longrightarrow> dot_fields (l @ CHR ''.'' # r) = l # dot_fields r"
  using dot_fields_nodot [of l "CHR ''.'' # r"] by (simp add: Let_def)

lemma dot_fields_single: "CHR ''.'' \<notin> set l \<Longrightarrow> dot_fields l = [l]"
  using dot_fields_nodot [of l "[]"] by simp

lemma dot_fields_split:
  assumes "2 \<le> length (dot_fields w)"
  obtains l r where "w = l @ CHR ''.'' # r" "CHR ''.'' \<notin> set l" "dot_fields w = l # dot_fields r"
proof -
  have "CHR ''.'' \<in> set w"
    using assms dot_fields_single [of w] by (cases "CHR ''.'' \<in> set w") auto
  then obtain l r where "w = l @ CHR ''.'' # r" "CHR ''.'' \<notin> set l"
    by (auto dest: split_list_first)
  with that show ?thesis using dot_fields_dot by blast
qed

lemma dot_fields_Nil: "dot_fields r = [[]] \<Longrightarrow> r = []"
proof (cases "CHR ''.'' \<in> set r")
  case True
  then obtain l r' where "r = l @ CHR ''.'' # r'" "CHR ''.'' \<notin> set l"
    by (auto dest: split_list_first)
  then have "dot_fields r = l # dot_fields r'" by (simp add: dot_fields_dot)
  moreover assume "dot_fields r = [[]]"
  ultimately show ?thesis using dot_fields_ne [of r'] by simp
next
  case False
  moreover assume "dot_fields r = [[]]"
  ultimately show ?thesis by (simp add: dot_fields_single)
qed

lemma label_no_dot: "list_all label_char l \<Longrightarrow> CHR ''.'' \<notin> set l"
  by (auto simp: list_all_iff label_char_def is_word_char_def is_ascii_letter_def is_digit_def)

lemma octet_no_dot: "octet l \<Longrightarrow> CHR ''.'' \<notin> set l"
  by (auto simp: octet_def list_all_iff is_digit_def)

lemma labels_dom_unfold:
  "labels_dom d \<longleftrightarrow>
     (\<exists>l r. d = l @ CHR ''.'' # r \<and> l \<noteq> [] \<and> list_all label_char l \<and> (r = [] \<or> labels_dom r))"
proof
  assume ld: "labels_dom d"
  then have "2 \<le> length (dot_fields d)" by (simp add: labels_dom_def Let_def)
  then obtain l r where d: "d = l @ CHR ''.'' # r" "dot_fields d = l # dot_fields r"
    by (rule dot_fields_split)
  have bl: "butlast (dot_fields d) = l # butlast (dot_fields r)"
    using d(2) by simp
  from ld have l: "l \<noteq> [] \<and> list_all label_char l" and
    rest: "last (dot_fields r) = [] \<and> list_all (\<lambda>f. f \<noteq> [] \<and> list_all label_char f) (butlast (dot_fields r))"
    by (simp_all add: labels_dom_def Let_def bl d(2))
  have "r = [] \<or> labels_dom r"
  proof (cases "length (dot_fields r) < 2")
    case True
    then have "dot_fields r = [[]]" using rest dot_fields_ne [of r]
      by (cases "dot_fields r") auto
    then show ?thesis by (simp add: dot_fields_Nil)
  next
    case False
    then show ?thesis using rest by (simp add: labels_dom_def Let_def)
  qed
  with d(1) l show "\<exists>l r. d = l @ CHR ''.'' # r \<and> l \<noteq> [] \<and> list_all label_char l \<and> (r = [] \<or> labels_dom r)"
    by blast
next
  assume "\<exists>l r. d = l @ CHR ''.'' # r \<and> l \<noteq> [] \<and> list_all label_char l \<and> (r = [] \<or> labels_dom r)"
  then obtain l r where d: "d = l @ CHR ''.'' # r" "l \<noteq> []" "list_all label_char l" "r = [] \<or> labels_dom r"
    by blast
  have fs: "dot_fields d = l # dot_fields r" using d(1,3) label_no_dot dot_fields_dot by blast
  from d(4) show "labels_dom d"
  proof
    assume "r = []"
    then show ?thesis using fs d(2,3) by (simp add: labels_dom_def)
  next
    assume "labels_dom r"
    then show ?thesis using fs d(2,3)
      by (cases "dot_fields r") (auto simp: labels_dom_def Let_def)
  qed
qed


lemma ip_dom_iff:
  "ip_dom d \<longleftrightarrow>
     (\<exists>a b c. d = CHR ''['' # a @ CHR ''.'' # b @ CHR ''.'' # c @ ''.'' \<and> octet a \<and> octet b \<and> octet c)"
proof
  assume ip: "ip_dom d"
  then obtain r where d: "d = CHR ''['' # r" and fs: "length (dot_fields r) = 4" "last (dot_fields r) = []"
    "list_all octet (butlast (dot_fields r))"
    by (cases d) (auto simp: ip_dom_def Let_def)
  have "2 \<le> length (dot_fields r)" using fs(1) by simp
  then obtain a r1 where r: "r = a @ CHR ''.'' # r1" "dot_fields r = a # dot_fields r1"
    by (rule dot_fields_split)
  have "2 \<le> length (dot_fields r1)" using fs(1) r(2) by simp
  then obtain b r2 where r1: "r1 = b @ CHR ''.'' # r2" "dot_fields r1 = b # dot_fields r2"
    by (rule dot_fields_split)
  have "2 \<le> length (dot_fields r2)" using fs(1) r(2) r1(2) by simp
  then obtain c r3 where r2: "r2 = c @ CHR ''.'' # r3" "dot_fields r2 = c # dot_fields r3"
    by (rule dot_fields_split)
  have "length (dot_fields r3) = 1" using fs(1) r(2) r1(2) r2(2) by simp
  then have "dot_fields r3 = [[]]" using fs(2) r(2) r1(2) r2(2) by (cases "dot_fields r3") auto
  then have "r3 = []" by (rule dot_fields_Nil)
  with d r r1 r2 fs(3) \<open>dot_fields r3 = [[]]\<close>
  show "\<exists>a b c. d = CHR ''['' # a @ CHR ''.'' # b @ CHR ''.'' # c @ ''.'' \<and> octet a \<and> octet b \<and> octet c"
    by auto
next
  assume "\<exists>a b c. d = CHR ''['' # a @ CHR ''.'' # b @ CHR ''.'' # c @ ''.'' \<and> octet a \<and> octet b \<and> octet c"
  then obtain a b c where d: "d = CHR ''['' # a @ CHR ''.'' # b @ CHR ''.'' # c @ ''.''"
    and o: "octet a" "octet b" "octet c" by blast
  have "dot_fields (a @ CHR ''.'' # b @ CHR ''.'' # c @ ''.'') = [a, b, c, []]"
    using o by (simp add: dot_fields_dot octet_no_dot)
  with d o show "ip_dom d" by (simp add: ip_dom_def)
qed

section \<open>The language of each piece of the email pattern\<close>

lemma full_match_lit: "full_match (lit c) w \<longleftrightarrow> w = [c]"
  by (auto simp: lit_def full_match_Cls cls_match_def)

lemma local_re_lit [simp]: "local_re (lit c)"
  by (simp add: lit_def)

lemma cls_local_fun: "cls_match False [CWord, CChar CHR ''-'', CChar CHR ''.''] = local_char"
  and cls_label_fun: "cls_match False [CWord, CChar CHR ''-''] = label_char"
  by (auto simp: fun_eq_iff cls_match_def local_char_def label_char_def)

lemma cls_letter_fun: "cls_match False [CRange CHR ''a'' CHR ''z'', CRange CHR ''A'' CHR ''Z''] = is_ascii_letter"
  and cls_digit_fun: "cls_match False [CRange CHR ''0'' CHR ''9''] = is_digit"
  by (simp_all add: fun_eq_iff cls_letter cls_digit)

lemma cls_char_fun: "cls_match False [CChar c] = (\<lambda>x. x = c)"
  by (auto simp: fun_eq_iff cls_match_def)

lemmas cls_fun = cls_local_fun cls_label_fun cls_letter_fun cls_digit_fun cls_char_fun

lemma local_re_label:
  "local_re (Grp (Seq (Rep (Cls False [CWord, CChar CHR ''-'']) 1 None) (lit CHR ''.'')))"
  by simp

lemmas email_lang_simps = full_match_Seq_append full_match_Rep_Cls full_match_lit cls_fun
  rep_bounds_def

lemma full_match_label:
  "full_match (Grp (Seq (Rep (Cls False [CWord, CChar CHR ''-'']) 1 None) (lit CHR ''.''))) u \<longleftrightarrow>
   (\<exists>l. u = l @ ''.'' \<and> l \<noteq> [] \<and> list_all label_char l)"
  by (auto simp: email_lang_simps Suc_le_eq)


lemma seq_intro:
  "full_match r1 a \<Longrightarrow> full_match r2 b \<Longrightarrow> local_re r1 \<Longrightarrow> local_re r2 \<Longrightarrow> full_match (Seq r1 r2) (a @ b)"
  using full_match_Seq_append by blast

lemma label_split:
  "(\<exists>a b. d = a @ b \<and> full_match (Grp (Seq (Rep (Cls False [CWord, CChar CHR ''-'']) 1 None) (lit CHR ''.''))) a \<and> P b)
   \<longleftrightarrow> (\<exists>l b. d = l @ CHR ''.'' # b \<and> l \<noteq> [] \<and> list_all label_char l \<and> P b)"
proof
  assume "\<exists>a b. d = a @ b \<and> full_match (Grp (Seq (Rep (Cls False [CWord, CChar CHR ''-'']) 1 None) (lit CHR ''.''))) a \<and> P b"
  then obtain a b l where "d = a @ b" "P b" "a = l @ ''.''" "l \<noteq> []" "list_all label_char l"
    unfolding full_match_label by blast
  then show "\<exists>l b. d = l @ CHR ''.'' # b \<and> l \<noteq> [] \<and> list_all label_char l \<and> P b" by auto
next
  assume "\<exists>l b. d = l @ CHR ''.'' # b \<and> l \<noteq> [] \<and> list_all label_char l \<and> P b"
  then obtain l b where "d = (l @ ''.'') @ b" "l \<noteq> []" "list_all label_char l" "P b" by auto
  then show "\<exists>a b. d = a @ b \<and> full_match (Grp (Seq (Rep (Cls False [CWord, CChar CHR ''-'']) 1 None) (lit CHR ''.''))) a \<and> P b"
    unfolding full_match_label by blast
qed

lemma full_match_labels_star:
  "full_match (Rep (Grp (Seq (Rep (Cls False [CWord, CChar CHR ''-'']) 1 None) (lit CHR ''.''))) 0 None) d \<longleftrightarrow>
   d = [] \<or> labels_dom d"
proof (induction "length d" arbitrary: d rule: less_induct)
  case less
  let ?L = "Grp (Seq (Rep (Cls False [CWord, CChar CHR ''-'']) 1 None) (lit CHR ''.''))"
  have ih: "full_match (Rep ?L 0 None) b \<longleftrightarrow> b = [] \<or> labels_dom b" if "d = l @ CHR ''.'' # b" for l b
    using less that by simp
  have ne: "full_match ?L a \<Longrightarrow> a \<noteq> []" for a unfolding full_match_label by auto
  have "full_match (Rep ?L 0 None) d \<longleftrightarrow>
     d = [] \<or> (\<exists>a b. d = a @ b \<and> a \<noteq> [] \<and> full_match ?L a \<and> full_match (Rep ?L 0 None) b)"
    by (rule full_match_star_append) simp
  also have "\<dots> \<longleftrightarrow> d = [] \<or> (\<exists>a b. d = a @ b \<and> full_match ?L a \<and> full_match (Rep ?L 0 None) b)"
    using ne by blast
  also have "\<dots> \<longleftrightarrow>
     d = [] \<or> (\<exists>l b. d = l @ CHR ''.'' # b \<and> l \<noteq> [] \<and> list_all label_char l \<and> full_match (Rep ?L 0 None) b)"
    by (simp only: label_split)
  also have "\<dots> \<longleftrightarrow>
     d = [] \<or> (\<exists>l b. d = l @ CHR ''.'' # b \<and> l \<noteq> [] \<and> list_all label_char l \<and> (b = [] \<or> labels_dom b))"
    using ih by blast
  also have "\<dots> \<longleftrightarrow> d = [] \<or> labels_dom d"
    using labels_dom_unfold [of d] by blast
  finally show ?case .
qed

lemma full_match_labels:
  "full_match (Rep (Grp (Seq (Rep (Cls False [CWord, CChar CHR ''-'']) 1 None) (lit CHR ''.''))) 1 None) d \<longleftrightarrow>
   labels_dom d"
  unfolding full_match_plus_append [OF local_re_label] label_split full_match_labels_star
    labels_dom_unfold [of d] ..

lemma full_match_ip:
  "full_match (Grp (seqs [lit CHR ''['', Rep (Cls False [CRange CHR ''0'' CHR ''9'']) 1 (Some 3),
                    lit CHR ''.'', Rep (Cls False [CRange CHR ''0'' CHR ''9'']) 1 (Some 3),
                    lit CHR ''.'', Rep (Cls False [CRange CHR ''0'' CHR ''9'']) 1 (Some 3),
                    lit CHR ''.''])) d \<longleftrightarrow> ip_dom d"
  (is "full_match (Grp (seqs [?o, ?D, ?p, _, _, _, _])) d \<longleftrightarrow> _")
proof
  assume "full_match (Grp (seqs [?o, ?D, ?p, ?D, ?p, ?D, ?p])) d"
  then show "ip_dom d" unfolding ip_dom_iff by (auto simp: email_lang_simps octet_def Suc_le_eq)
next
  assume "ip_dom d"
  then obtain a b c where d: "d = [CHR ''['']  @ a @ [CHR ''.''] @ b @ [CHR ''.''] @ c @ [CHR ''.'']"
    and o: "octet a" "octet b" "octet c" unfolding ip_dom_iff by auto
  have D: "full_match ?D x" if "octet x" for x
    using that by (simp add: email_lang_simps octet_def Suc_le_eq)
  have "full_match (seqs [?o, ?D, ?p, ?D, ?p, ?D, ?p])
          ([CHR ''['']  @ a @ [CHR ''.''] @ b @ [CHR ''.''] @ c @ [CHR ''.''])"
    unfolding seqs.simps
    by (intro seq_intro D o) (simp_all add: full_match_lit)
  then show "full_match (Grp (seqs [?o, ?D, ?p, ?D, ?p, ?D, ?p])) d" using d by simp
qed

lemma full_match_tld:
  "full_match (Grp (Alt (Rep (Cls False [CRange CHR ''a'' CHR ''z'', CRange CHR ''A'' CHR ''Z'']) 2 (Some 4))
               (Rep (Cls False [CRange CHR ''0'' CHR ''9'']) 1 (Some 3)))) t \<longleftrightarrow> tld_ok t"
  by (auto simp: email_lang_simps tld_ok_def Suc_le_eq)

lemma full_match_bracket:
  "full_match (Grp (Rep (lit CHR '']'') 0 (Some 1))) t \<longleftrightarrow> t = [] \<or> t = '']''"
  unfolding lit_def by (cases t) (auto simp: email_lang_simps)

lemma tld_tail_append: "tld_tail t \<longleftrightarrow> (\<exists>e f. t = e @ f \<and> tld_ok e \<and> (f = [] \<or> f = '']''))"
  by (simp only: tld_tail_def ex_append_split)

lemma domain_tail_append:
  "domain_tail p \<longleftrightarrow> (\<exists>c e. p = c @ e \<and> (ip_dom c \<or> labels_dom c) \<and> tld_tail e)"
  by (simp only: domain_tail_def ex_append_split)

lemma email_address_append:
  "email_address w \<longleftrightarrow>
     (\<exists>a r. w = a @ CHR ''@'' # r \<and> a \<noteq> [] \<and> list_all local_char a \<and> domain_tail r)"
proof
  assume "email_address w"
  then obtain i where i: "i < length w" "0 < i" "list_all local_char (take i w)" "w ! i = CHR ''@''"
    "domain_tail (drop (Suc i) w)" unfolding email_address_def by blast
  have "w = take i w @ w ! i # drop (Suc i) w" using i(1) by (rule id_take_nth_drop)
  with i have "w = take i w @ CHR ''@'' # drop (Suc i) w" by simp
  moreover have "take i w \<noteq> []" using i(1,2) by (cases w) auto
  ultimately show "\<exists>a r. w = a @ CHR ''@'' # r \<and> a \<noteq> [] \<and> list_all local_char a \<and> domain_tail r"
    using i by blast
next
  assume "\<exists>a r. w = a @ CHR ''@'' # r \<and> a \<noteq> [] \<and> list_all local_char a \<and> domain_tail r"
  then obtain a r where "w = a @ CHR ''@'' # r" "a \<noteq> []" "list_all local_char a" "domain_tail r" by blast
  then show "email_address w" unfolding email_address_def
    by (intro exI [of _ "length a"]) simp
qed


lemma matches_seqs_Eol:
  "rs \<noteq> [] \<Longrightarrow> matches (seqs (rs @ [Eol])) s i j \<longleftrightarrow> j = length s \<and> matches (seqs rs) s i j"
proof (induction rs arbitrary: i)
  case (Cons r rs)
  show ?case
  proof (cases rs)
    case Nil
    then show ?thesis by auto
  next
    case (Cons r' rs')
    then show ?thesis using Cons.IH by auto
  qed
qed simp

lemma full_match_lit_Seq:
  "local_re r \<Longrightarrow> full_match (Seq (lit c) r) x \<longleftrightarrow> (\<exists>y. x = c # y \<and> full_match r y)"
  by (auto simp: full_match_Seq_append full_match_lit)

text \<open>The pattern without its final \<open>$\<close> denotes exactly the addresses.\<close>

lemma full_match_email_body:
  "full_match (seqs
     [Grp (Rep (Cls False [CWord, CChar CHR ''-'', CChar CHR ''.'']) 1 None),
      lit CHR ''@'',
      Grp (Alt
        (Grp (seqs [lit CHR ''['', Rep (Cls False [CRange CHR ''0'' CHR ''9'']) 1 (Some 3),
                    lit CHR ''.'', Rep (Cls False [CRange CHR ''0'' CHR ''9'']) 1 (Some 3),
                    lit CHR ''.'', Rep (Cls False [CRange CHR ''0'' CHR ''9'']) 1 (Some 3),
                    lit CHR ''.'']))
        (Grp (Rep (Grp (Seq (Rep (Cls False [CWord, CChar CHR ''-'']) 1 None) (lit CHR ''.''))) 1 None))),
      Grp (Alt (Rep (Cls False [CRange CHR ''a'' CHR ''z'', CRange CHR ''A'' CHR ''Z'']) 2 (Some 4))
               (Rep (Cls False [CRange CHR ''0'' CHR ''9'']) 1 (Some 3))),
      Grp (Rep (lit CHR '']'') 0 (Some 1))]) w \<longleftrightarrow> email_address w"
  (is "full_match (seqs [?G1, ?at, Grp (Alt (Grp ?IP) (Grp ?LS)), ?G3, ?G4]) w \<longleftrightarrow> _")
proof -
  let ?G2 = "Grp (Alt (Grp ?IP) (Grp ?LS))"
  have g1: "full_match ?G1 a \<longleftrightarrow> a \<noteq> [] \<and> list_all local_char a" for a
    by (simp add: email_lang_simps Suc_le_eq)
  have g2: "full_match ?G2 c \<longleftrightarrow> ip_dom c \<or> labels_dom c" for c
    using full_match_ip [of c] full_match_labels [of c] by simp
  have l3: "local_re ?G3" and l4: "local_re ?G4" and l2: "local_re ?G2" and l34: "local_re (Seq ?G3 ?G4)"
    by simp_all
  have g34: "full_match (Seq ?G3 ?G4) e \<longleftrightarrow> tld_tail e" for e
    unfolding tld_tail_append full_match_Seq_append [OF l3 l4] full_match_tld full_match_bracket ..
  have gR: "full_match (Seq ?G2 (Seq ?G3 ?G4)) y \<longleftrightarrow> domain_tail y" for y
    unfolding domain_tail_append full_match_Seq_append [OF l2 l34] g2 g34 ..
  have lR2: "local_re (Seq ?G2 (Seq ?G3 ?G4))" by simp
  have l1: "local_re ?G1" and lR: "local_re (Seq ?at (Seq ?G2 (Seq ?G3 ?G4)))" by simp_all
  have gA: "full_match (Seq ?at (Seq ?G2 (Seq ?G3 ?G4))) x \<longleftrightarrow> (\<exists>y. x = CHR ''@'' # y \<and> domain_tail y)" for x
    unfolding full_match_lit_Seq [OF lR2] gR ..
  have sq: "seqs [?G1, ?at, ?G2, ?G3, ?G4] = Seq ?G1 (Seq ?at (Seq ?G2 (Seq ?G3 ?G4)))" by simp
  show ?thesis
    unfolding sq full_match_Seq_append [OF l1 lR] g1 gA email_address_append
    by auto
qed

lemma matches_email_regex:
  assumes "k \<le> length v"
  shows "(\<exists>j. matches email_regex v k j) \<longleftrightarrow> email_address (drop k v)"
proof -
  have e: "email_regex = seqs ([Grp (Rep (Cls False [CWord, CChar CHR ''-'', CChar CHR ''.'']) 1 None),
      lit CHR ''@'',
      Grp (Alt
        (Grp (seqs [lit CHR ''['', Rep (Cls False [CRange CHR ''0'' CHR ''9'']) 1 (Some 3),
                    lit CHR ''.'', Rep (Cls False [CRange CHR ''0'' CHR ''9'']) 1 (Some 3),
                    lit CHR ''.'', Rep (Cls False [CRange CHR ''0'' CHR ''9'']) 1 (Some 3),
                    lit CHR ''.'']))
        (Grp (Rep (Grp (Seq (Rep (Cls False [CWord, CChar CHR ''-'']) 1 None) (lit CHR ''.''))) 1 None))),
      Grp (Alt (Rep (Cls False [CRange CHR ''a'' CHR ''z'', CRange CHR ''A'' CHR ''Z'']) 2 (Some 4))
               (Rep (Cls False [CRange CHR ''0'' CHR ''9'']) 1 (Some 3))),
      Grp (Rep (lit CHR '']'') 0 (Some 1))] @ [Eol])"
    (is "_ = seqs (?body @ [Eol])")
    by (simp add: email_regex_def)
  have ne: "?body \<noteq> []" by simp
  have "(\<exists>j. matches email_regex v k j) \<longleftrightarrow> matches (seqs ?body) v k (length v)"
    unfolding e matches_seqs_Eol [OF ne] by blast
  also have "\<dots> \<longleftrightarrow> full_match (seqs ?body) (drop k v)"
    using matches_seg [of "seqs ?body" k "length v" v] assms by simp
  also have "\<dots> \<longleftrightarrow> email_address (drop k v)"
    by (rule full_match_email_body)
  finally show ?thesis .
qed

text \<open>
  C3: The email check implements its abstract description: a string passes
  \<open>emailCheckRegex.test\<close> exactly when some suffix of it is an address as
  \<open>email_spec\<close> describes it (the pattern has no \<open>^\<close>, and its \<open>$\<close> ties the
  address to the end of the string).
\<close>

theorem email_check_refines: "email_ok v \<longleftrightarrow> email_spec v"
  unfolding email_ok_def re_test_iff email_spec_def using matches_email_regex by blast

theorem email_check_refines_witness:
  "email_ok ''mail: a@b.cc]'' \<and> email_spec ''mail: a@b.cc]'' \<and>
   \<not> email_ok ''me@mail.museum'' \<and> \<not> email_spec ''me@mail.museum''"
proof -
  have a: "email_ok ''mail: a@b.cc]''" and b: "\<not> email_ok ''me@mail.museum''" by code_simp+
  show ?thesis using email_check_refines [of "''mail: a@b.cc]''"] email_check_refines [of "''me@mail.museum''"] a b
    by blast
qed

text \<open>
  C6: Every string the email check accepts contains an \<open>@\<close> and a \<open>.\<close>, the
  two characters the page's validation message asks for.
\<close>

theorem email_ok_has_at_and_dot:
  "email_ok v \<Longrightarrow> CHR ''@'' \<in> set v \<and> CHR ''.'' \<in> set v"
  using email_ok_has_char needs_email_regex by blast

theorem email_ok_has_at_and_dot_witness:
  "email_ok ''x@y.zz'' \<and> CHR ''@'' \<in> set ''x@y.zz'' \<and> CHR ''.'' \<in> set ''x@y.zz''"
proof -
  have ok: "email_ok ''x@y.zz''" by code_simp
  show ?thesis using email_ok_has_at_and_dot [OF ok] ok by simp
qed

text \<open>
  C7: The email pattern has no \<open>^\<close>: whatever text precedes an accepted
  string, the whole is accepted too.
\<close>

theorem email_ok_any_prefix:
  "email_ok v \<Longrightarrow> email_ok (p @ v)"
  unfolding email_ok_def using re_test_prefix no_bol_email_regex by blast

theorem email_ok_any_prefix_witness:
  "email_ok ''x@y.zz'' \<and> email_ok (''not an address: '' @ ''x@y.zz'')"
proof -
  have ok: "email_ok ''x@y.zz''" by code_simp
  show ?thesis using email_ok_any_prefix [OF ok, of "''not an address: ''"] ok by simp
qed

text \<open>
  C12: The closing bracket that the pattern allows after an IP-address
  domain is accepted after every ordinary domain too: every address of the
  form of C5 followed by \<open>]\<close> passes the email check.
\<close>

theorem email_ok_bracket_suffix:
  assumes loc: "loc \<noteq> []" "\<forall>c \<in> set loc. is_word_char c \<or> c = CHR ''-'' \<or> c = CHR ''.''"
    and dm: "dm \<noteq> []" "\<forall>c \<in> set dm. is_word_char c \<or> c = CHR ''-''"
    and tld: "2 \<le> length tld" "length tld \<le> 4" "\<forall>c \<in> set tld. is_ascii_letter c"
  shows "email_ok (loc @ CHR ''@'' # dm @ CHR ''.'' # tld @ '']'')"
  using email_simple_matches [OF loc dm tld, of "'']''"]
  unfolding email_ok_def re_test_iff by blast

theorem email_ok_bracket_suffix_witness:
  "email_ok ''john.doe@mail.com]''"
  using email_ok_bracket_suffix [of "''john.doe''" "''mail''" "''com''"]
  by (simp add: is_word_char_def is_ascii_letter_def is_digit_def)

text \<open>
  C13: The length bounds of \<open>.{8,25}\<close> are exact: a string of length
  \<open>n\<close> passes the password check for some choice of characters exactly when
  \<open>8 \<le> n \<le> 25\<close>.
\<close>

theorem password_length_bounds:
  "(\<exists>v. length v = n \<and> password_ok v) \<longleftrightarrow> 8 \<le> n \<and> n \<le> 25"
proof
  assume "\<exists>v. length v = n \<and> password_ok v"
  then show "8 \<le> n \<and> n \<le> 25" unfolding password_ok_positions by auto
next
  assume n: "8 \<le> n \<and> n \<le> 25"
  let ?v = "''a1!'' @ replicate (n - 3) CHR ''a''"
  have len: "length ?v = n" using n by simp arith
  have "list_all (\<lambda>c. \<not> line_terminator c) ?v" by (simp add: line_terminator_def list_all_iff)
  then have nl: "\<forall>k < length ?v. \<not> line_terminator (?v ! k)" by (simp only: list_all_length)
  have "password_ok ?v" unfolding password_ok_positions
  proof (intro conjI)
    show "\<exists>k < length ?v. (\<forall>m < k. \<not> line_terminator (?v ! m)) \<and> is_ascii_letter (?v ! k)"
      by (rule exI [of _ 0]) (simp add: is_ascii_letter_def)
    show "\<exists>k < length ?v. (\<forall>m < k. \<not> line_terminator (?v ! m)) \<and> ?v ! k \<in> set password_special"
      using nl len n by (intro exI [of _ 2]) (simp add: password_special_def line_terminator_def)
    show "\<exists>k < length ?v. (\<forall>m < k. \<not> line_terminator (?v ! m)) \<and> is_digit (?v ! k)"
      using nl len n by (intro exI [of _ 1]) (simp add: is_digit_def line_terminator_def)
  qed (use len n nl in simp_all)
  then show "\<exists>v. length v = n \<and> password_ok v" using len by blast
qed

text \<open>
  Top-level domains longer than four letters are rejected, and \<open>&\<close> is not
  a special character of the password rule.
\<close>

lemma email_rejects_long_tld: "\<not> email_ok ''me@mail.museum''"
  by code_simp

lemma password_rejects_ampersand: "\<not> password_ok ''abcd123&''"
  by code_simp

end
