(* ===== verification/SignIn.thy ===== *)
theory SignIn
  imports Validation
begin

text \<open>
  The sign-in page \<open>LoginPage\<close> of \<open>src/pages/sign-in/index.tsx\<close>. Its state
  is the page's \<open>useState\<close> hooks, the auth context's \<open>isSigned\<close>, the
  Firebase calls it has made and the router calls. Every handler of the page is
  one function on that state; \<open>signin_step\<close> dispatches a user or environment
  event to it.

  \<open>getUser\<close> and \<open>onSubmitHandler\<close> are memoised with \<open>useCallback(..., [])\<close>:
  React keeps the closure of the first render for the life of the page, so
  \<open>getUser\<close> reads \<open>signUp\<close>, \<open>userEmail\<close> and \<open>userPassword\<close> from that
  render. The model keeps this scope as the field \<open>getUser_scope\<close>, set at
  mount and never written; the setters the closure calls act on the current
  state, as React's setters do.

  The Firebase calls are asynchronous: a call \<open>getUser\<close> awaits joins
  \<open>in_flight\<close>, and the event \<open>Settle k ok\<close> settles the \<open>k\<close>-th of them,
  fulfilled or rejected, in any order. A redirect sign-in leaves the page, and
  its outcome is a parameter of the click.
\<close>

section \<open>State\<close>

datatype provider = Google | Github

datatype auth_call =
    CreateUser string string   \<comment> \<open>\<open>createUserWithEmailAndPassword(isAuth, email, password)\<close>\<close>
  | SignInEmail string string  \<comment> \<open>\<open>signInWithEmailAndPassword(isAuth, email, password)\<close>\<close>
  | SignInRedirect provider    \<comment> \<open>\<open>signInWithRedirect(isAuth, provider)\<close>\<close>

record form_scope =
  scope_signUp :: bool
  scope_email :: string
  scope_password :: string

record signin_page =
  signUp :: bool
  isError :: bool
  userEmail :: string
  userPassword :: string
  isEmail :: bool
  isPassword :: bool
  isLoading :: bool
  isSigned :: bool
  getUser_scope :: form_scope
  in_flight :: "auth_call list"
  calls :: "auth_call list"
  router :: "nav list"

definition render_scope :: "signin_page \<Rightarrow> form_scope" where
  "render_scope p = \<lparr>scope_signUp = signUp p, scope_email = userEmail p, scope_password = userPassword p\<rparr>"

text \<open>
  The first render with the initial hook values, after the mount effects: the
  focus effect changes no state; the \<open>isSigned\<close> effect replaces the route
  when the user is already signed in.
\<close>

definition signin_fresh :: "bool \<Rightarrow> signin_page" where
  "signin_fresh signed =
     \<lparr>signUp = False, isError = False, userEmail = [], userPassword = [],
      isEmail = False, isPassword = False, isLoading = False, isSigned = signed,
      getUser_scope = \<lparr>scope_signUp = False, scope_email = [], scope_password = []\<rparr>,
      in_flight = [], calls = [], router = []\<rparr>"

definition signin_mount :: "bool \<Rightarrow> signin_page" where
  "signin_mount signed =
     (signin_fresh signed)\<lparr>router := (if signed then [Replace ''/''] else [])\<rparr>"

definition isDisabled :: "signin_page \<Rightarrow> bool" where
  "isDisabled p \<longleftrightarrow> \<not> (isEmail p \<and> isPassword p)"

section \<open>Handlers\<close>

definition onEmailChangeHandler :: "string \<Rightarrow> signin_page \<Rightarrow> signin_page" where
  "onEmailChangeHandler v p = p\<lparr>userEmail := v, isEmail := email_ok v\<rparr>"

definition onPasswordChangeHandler :: "string \<Rightarrow> signin_page \<Rightarrow> signin_page" where
  "onPasswordChangeHandler v p = p\<lparr>userPassword := v, isPassword := password_ok v\<rparr>"

definition onSignUpToggleHandler :: "signin_page \<Rightarrow> signin_page" where
  "onSignUpToggleHandler p = p\<lparr>signUp := \<not> signUp p\<rparr>"

text \<open>
  The synchronous part of \<open>getUser\<close>: set the loading flag and start the
  Firebase call chosen by the closure's \<open>signUp\<close>, with the closure's email and
  password.
\<close>

definition getUser_call :: "form_scope \<Rightarrow> auth_call" where
  "getUser_call sc =
     (if scope_signUp sc then CreateUser (scope_email sc) (scope_password sc)
      else SignInEmail (scope_email sc) (scope_password sc))"

definition getUser :: "signin_page \<Rightarrow> signin_page" where
  "getUser p =
     (let c = getUser_call (getUser_scope p)
      in p\<lparr>isLoading := True, in_flight := in_flight p @ [c], calls := calls p @ [c]\<rparr>)"

text \<open>
  The rest of \<open>getUser\<close>, when its awaited call settles: a rejection sets the
  error flag and returns (the returned \<open><Error>\<close> element is discarded and the
  loading flag stays set); a fulfilment clears the loading flag.
\<close>

definition getUser_settle :: "nat \<Rightarrow> bool \<Rightarrow> signin_page \<Rightarrow> signin_page" where
  "getUser_settle k ok p =
     (if length (in_flight p) \<le> k then p
      else let p' = p\<lparr>in_flight := drop_nth k (in_flight p)\<rparr>
           in if ok then p'\<lparr>isLoading := False\<rparr> else p'\<lparr>isError := True\<rparr>)"

definition onSubmitHandler :: "signin_page \<Rightarrow> signin_page" where
  "onSubmitHandler p = (getUser p)\<lparr>userEmail := [], userPassword := []\<rparr>"

text \<open>
  \<open>onSocialSignInHandler\<close> on the button named \<open>name\<close>; \<open>ok\<close> is whether
  \<open>signInWithRedirect\<close> resolves. The Google branch returns inside the
  \<open>try\<close>, and every rejection returns from the \<open>catch\<close>: only a resolved
  GitHub redirect or an unknown button name reaches \<open>setIsLoading(false)\<close>.
\<close>

definition onSocialSignInHandler :: "string \<Rightarrow> bool \<Rightarrow> signin_page \<Rightarrow> signin_page" where
  "onSocialSignInHandler name ok p =
     (let p1 = p\<lparr>isLoading := True\<rparr>
      in if name = ''google-signin'' then p1\<lparr>calls := calls p @ [SignInRedirect Google]\<rparr>
         else if name = ''github-signin'' then
           (let p2 = p1\<lparr>calls := calls p @ [SignInRedirect Github]\<rparr>
            in if ok then p2\<lparr>isLoading := False\<rparr> else p2)
         else p1\<lparr>isLoading := False\<rparr>)"

text \<open>
  The effect on \<open>[isSigned]\<close>: it runs when the auth context's flag changes
  and replaces the route with \<open>/\<close> when the user is signed in.
\<close>

definition isSigned_effect :: "bool \<Rightarrow> signin_page \<Rightarrow> signin_page" where
  "isSigned_effect b p =
     (if b = isSigned p then p
      else p\<lparr>isSigned := b, router := router p @ (if b then [Replace ''/''] else [])\<rparr>)"

section \<open>Events\<close>

datatype signin_event =
    EmailChange string
  | PasswordChange string
  | ToggleSignUp
  | Submit
  | Settle nat bool
  | SocialClick string bool
  | AuthChanged bool

text \<open>
  The form is submitted by its submit button or by Enter in a field; with the
  button disabled the browser submits nothing.
\<close>

fun signin_step :: "signin_page \<Rightarrow> signin_event \<Rightarrow> signin_page" where
  "signin_step p (EmailChange v) = onEmailChangeHandler v p"
| "signin_step p (PasswordChange v) = onPasswordChangeHandler v p"
| "signin_step p ToggleSignUp = onSignUpToggleHandler p"
| "signin_step p Submit = (if isDisabled p then p else onSubmitHandler p)"
| "signin_step p (Settle k ok) = getUser_settle k ok p"
| "signin_step p (SocialClick name ok) = onSocialSignInHandler name ok p"
| "signin_step p (AuthChanged b) = isSigned_effect b p"

definition signin_run :: "signin_page \<Rightarrow> signin_event list \<Rightarrow> signin_page" where
  "signin_run p es = fold (\<lambda>e q. signin_step q e) es p"

inductive signin_reachable :: "signin_page \<Rightarrow> bool" where
  mount: "signin_reachable (signin_mount b)"
| step: "signin_reachable p \<Longrightarrow> signin_reachable (signin_step p e)"

section \<open>View\<close>

datatype field_msg = MsgEnter | MsgInvalid | MsgNone

record signin_view =
  v_title_signUp :: bool
  v_error :: bool
  v_loading :: bool
  v_email_msg :: field_msg
  v_password_msg :: field_msg
  v_submit_disabled :: bool
  v_toggle_signUp :: bool

definition field_message :: "string \<Rightarrow> bool \<Rightarrow> field_msg" where
  "field_message v ok = (if v = [] then MsgEnter else if \<not> ok then MsgInvalid else MsgNone)"

definition signin_render :: "signin_page \<Rightarrow> signin_view" where
  "signin_render p =
     \<lparr>v_title_signUp = signUp p, v_error = isError p, v_loading = isLoading p,
      v_email_msg = field_message (userEmail p) (isEmail p),
      v_password_msg = field_message (userPassword p) (isPassword p),
      v_submit_disabled = isDisabled p, v_toggle_signUp = signUp p\<rparr>"

section \<open>Properties\<close>

text \<open>
  The calls the page has made: every email call is the one the first render's
  closure fixes, the empty sign-in.
\<close>

definition stale_calls :: "signin_page \<Rightarrow> bool" where
  "stale_calls p \<longleftrightarrow>
     set (in_flight p) \<subseteq> {SignInEmail [] []} \<and>
     (\<forall>c \<in> set (calls p). c = SignInEmail [] [] \<or> (\<exists>pr. c = SignInRedirect pr))"

definition flags_agree :: "signin_page \<Rightarrow> bool" where
  "flags_agree p \<longleftrightarrow>
     (userEmail p \<noteq> [] \<longrightarrow> isEmail p = email_ok (userEmail p)) \<and>
     (userPassword p \<noteq> [] \<longrightarrow> isPassword p = password_ok (userPassword p))"

definition signin_demo :: "signin_page" where
  "signin_demo = signin_run (signin_mount False)
     [EmailChange ''user@mail.com'', PasswordChange ''abcd123!'', Submit]"

definition signin_filled :: "signin_page" where
  "signin_filled = signin_run (signin_mount False)
     [EmailChange ''user@mail.com'', PasswordChange ''abcd123!'']"

text \<open>
  The events after which the loading overlay can only stay up: rejected
  settlements, the Google button, and a rejected GitHub redirect.
\<close>

fun keeps_loading :: "signin_event \<Rightarrow> bool" where
  "keeps_loading (Settle k ok) = (\<not> ok)"
| "keeps_loading (SocialClick name ok) =
     (name = ''google-signin'' \<or> (name = ''github-signin'' \<and> \<not> ok))"
| "keeps_loading _ = True"

lemmas signin_handler_defs =
  onEmailChangeHandler_def onPasswordChangeHandler_def onSignUpToggleHandler_def
  getUser_def getUser_settle_def onSubmitHandler_def onSocialSignInHandler_def
  isSigned_effect_def

lemma signin_run_Nil [simp]: "signin_run p [] = p"
  and signin_run_Cons [simp]: "signin_run p (e # es) = signin_run (signin_step p e) es"
  by (simp_all add: signin_run_def)

lemma signin_reachable_run: "signin_reachable p \<Longrightarrow> signin_reachable (signin_run p es)"
  by (induction es arbitrary: p) (auto intro: signin_reachable.step)

text \<open>No handler writes the closure scope of \<open>getUser\<close>.\<close>

lemma getUser_scope_step [simp]: "getUser_scope (signin_step p e) = getUser_scope p"
  by (cases e) (simp_all add: signin_handler_defs Let_def)

lemma getUser_scope_reachable:
  "signin_reachable p \<Longrightarrow> getUser_scope p = \<lparr>scope_signUp = False, scope_email = [], scope_password = []\<rparr>"
  by (induction rule: signin_reachable.induct) (simp_all add: signin_mount_def signin_fresh_def)

lemma stale_calls_step:
  assumes "stale_calls p" "getUser_scope p = \<lparr>scope_signUp = False, scope_email = [], scope_password = []\<rparr>"
  shows "stale_calls (signin_step p e)"
proof (cases e)
  case (Settle k ok)
  with assms(1) show ?thesis
    using set_drop_nth_subset [of k "in_flight p"]
    by (auto simp: stale_calls_def getUser_settle_def Let_def)
qed (use assms in \<open>auto simp: stale_calls_def signin_handler_defs getUser_call_def Let_def\<close>)

text \<open>
  C1: Whatever the user types and however the mode is toggled, every email
  call the sign-in page makes is \<open>signInWithEmailAndPassword\<close> with an empty
  email and password: the memoised \<open>getUser\<close> reads the first render.
\<close>

theorem signin_sends_initial_credentials:
  "signin_reachable p \<Longrightarrow> c \<in> set (calls p) \<Longrightarrow> (\<exists>pr. c = SignInRedirect pr) \<or> c = SignInEmail [] []"
proof -
  assume r: "signin_reachable p" and c: "c \<in> set (calls p)"
  from r have "stale_calls p"
  proof (induction rule: signin_reachable.induct)
    case (mount b)
    then show ?case by (simp add: stale_calls_def signin_mount_def signin_fresh_def)
  next
    case (step p e)
    then show ?case by (intro stale_calls_step getUser_scope_reachable)
  qed
  with c show ?thesis unfolding stale_calls_def by blast
qed

lemma flags_agree_step: "flags_agree p \<Longrightarrow> flags_agree (signin_step p e)"
  by (cases e) (auto simp: flags_agree_def signin_handler_defs Let_def)

lemma flags_agree_reachable: "signin_reachable p \<Longrightarrow> flags_agree p"
proof (induction rule: signin_reachable.induct)
  case (mount b)
  then show ?case by (simp add: flags_agree_def signin_mount_def signin_fresh_def)
next
  case (step p e)
  from step.IH show ?case by (rule flags_agree_step)
qed

text \<open>
  C4: In every reachable state of the page, a non-empty email field has the
  validation flag the email check gives it, and likewise the password field;
  only an emptied field may keep a stale flag.
\<close>

theorem signin_flags_agree:
  "signin_reachable p \<Longrightarrow> flags_agree p"
  by (rule flags_agree_reachable)

lemma isError_step: "isError p \<Longrightarrow> isError (signin_step p e)"
  by (cases e) (simp_all add: signin_handler_defs Let_def)

text \<open>C9: The error flag, once set, is never cleared by any sequence of events.\<close>

theorem isError_sticky: "isError p \<Longrightarrow> isError (signin_run p es)"
  by (induction es arbitrary: p) (simp_all add: isError_step)

text \<open>
  C8: A rejected sign-in call sets the error flag and drops the call but
  leaves the loading overlay up, and nothing short of a fulfilled call or a
  GitHub or unknown social button brings it down: from a state with the
  overlay up, every sequence of the other events (typing, toggling, submits,
  auth changes, rejections, the Google button, a failed GitHub redirect)
  ends with the overlay still up.
\<close>

theorem settle_rejected:
  "(k < length (in_flight p) \<longrightarrow>
     signin_step p (Settle k False) = p\<lparr>in_flight := drop_nth k (in_flight p), isError := True\<rparr>) \<and>
   (isLoading p \<and> list_all keeps_loading es \<longrightarrow> isLoading (signin_run p es))"
proof (intro conjI impI)
  show "signin_step p (Settle k False) = p\<lparr>in_flight := drop_nth k (in_flight p), isError := True\<rparr>"
    if "k < length (in_flight p)" using that by (simp add: getUser_settle_def)
  show "isLoading (signin_run p es)" if "isLoading p \<and> list_all keeps_loading es"
    using that
  proof (induction es arbitrary: p)
    case (Cons e es)
    have "isLoading (signin_step p e)"
      using Cons.prems by (cases e) (auto simp: signin_handler_defs Let_def)
    with Cons.prems show ?case by (simp add: Cons.IH)
  qed simp
qed

text \<open>
  C10: A click on a social button shows the loading overlay and starts the
  redirect of the button's provider; the overlay comes down again only when
  the GitHub redirect resolves or the button name is unknown. The Google
  branch returns inside the \<open>try\<close>, so its overlay stays up whether the
  redirect resolves or fails.
\<close>

theorem google_keeps_loading:
  "(isLoading (signin_step p (SocialClick name ok)) \<longleftrightarrow>
     name = ''google-signin'' \<or> (name = ''github-signin'' \<and> \<not> ok)) \<and>
   calls (signin_step p (SocialClick name ok)) = calls p @
     (if name = ''google-signin'' then [SignInRedirect Google]
      else if name = ''github-signin'' then [SignInRedirect Github] else [])"
  by (simp add: onSocialSignInHandler_def Let_def)

text \<open>Witnesses.\<close>

lemma signin_demo_reachable: "signin_reachable signin_demo"
  unfolding signin_demo_def by (intro signin_reachable_run signin_reachable.mount)

lemma signin_demo_eval:
  "signin_demo = (signin_fresh False)\<lparr>isEmail := True, isPassword := True, isLoading := True,
     in_flight := [SignInEmail [] []], calls := [SignInEmail [] []]\<rparr>"
  unfolding signin_demo_def by code_simp

theorem signin_sends_initial_credentials_witness:
  "signin_reachable signin_demo \<and> SignInEmail [] [] \<in> set (calls signin_demo) \<and>
   ((\<exists>pr. SignInEmail [] [] = SignInRedirect pr) \<or> SignInEmail [] [] = SignInEmail [] [])"
  using signin_sends_initial_credentials [OF signin_demo_reachable, of "SignInEmail [] []"]
    signin_demo_reachable
  by (simp add: signin_demo_eval signin_fresh_def)

theorem signin_flags_agree_witness:
  "signin_reachable (signin_step signin_demo (EmailChange ''a@b'')) \<and>
   flags_agree (signin_step signin_demo (EmailChange ''a@b''))"
  using signin_flags_agree [OF signin_reachable.step [OF signin_demo_reachable]]
    signin_reachable.step [OF signin_demo_reachable]
  by blast

theorem isError_sticky_witness:
  "isError (signin_step signin_demo (Settle 0 False)) \<and>
   isError (signin_run (signin_step signin_demo (Settle 0 False)) [EmailChange [], ToggleSignUp, Settle 0 True])"
proof -
  have e: "isError (signin_step signin_demo (Settle 0 False))"
    by (simp add: signin_demo_eval signin_fresh_def getUser_settle_def)
  show ?thesis using isError_sticky [OF e] e by blast
qed

theorem settle_rejected_witness:
  "0 < length (in_flight signin_demo) \<and>
   isLoading (signin_step signin_demo (Settle 0 False)) \<and> isError (signin_step signin_demo (Settle 0 False)) \<and>
   isLoading (signin_run signin_demo
     [Settle 0 False, EmailChange ''a@b.cc'', Submit, SocialClick ''google-signin'' True, Settle 0 False])"
proof -
  have k: "0 < length (in_flight signin_demo)" by (simp add: signin_demo_eval)
  have l: "isLoading signin_demo" by (simp add: signin_demo_eval)
  note s = settle_rejected [of 0 signin_demo
     "[Settle 0 False, EmailChange ''a@b.cc'', Submit, SocialClick ''google-signin'' True, Settle 0 False]"]
  have kl: "list_all keeps_loading
     [Settle 0 False, EmailChange ''a@b.cc'', Submit, SocialClick ''google-signin'' True, Settle 0 False]"
    by simp
  from s k have e: "signin_step signin_demo (Settle 0 False) =
      signin_demo\<lparr>in_flight := drop_nth 0 (in_flight signin_demo), isError := True\<rparr>" by blast
  from s l kl have st: "isLoading (signin_run signin_demo
     [Settle 0 False, EmailChange ''a@b.cc'', Submit, SocialClick ''google-signin'' True, Settle 0 False])"
    by blast
  have "isLoading (signin_step signin_demo (Settle 0 False)) \<and> isError (signin_step signin_demo (Settle 0 False))"
    by (simp only: e) (simp add: signin_demo_eval)
  then show ?thesis using k st by blast
qed

lemma signin_filled_eval:
  "signin_filled = (signin_fresh False)\<lparr>userEmail := ''user@mail.com'', userPassword := ''abcd123!'',
     isEmail := True, isPassword := True\<rparr>"
  unfolding signin_filled_def by code_simp

text \<open>
  C11: In every reachable state with the submit button enabled, a submit
  empties both fields but leaves the validation flags set, so the button
  stays enabled and the email field's message element holds the "enter your
  email" text (its style hides it, see C37); the page shows the loading
  overlay and one more call, with empty credentials, is in flight.
\<close>

theorem submit_leaves_button_enabled:
  assumes "signin_reachable p" "\<not> isDisabled p"
  shows "userEmail (signin_step p Submit) = [] \<and> userPassword (signin_step p Submit) = [] \<and>
   \<not> isDisabled (signin_step p Submit) \<and>
   v_email_msg (signin_render (signin_step p Submit)) = MsgEnter \<and>
   isLoading (signin_step p Submit) \<and>
   in_flight (signin_step p Submit) = in_flight p @ [SignInEmail [] []]"
  using assms getUser_scope_reachable [OF assms(1)]
  by (simp add: onSubmitHandler_def getUser_def getUser_call_def isDisabled_def Let_def
      signin_render_def field_message_def)

theorem submit_leaves_button_enabled_witness:
  "signin_reachable signin_filled \<and> \<not> isDisabled signin_filled \<and>
   \<not> isDisabled (signin_step signin_filled Submit) \<and>
   in_flight (signin_step signin_filled Submit) = [SignInEmail [] []]"
proof -
  have r: "signin_reachable signin_filled"
    unfolding signin_filled_def by (intro signin_reachable_run signin_reachable.mount)
  have d: "\<not> isDisabled signin_filled" by (simp add: signin_filled_eval isDisabled_def)
  have f: "in_flight signin_filled = []" by (simp add: signin_filled_eval signin_fresh_def)
  show ?thesis using submit_leaves_button_enabled [OF r d] r d f by simp
qed

end
