(* ===== verification/LegacySignIn.thy ===== *)
theory LegacySignIn
  imports SignIn
begin

text \<open>
  The older sign-in page \<open>LoginPage\<close> of \<open>src/pages/signin/index.tsx\<close>. Its
  handlers are plain functions recreated at every render, so they read the
  current state. The submit button has \<open>onClick={getUser}\<close> and the form
  \<open>onSubmit={onSubmitHandler}\<close>: a click (or Enter, which clicks the default
  button) runs \<open>getUser\<close> first, whose Firebase call starts synchronously with
  the values on screen, and then the submit handler empties the fields.
  The page is driven by the same events as \<open>SignIn\<close>; it has no social
  buttons, and \<open>AuthChanged\<close> is the \<open>onAuthStateChanged\<close> listener the
  mount effect registers.
\<close>

record legacy_page =
  l_signUp :: bool
  l_email :: string
  l_password :: string
  l_isEmail :: bool
  l_isPassword :: bool
  l_error :: bool
  l_in_flight :: "auth_call list"
  l_calls :: "auth_call list"
  l_router :: "nav list"

definition legacy_mount :: legacy_page where
  "legacy_mount =
     \<lparr>l_signUp = False, l_email = [], l_password = [], l_isEmail = False, l_isPassword = False,
      l_error = False, l_in_flight = [], l_calls = [], l_router = []\<rparr>"

definition l_isDisabled :: "legacy_page \<Rightarrow> bool" where
  "l_isDisabled p \<longleftrightarrow> \<not> (l_isEmail p \<and> l_isPassword p)"

text \<open>
  The page's own copies of the two patterns (lines 75-76 and 93-94), and the
  checks its change handlers make with them.
\<close>

definition legacy_email_regex :: re where
  "legacy_email_regex = seqs
     [Grp (Rep (Cls False [CWord, CChar CHR ''-'', CChar CHR ''.'']) 1 None),
      lit CHR ''@'',
      Grp (Alt
        (Grp (seqs [lit CHR ''['', Rep (Cls False [CRange CHR ''0'' CHR ''9'']) 1 (Some 3),
                    lit CHR ''.'', Rep (Cls False [CRange CHR ''0'' CHR ''9'']) 1 (Some 3),
                    lit CHR ''.'', Rep (Cls False [CRange CHR ''0'' CHR ''9'']) 1 (Some 3),
                    lit CHR ''.'']))
        (Grp (Rep (Grp (Seq (Rep (Cls False [CWord, CChar CHR ''-'']) 1 None) (lit CHR ''.''))) 1 None))),
      Grp (Alt (Rep (Cls False [CRange CHR ''a'' CHR ''z'', CRange CHR ''A'' CHR ''Z'']) 2 (Some 4))
               (Rep (Cls False [CRange CHR ''0'' CHR ''9'']) 1 (Some 3))),
      Grp (Rep (lit CHR '']'') 0 (Some 1)),
      Eol]"

definition legacy_password_regex :: re where
  "legacy_password_regex = seqs
     [Bol,
      Look (Seq (Rep AnyNL 0 None) (Cls False [CRange CHR ''a'' CHR ''z'', CRange CHR ''A'' CHR ''Z''])),
      Look (Seq (Rep AnyNL 0 None) (Cls False (map CChar ''!@#$%^*+=-''))),
      Look (Seq (Rep AnyNL 0 None) (Cls False [CRange CHR ''0'' CHR ''9''])),
      Rep AnyNL 8 (Some 25),
      Eol]"

definition l_email_ok :: "string \<Rightarrow> bool" where
  "l_email_ok v \<longleftrightarrow> re_test legacy_email_regex v"

definition l_password_ok :: "string \<Rightarrow> bool" where
  "l_password_ok v \<longleftrightarrow> re_test legacy_password_regex v"

definition l_onEmailChangeHandler :: "string \<Rightarrow> legacy_page \<Rightarrow> legacy_page" where
  "l_onEmailChangeHandler v p = p\<lparr>l_email := v, l_isEmail := l_email_ok v\<rparr>"

definition l_onPasswordChangeHandler :: "string \<Rightarrow> legacy_page \<Rightarrow> legacy_page" where
  "l_onPasswordChangeHandler v p = p\<lparr>l_password := v, l_isPassword := l_password_ok v\<rparr>"

definition l_onSignUpToggleHandler :: "legacy_page \<Rightarrow> legacy_page" where
  "l_onSignUpToggleHandler p = p\<lparr>l_signUp := \<not> l_signUp p\<rparr>"

text \<open>\<open>getUser\<close> up to its \<open>await\<close>: the call chosen by the current \<open>signUp\<close>.\<close>

definition l_getUser :: "legacy_page \<Rightarrow> legacy_page" where
  "l_getUser p =
     (let c = getUser_call \<lparr>scope_signUp = l_signUp p, scope_email = l_email p, scope_password = l_password p\<rparr>
      in p\<lparr>l_in_flight := l_in_flight p @ [c], l_calls := l_calls p @ [c]\<rparr>)"

text \<open>The rest of \<open>getUser\<close>: a rejection sets the error flag; nothing else.\<close>

definition l_getUser_settle :: "nat \<Rightarrow> bool \<Rightarrow> legacy_page \<Rightarrow> legacy_page" where
  "l_getUser_settle k ok p =
     (if length (l_in_flight p) \<le> k then p
      else let p' = p\<lparr>l_in_flight := drop_nth k (l_in_flight p)\<rparr>
           in if ok then p' else p'\<lparr>l_error := True\<rparr>)"

definition l_onSubmitHandler :: "legacy_page \<Rightarrow> legacy_page" where
  "l_onSubmitHandler p = p\<lparr>l_email := [], l_password := []\<rparr>"

text \<open>The \<open>onAuthStateChanged\<close> listener: a signed-in user is sent to \<open>/\<close>.\<close>

definition l_auth_listener :: "bool \<Rightarrow> legacy_page \<Rightarrow> legacy_page" where
  "l_auth_listener user p = (if user then p\<lparr>l_router := l_router p @ [Push ''/'']\<rparr> else p)"

fun legacy_step :: "legacy_page \<Rightarrow> signin_event \<Rightarrow> legacy_page" where
  "legacy_step p (EmailChange v) = l_onEmailChangeHandler v p"
| "legacy_step p (PasswordChange v) = l_onPasswordChangeHandler v p"
| "legacy_step p ToggleSignUp = l_onSignUpToggleHandler p"
| "legacy_step p Submit = (if l_isDisabled p then p else l_onSubmitHandler (l_getUser p))"
| "legacy_step p (Settle k ok) = l_getUser_settle k ok p"
| "legacy_step p (SocialClick name ok) = p"
| "legacy_step p (AuthChanged b) = l_auth_listener b p"

definition legacy_run :: "legacy_page \<Rightarrow> signin_event list \<Rightarrow> legacy_page" where
  "legacy_run p es = fold (\<lambda>e q. legacy_step q e) es p"

inductive legacy_reachable :: "legacy_page \<Rightarrow> bool" where
  mount: "legacy_reachable legacy_mount"
| step: "legacy_reachable p \<Longrightarrow> legacy_reachable (legacy_step p e)"

text \<open>
  The view: a validation message is rendered only for an empty or invalid
  field (\<open>null\<close> otherwise), the error line when \<open>error\<close> is set.
\<close>

definition legacy_render :: "legacy_page \<Rightarrow> signin_view" where
  "legacy_render p =
     \<lparr>v_title_signUp = l_signUp p, v_error = l_error p, v_loading = False,
      v_email_msg = field_message (l_email p) (l_isEmail p),
      v_password_msg = field_message (l_password p) (l_isPassword p),
      v_submit_disabled = l_isDisabled p, v_toggle_signUp = l_signUp p\<rparr>"

section \<open>Properties\<close>

text \<open>The credentials a call carries are empty or pass the page's check.\<close>

fun valid_creds :: "auth_call \<Rightarrow> bool" where
  "valid_creds (CreateUser e pw) \<longleftrightarrow> (e = [] \<or> l_email_ok e) \<and> (pw = [] \<or> l_password_ok pw)"
| "valid_creds (SignInEmail e pw) \<longleftrightarrow> (e = [] \<or> l_email_ok e) \<and> (pw = [] \<or> l_password_ok pw)"
| "valid_creds (SignInRedirect pr) \<longleftrightarrow> False"

definition legacy_inv :: "legacy_page \<Rightarrow> bool" where
  "legacy_inv p \<longleftrightarrow>
     (l_email p \<noteq> [] \<longrightarrow> l_isEmail p = l_email_ok (l_email p)) \<and>
     (l_password p \<noteq> [] \<longrightarrow> l_isPassword p = l_password_ok (l_password p)) \<and>
     (\<forall>c \<in> set (l_calls p). valid_creds c)"

definition legacy_typed :: legacy_page where
  "legacy_typed = legacy_run legacy_mount [EmailChange ''user@mail.com'', PasswordChange ''abcd123!'']"

text \<open>The page's patterns are the newer page's, character for character.\<close>

lemma legacy_regexes_eq: "legacy_email_regex = email_regex" "legacy_password_regex = password_regex"
  by (simp_all add: legacy_email_regex_def email_regex_def legacy_password_regex_def
                    password_regex_def password_special_def)

lemmas legacy_handler_defs =
  l_onEmailChangeHandler_def l_onPasswordChangeHandler_def l_onSignUpToggleHandler_def
  l_getUser_def l_getUser_settle_def l_onSubmitHandler_def l_auth_listener_def

lemma legacy_run_Nil [simp]: "legacy_run p [] = p"
  and legacy_run_Cons [simp]: "legacy_run p (e # es) = legacy_run (legacy_step p e) es"
  by (simp_all add: legacy_run_def)

lemma legacy_inv_getUser:
  assumes "legacy_inv p" "\<not> l_isDisabled p"
  shows "legacy_inv (l_getUser p)"
  using assms by (auto simp: legacy_inv_def l_isDisabled_def l_getUser_def getUser_call_def Let_def)

lemma legacy_inv_step:
  assumes "legacy_inv p"
  shows "legacy_inv (legacy_step p e)"
proof (cases e)
  case Submit
  with assms show ?thesis
    using legacy_inv_getUser [of p]
    by (auto simp: legacy_inv_def l_onSubmitHandler_def)
qed (use assms in \<open>auto simp: legacy_inv_def legacy_handler_defs Let_def\<close>)

lemma legacy_reachable_inv: "legacy_reachable p \<Longrightarrow> legacy_inv p"
proof (induction rule: legacy_reachable.induct)
  case mount
  then show ?case by (simp add: legacy_inv_def legacy_mount_def)
next
  case (step p e)
  from step.IH show ?case by (rule legacy_inv_step)
qed

text \<open>
  C14: A click on the enabled submit button of the older sign-in page makes
  the Firebase call of the current mode with the email and password on the
  screen, and then empties both fields.
\<close>

theorem legacy_submit_sends_typed:
  assumes "\<not> l_isDisabled p"
  shows "l_calls (legacy_step p Submit) =
           l_calls p @ [if l_signUp p then CreateUser (l_email p) (l_password p)
                        else SignInEmail (l_email p) (l_password p)]
         \<and> l_email (legacy_step p Submit) = [] \<and> l_password (legacy_step p Submit) = []"
  using assms by (simp add: l_onSubmitHandler_def l_getUser_def getUser_call_def Let_def)

text \<open>
  C15: Every call the older page makes carries an email that is empty or
  passes the email check and a password that is empty or passes the password
  check; it never starts a redirect sign-in.
\<close>

theorem legacy_calls_validated:
  "legacy_reachable p \<Longrightarrow> c \<in> set (l_calls p) \<Longrightarrow> valid_creds c"
  using legacy_reachable_inv unfolding legacy_inv_def by blast

text \<open>
  C16: The submit handler empties the fields but not the validation flags, so
  the button stays enabled and a second click sends a sign-in with an empty
  email and password.
\<close>

theorem legacy_double_submit:
  assumes "l_email_ok e" "l_password_ok pw"
  shows "l_calls (legacy_run legacy_mount [EmailChange e, PasswordChange pw, Submit, Submit]) =
           [SignInEmail e pw, SignInEmail [] []]"
  using assms by (simp add: legacy_mount_def legacy_handler_defs l_isDisabled_def getUser_call_def Let_def)

text \<open>
  C33: The older page's email and password checks accept exactly the inputs
  the newer page's checks accept.
\<close>

theorem legacy_checks_equiv: "l_email_ok v = email_ok v \<and> l_password_ok v = password_ok v"
  by (simp add: l_email_ok_def email_ok_def l_password_ok_def password_ok_def legacy_regexes_eq)

lemma legacy_reachable_run: "legacy_reachable p \<Longrightarrow> legacy_reachable (legacy_run p es)"
  by (induction es arbitrary: p) (auto intro: legacy_reachable.step)

text \<open>Witnesses.\<close>

lemma legacy_typed_eval:
  "legacy_typed = legacy_mount\<lparr>l_email := ''user@mail.com'', l_password := ''abcd123!'',
     l_isEmail := True, l_isPassword := True\<rparr>"
  unfolding legacy_typed_def by code_simp

theorem legacy_submit_sends_typed_witness:
  "\<not> l_isDisabled legacy_typed \<and>
   l_calls (legacy_step legacy_typed Submit) = [SignInEmail ''user@mail.com'' ''abcd123!''] \<and>
   l_email (legacy_step legacy_typed Submit) = [] \<and> l_password (legacy_step legacy_typed Submit) = []"
proof -
  have en: "\<not> l_isDisabled legacy_typed"
    by (simp add: legacy_typed_eval l_isDisabled_def)
  show ?thesis
    using legacy_submit_sends_typed [OF en] en by (simp add: legacy_typed_eval legacy_mount_def)
qed

theorem legacy_calls_validated_witness:
  "legacy_reachable (legacy_run legacy_typed [Submit, Submit]) \<and>
   SignInEmail [] [] \<in> set (l_calls (legacy_run legacy_typed [Submit, Submit])) \<and>
   valid_creds (SignInEmail [] [])"
proof -
  have r: "legacy_reachable (legacy_run legacy_typed [Submit, Submit])"
    unfolding legacy_typed_def by (intro legacy_reachable_run legacy_reachable.mount)
  have c: "SignInEmail [] [] \<in> set (l_calls (legacy_run legacy_typed [Submit, Submit]))"
    by (simp add: legacy_typed_eval legacy_mount_def legacy_handler_defs l_isDisabled_def
                  getUser_call_def Let_def)
  show ?thesis using legacy_calls_validated [OF r c] r c by blast
qed

theorem legacy_double_submit_witness:
  "l_email_ok ''user@mail.com'' \<and> l_password_ok ''abcd123!'' \<and>
   l_calls (legacy_run legacy_mount [EmailChange ''user@mail.com'', PasswordChange ''abcd123!'', Submit, Submit]) =
     [SignInEmail ''user@mail.com'' ''abcd123!'', SignInEmail [] []]"
proof -
  have e: "l_email_ok ''user@mail.com''" and pw: "l_password_ok ''abcd123!''"
    by code_simp+
  show ?thesis using legacy_double_submit [OF e pw] e pw by blast
qed

end
