(* ===== verification/TicketList.thy ===== *)
theory TicketList
  imports Prelude "HOL-Library.Multiset" "HOL-Library.List_Lexorder" "HOL-Library.Char_ord"
    "HOL-Library.Product_Lexorder"
begin

text \<open>
  The ticket list page \<open>TicketListPage\<close> of \<open>src/pages/ticket-list/index.tsx\<close>
  and the part of Firestore it relies on. The page reads \<open>userId\<close> and
  \<open>isSigned\<close> from the auth context, keeps \<open>isLoading\<close>, \<open>usersTicket\<close> and
  \<open>isSorted\<close>, and has two effects: the query effect (dependencies \<open>userId\<close>,
  \<open>isSorted\<close>) issues a \<open>getDocs\<close> query whose response later replaces the list,
  and the redirect effect (dependency \<open>isSigned\<close>) pushes \<open>/\<close> when signed out.
  Queries in flight are a list; a response or a failure of any of them is an
  event of its own, so responses may arrive in any order.
\<close>

section \<open>Tickets and the Firestore query\<close>

text \<open>
  A document of the \<open>users-tickets\<close> collection as the page receives it:
  \<open>{id: item.id, ...item.data()}\<close>, the document id in \<open>tid\<close>.
\<close>

record ticket =
  tid :: string
  title :: string
  releaseYear :: string
  rating :: string
  reviewText :: string
  posterImage :: string
  creatorId :: string
  createdAt :: int

datatype dir = Asc | Desc

text \<open>A query \<open>where('creatorId', '==', v)\<close>, \<open>orderBy('createdAt', d)\<close>.\<close>

type_synonym fs_query = "string \<times> dir"

text \<open>
  Firestore's answer to such a query on a collection \<open>db\<close>: the documents
  whose \<open>creatorId\<close> equals \<open>v\<close>, ordered by \<open>createdAt\<close> and, for equal
  timestamps, by document id in the same direction (Firestore's implicit last
  ordering).
\<close>

definition order_key :: "ticket \<Rightarrow> int \<times> string" where
  "order_key t = (createdAt t, tid t)"

definition getDocs :: "ticket list \<Rightarrow> fs_query \<Rightarrow> ticket list" where
  "getDocs db q =
     (let xs = sort_key order_key (filter (\<lambda>t. creatorId t = fst q) db)
      in if snd q = Asc then xs else rev xs)"

text \<open>
  The query the effect builds: \<open>`${userId}`\<close> and
  \<open>`${!isSorted ? 'desc' : 'asc'}`\<close>.
\<close>

definition contentQuery :: "string js_opt \<Rightarrow> bool \<Rightarrow> fs_query" where
  "contentQuery uid srt = (js_template uid, if \<not> srt then Desc else Asc)"

section \<open>The page\<close>

record ticket_page =
  userId :: "string js_opt"
  isSigned :: bool
  isLoading :: bool
  usersTicket :: "ticket list"
  isSorted :: bool
  pending :: "fs_query list"
  router :: "nav list"

text \<open>
  The query effect up to its \<open>await\<close>: \<open>setIsLoading(true)\<close>, and the query
  for the current \<open>userId\<close> and \<open>isSorted\<close> is sent.
\<close>

definition query_effect :: "ticket_page \<Rightarrow> ticket_page" where
  "query_effect p =
     p\<lparr>isLoading := True, pending := pending p @ [contentQuery (userId p) (isSorted p)]\<rparr>"

text \<open>
  The rest of the query effect, when the \<open>k\<close>-th query in flight is answered
  from the collection \<open>db\<close>: \<open>setUsersTicket(newData)\<close>,
  \<open>setIsLoading(false)\<close>. An index out of range changes nothing.
\<close>

definition query_resolve :: "nat \<Rightarrow> ticket list \<Rightarrow> ticket_page \<Rightarrow> ticket_page" where
  "query_resolve k db p =
     (if length (pending p) \<le> k then p
      else p\<lparr>pending := drop_nth k (pending p), usersTicket := getDocs db (pending p ! k),
             isLoading := False\<rparr>)"

text \<open>
  A failed \<open>getDocs\<close>: the async function has no \<open>catch\<close>, its promise is
  rejected and nothing is set.
\<close>

definition query_reject :: "nat \<Rightarrow> ticket_page \<Rightarrow> ticket_page" where
  "query_reject k p = p\<lparr>pending := drop_nth k (pending p)\<rparr>"

definition redirect_effect :: "ticket_page \<Rightarrow> ticket_page" where
  "redirect_effect p = (if \<not> isSigned p then p\<lparr>router := router p @ [Push ''/'']\<rparr> else p)"

text \<open>The first render and its two effects, in the order they are declared.\<close>

definition ticket_mount :: "string js_opt \<Rightarrow> bool \<Rightarrow> ticket_page" where
  "ticket_mount uid signed =
     redirect_effect (query_effect
       \<lparr>userId = uid, isSigned = signed, isLoading = False, usersTicket = [], isSorted = False,
        pending = [], router = []\<rparr>)"

text \<open>\<open>onSortedHandler\<close>; the new \<open>isSorted\<close> re-runs the query effect.\<close>

definition onSortedHandler :: "ticket_page \<Rightarrow> ticket_page" where
  "onSortedHandler p = query_effect (p\<lparr>isSorted := \<not> isSorted p\<rparr>)"

text \<open>
  A new auth context value: each effect runs again when one of its
  dependencies changed.
\<close>

definition auth_update :: "string js_opt \<Rightarrow> bool \<Rightarrow> ticket_page \<Rightarrow> ticket_page" where
  "auth_update uid signed p =
     (let p1 = p\<lparr>userId := uid, isSigned := signed\<rparr>;
          p2 = (if uid \<noteq> userId p then query_effect p1 else p1)
      in if signed \<noteq> isSigned p then redirect_effect p2 else p2)"

datatype ticket_event = SortClick | Resolve nat "ticket list" | Reject nat | AuthUpdate "string js_opt" bool

fun ticket_step :: "ticket_page \<Rightarrow> ticket_event \<Rightarrow> ticket_page" where
  "ticket_step p SortClick = onSortedHandler p"
| "ticket_step p (Resolve k db) = query_resolve k db p"
| "ticket_step p (Reject k) = query_reject k p"
| "ticket_step p (AuthUpdate uid signed) = auth_update uid signed p"

definition ticket_run :: "ticket_page \<Rightarrow> ticket_event list \<Rightarrow> ticket_page" where
  "ticket_run p es = fold (\<lambda>e q. ticket_step q e) es p"

text \<open>
  The states reachable from a mount by events an environment \<open>ok\<close> allows:
  \<open>\<lambda>_. True\<close> for every order of responses, \<open>fifo_event\<close> for responses in
  the order the queries were sent.
\<close>

inductive ticket_reachable :: "(ticket_event \<Rightarrow> bool) \<Rightarrow> ticket_page \<Rightarrow> bool" for ok where
  mount: "ticket_reachable ok (ticket_mount uid signed)"
| step: "ticket_reachable ok p \<Longrightarrow> ok e \<Longrightarrow> ticket_reachable ok (ticket_step p e)"

fun fifo_event :: "ticket_event \<Rightarrow> bool" where
  "fifo_event (Resolve k db) \<longleftrightarrow> k = 0"
| "fifo_event (Reject k) \<longleftrightarrow> k = 0"
| "fifo_event e \<longleftrightarrow> True"

section \<open>The view\<close>

datatype ticket_content = Spinner | NoneResults | Slider "ticket list"

datatype arrow = ArrowUp | ArrowDown

record ticket_view =
  ticketLength :: nat
  sort_arrow :: arrow
  content :: ticket_content

definition ticket_render :: "ticket_page \<Rightarrow> ticket_view" where
  "ticket_render p =
     \<lparr>ticketLength = length (usersTicket p),
      sort_arrow = (if \<not> isSorted p then ArrowUp else ArrowDown),
      content = (if isLoading p then Spinner
                 else if length (usersTicket p) = 0 then NoneResults
                 else Slider (usersTicket p))\<rparr>"

section \<open>Properties\<close>

text \<open>A list of keys in the order a direction asks for.\<close>

fun sorted_dir :: "dir \<Rightarrow> 'a::linorder list \<Rightarrow> bool" where
  "sorted_dir Asc ks \<longleftrightarrow> sorted ks"
| "sorted_dir Desc ks \<longleftrightarrow> sorted (rev ks)"

abbreviation current_query :: "ticket_page \<Rightarrow> fs_query" where
  "current_query p \<equiv> contentQuery (userId p) (isSorted p)"

text \<open>Environments: responses in the order sent, and no failed query.\<close>

fun no_reject :: "ticket_event \<Rightarrow> bool" where
  "no_reject (Reject k) \<longleftrightarrow> False"
| "no_reject e \<longleftrightarrow> True"

fun is_response :: "ticket_event \<Rightarrow> bool" where
  "is_response (Resolve k db) \<longleftrightarrow> True"
| "is_response (Reject k) \<longleftrightarrow> True"
| "is_response e \<longleftrightarrow> False"

text \<open>The newest query in flight is the one for the current state.\<close>

definition last_is_current :: "ticket_page \<Rightarrow> bool" where
  "last_is_current p \<longleftrightarrow> (pending p \<noteq> [] \<longrightarrow> last (pending p) = current_query p)"

text \<open>With no query in flight, the list shown answers the current query.\<close>

definition shown_current :: "ticket_page \<Rightarrow> bool" where
  "shown_current p \<longleftrightarrow> (pending p = [] \<longrightarrow> (\<exists>db. usersTicket p = getDocs db (current_query p)))"

definition ticket_demo :: "ticket_event list \<Rightarrow> ticket_page" where
  "ticket_demo es = ticket_run (ticket_mount (Some ''u'') True) es"

lemmas ticket_handler_defs =
  query_effect_def query_resolve_def query_reject_def redirect_effect_def
  onSortedHandler_def auth_update_def

lemma ticket_run_Nil [simp]: "ticket_run p [] = p"
  and ticket_run_Cons [simp]: "ticket_run p (e # es) = ticket_run (ticket_step p e) es"
  by (simp_all add: ticket_run_def)

lemma ticket_reachable_run:
  "ticket_reachable ok p \<Longrightarrow> list_all ok es \<Longrightarrow> ticket_reachable ok (ticket_run p es)"
  by (induction es arbitrary: p) (auto intro: ticket_reachable.step)

lemma mset_getDocs: "mset (getDocs db q) = mset (filter (\<lambda>t. creatorId t = fst q) db)"
  by (simp add: getDocs_def Let_def mset_sort)

lemma sorted_getDocs: "sorted_dir (snd q) (map order_key (getDocs db q))"
  by (cases "snd q") (simp_all add: getDocs_def Let_def sorted_sort_key rev_map [symmetric])

lemma getDocs_owned: "t \<in> set (getDocs db q) \<Longrightarrow> creatorId t = fst q"
  by (simp add: getDocs_def Let_def split: if_splits)

lemma getDocs_Desc: "getDocs db (v, Desc) = rev (getDocs db (v, Asc))"
  by (simp add: getDocs_def Let_def)

text \<open>
  C18: The page's query returns exactly the signed-in user's tickets (as a
  multiset of the collection's documents whose \<open>creatorId\<close> is the text of
  \<open>userId\<close>), newest first while \<open>isSorted\<close> is false and oldest first once it
  is true.
\<close>

theorem contentQuery_result:
  "mset (getDocs db (contentQuery uid srt)) = mset (filter (\<lambda>t. creatorId t = js_template uid) db)
   \<and> sorted_dir (if srt then Asc else Desc) (map order_key (getDocs db (contentQuery uid srt)))"
  using sorted_getDocs [of "contentQuery uid srt" db]
  by (cases srt) (simp_all add: mset_getDocs contentQuery_def)

lemma last_is_current_step:
  assumes "last_is_current p" "fifo_event e"
  shows "last_is_current (ticket_step p e)"
proof (cases e)
  case (Resolve k db)
  with assms show ?thesis
    by (cases "pending p") (auto simp: last_is_current_def query_resolve_def)
next
  case (Reject k)
  with assms show ?thesis
    by (cases "pending p") (auto simp: last_is_current_def query_reject_def)
qed (use assms in \<open>auto simp: last_is_current_def ticket_handler_defs Let_def\<close>)

lemma ticket_mount_simps [page_simps]:
  "pending (ticket_mount uid signed) = [contentQuery uid False]"
  "userId (ticket_mount uid signed) = uid"
  "isSorted (ticket_mount uid signed) = False"
  "isLoading (ticket_mount uid signed)"
  "usersTicket (ticket_mount uid signed) = []"
  "router (ticket_mount uid signed) = (if signed then [] else [Push ''/''])"
  by (simp_all add: ticket_mount_def ticket_handler_defs)

lemma ticket_reachable_mono:
  "ticket_reachable ok p \<Longrightarrow> (\<And>e. ok e \<Longrightarrow> ok' e) \<Longrightarrow> ticket_reachable ok' p"
  by (induction rule: ticket_reachable.induct) (auto intro: ticket_reachable.intros)

lemma last_is_current_reachable:
  "ticket_reachable fifo_event p \<Longrightarrow> last_is_current p"
proof (induction rule: ticket_reachable.induct)
  case (mount uid signed)
  then show ?case by (simp add: last_is_current_def page_simps)
next
  case (step p e)
  then show ?case by (intro last_is_current_step)
qed

text \<open>
  C19: While responses arrive in the order the queries were sent, the newest
  query in flight is always the query for the current user and sort order.
\<close>

theorem newest_query_current:
  "ticket_reachable fifo_event p \<Longrightarrow> pending p \<noteq> [] \<Longrightarrow> last (pending p) = contentQuery (userId p) (isSorted p)"
  using last_is_current_reachable unfolding last_is_current_def by blast

lemma shown_current_step:
  assumes "last_is_current p" "shown_current p" "fifo_event e" "no_reject e"
  shows "shown_current (ticket_step p e)"
proof (cases e)
  case (Resolve k db)
  with assms show ?thesis
    by (cases "pending p" rule: remdups_adj.cases)
       (auto simp: last_is_current_def shown_current_def query_resolve_def)
qed (use assms in \<open>auto simp: shown_current_def ticket_handler_defs Let_def\<close>)

lemma shown_current_reachable:
  "ticket_reachable (\<lambda>e. fifo_event e \<and> no_reject e) p \<Longrightarrow> shown_current p"
proof (induction rule: ticket_reachable.induct)
  case (mount uid signed)
  then show ?case by (simp add: shown_current_def page_simps)
next
  case (step p e)
  have "ticket_reachable fifo_event p"
    using step.hyps(1) by (rule ticket_reachable_mono) simp
  then have "last_is_current p" by (rule last_is_current_reachable)
  with step show ?case by (intro shown_current_step) simp_all
qed

text \<open>
  C20: While responses arrive in the order the queries were sent and none
  fails, once no query is in flight the list the page shows is Firestore's
  answer to the query for the current user and sort order.
\<close>

theorem settled_list_current:
  "ticket_reachable (\<lambda>e. fifo_event e \<and> no_reject e) p \<Longrightarrow> pending p = [] \<Longrightarrow>
   \<exists>db. usersTicket p = getDocs db (contentQuery (userId p) (isSorted p))"
  using shown_current_reachable unfolding shown_current_def by blast

text \<open>
  C21: Responses are applied in the order they arrive, with no check that
  they answer the current query. From any state whose only query in flight
  is the one for its current user and order, a sort click followed by the
  newer response and then the older one settles the page (no query in
  flight, no spinner) with Firestore's answer to the old order on screen,
  while the current query, and the arrow, ask for the other order.
\<close>

theorem out_of_order_stale:
  assumes "pending p = [contentQuery (userId p) (isSorted p)]"
  shows "pending (ticket_run p [SortClick, Resolve 1 db, Resolve 0 db]) = [] \<and>
   \<not> isLoading (ticket_run p [SortClick, Resolve 1 db, Resolve 0 db]) \<and>
   usersTicket (ticket_run p [SortClick, Resolve 1 db, Resolve 0 db]) =
     getDocs db (contentQuery (userId p) (isSorted p)) \<and>
   snd (contentQuery (userId (ticket_run p [SortClick, Resolve 1 db, Resolve 0 db]))
          (isSorted (ticket_run p [SortClick, Resolve 1 db, Resolve 0 db]))) \<noteq>
     snd (contentQuery (userId p) (isSorted p))"
  using assms by (simp add: onSortedHandler_def query_effect_def query_resolve_def contentQuery_def)

lemma responses_idle: "pending p = [] \<Longrightarrow> is_response e \<Longrightarrow> ticket_step p e = p"
  by (cases e) (simp_all add: query_resolve_def query_reject_def)

text \<open>
  C22: A failed query leaves the spinner for good: when the only query in
  flight fails, the page drops it but keeps its loading flag set (the async
  function has no \<open>catch\<close>), and no later response changes the page.
\<close>

theorem failed_query_spinner:
  assumes "isLoading p" "pending p = [q]" "list_all is_response es"
  shows "pending (ticket_step p (Reject 0)) = [] \<and>
   content (ticket_render (ticket_run p (Reject 0 # es))) = Spinner"
proof -
  have r: "ticket_step p (Reject 0) = p\<lparr>pending := []\<rparr>"
    using assms(2) by (simp add: query_reject_def)
  have "ticket_run (p\<lparr>pending := []\<rparr>) es = p\<lparr>pending := []\<rparr>"
    using assms(3) by (induction es) (simp_all add: responses_idle)
  with r assms(1) show ?thesis by (simp add: ticket_render_def)
qed

text \<open>
  C23: Signed out, the page still queries: its mount sends the query for
  the text of \<open>userId\<close> (\<open>undefined\<close> when there is none) and shows the
  spinner whatever \<open>isSigned\<close> is; and in every state the page can reach,
  whatever the order of responses, a signed-out page has pushed \<open>/\<close>.
\<close>

theorem signed_out_mount:
  "(pending (ticket_mount uid signed) = [(js_template uid, Desc)] \<and>
    content (ticket_render (ticket_mount uid signed)) = Spinner) \<and>
   (ticket_reachable ok p \<longrightarrow> \<not> isSigned p \<longrightarrow> Push ''/'' \<in> set (router p))"
proof (intro conjI impI)
  show "pending (ticket_mount uid signed) = [(js_template uid, Desc)]"
    and "content (ticket_render (ticket_mount uid signed)) = Spinner"
    by (simp_all add: ticket_mount_def ticket_handler_defs contentQuery_def ticket_render_def)
  show "Push ''/'' \<in> set (router p)" if "ticket_reachable ok p" "\<not> isSigned p"
    using that
  proof (induction rule: ticket_reachable.induct)
    case (mount uid signed)
    then show ?case by (cases signed) (simp_all add: ticket_mount_def ticket_handler_defs)
  next
    case (step p e)
    then show ?case
      by (cases e) (auto simp: ticket_handler_defs Let_def split: if_splits)
  qed
qed

text \<open>Answering every query in flight in the order sent settles the page.\<close>

lemma resolve_all:
  "pending p = q # qs \<Longrightarrow>
   ticket_run p (replicate (Suc (length qs)) (Resolve 0 db)) =
     p\<lparr>pending := [], usersTicket := getDocs db (last (q # qs)), isLoading := False\<rparr>"
proof (induction qs arbitrary: p q)
  case Nil
  then show ?case by (simp add: query_resolve_def)
next
  case (Cons q' qs)
  let ?p' = "p\<lparr>pending := q' # qs, usersTicket := getDocs db q, isLoading := False\<rparr>"
  have "ticket_step p (Resolve 0 db) = ?p'"
    using Cons.prems by (simp add: query_resolve_def)
  moreover have "ticket_run ?p' (replicate (Suc (length qs)) (Resolve 0 db)) =
      ?p'\<lparr>pending := [], usersTicket := getDocs db (last (q' # qs)), isLoading := False\<rparr>"
    by (rule Cons.IH) simp
  ultimately show ?case using Cons.prems by simp
qed

text \<open>
  C34: From any state of the page, even one left with the spinner by a failed
  query, a click on the sort toggle followed by one in-order answer for each
  query then in flight settles the page: no query in flight, the spinner
  gone, the order toggled, and the list Firestore gives for the current user
  and the new order.
\<close>

theorem ticket_page_settles:
  "let p' = ticket_run p (SortClick # replicate (Suc (length (pending p))) (Resolve 0 db))
   in pending p' = [] \<and> \<not> isLoading p' \<and> isSorted p' = (\<not> isSorted p) \<and>
      usersTicket p' = getDocs db (contentQuery (userId p') (isSorted p'))"
proof -
  let ?q = "contentQuery (userId p) (\<not> isSorted p)"
  let ?p1 = "ticket_step p SortClick"
  have pend: "pending ?p1 = pending p @ [?q]"
    by (simp add: onSortedHandler_def query_effect_def)
  obtain q qs where qs: "pending ?p1 = q # qs" "last (q # qs) = ?q"
    by (metis pend append_is_Nil_conv last_snoc list.exhaust not_Cons_self2)
  have "length (pending ?p1) = Suc (length (pending p))" using pend by simp
  then have len: "Suc (length (pending p)) = Suc (length qs)" using qs(1) by simp
  have run: "ticket_run p (SortClick # replicate (Suc (length (pending p))) (Resolve 0 db)) =
      ?p1\<lparr>pending := [], usersTicket := getDocs db ?q, isLoading := False\<rparr>"
    using resolve_all [OF qs(1), of db] qs(2) len by simp
  show ?thesis unfolding Let_def run by (simp add: onSortedHandler_def query_effect_def)
qed

text \<open>Witnesses.\<close>

lemma ticket_demo_reachable:
  "list_all ok es \<Longrightarrow> ticket_reachable ok (ticket_demo es)"
  unfolding ticket_demo_def by (intro ticket_reachable_run ticket_reachable.mount)

theorem newest_query_current_witness:
  "ticket_reachable fifo_event (ticket_demo [SortClick]) \<and> pending (ticket_demo [SortClick]) \<noteq> [] \<and>
   last (pending (ticket_demo [SortClick])) = (''u'', Asc)"
proof -
  have r: "ticket_reachable fifo_event (ticket_demo [SortClick])"
    by (rule ticket_demo_reachable) simp
  have n: "pending (ticket_demo [SortClick]) \<noteq> []"
    by (simp add: ticket_demo_def ticket_mount_def ticket_handler_defs)
  have "contentQuery (userId (ticket_demo [SortClick])) (isSorted (ticket_demo [SortClick])) = (''u'', Asc)"
    by (simp add: ticket_demo_def ticket_mount_def ticket_handler_defs contentQuery_def)
  then show ?thesis using newest_query_current [OF r n] r n by simp
qed

theorem settled_list_current_witness:
  "ticket_reachable (\<lambda>e. fifo_event e \<and> no_reject e) (ticket_demo [SortClick, Resolve 0 [], Resolve 0 []]) \<and>
   pending (ticket_demo [SortClick, Resolve 0 [], Resolve 0 []]) = [] \<and>
   (\<exists>db. usersTicket (ticket_demo [SortClick, Resolve 0 [], Resolve 0 []]) = getDocs db (''u'', Asc))"
proof -
  let ?p = "ticket_demo [SortClick, Resolve 0 [], Resolve 0 []]"
  have r: "ticket_reachable (\<lambda>e. fifo_event e \<and> no_reject e) ?p"
    by (rule ticket_demo_reachable) simp
  have n: "pending ?p = []" and q: "contentQuery (userId ?p) (isSorted ?p) = (''u'', Asc)"
    by (simp_all add: ticket_demo_def ticket_mount_def ticket_handler_defs contentQuery_def)
  show ?thesis using settled_list_current [OF r n] r n q by simp
qed

theorem out_of_order_stale_witness:
  "pending (ticket_demo []) = [contentQuery (userId (ticket_demo [])) (isSorted (ticket_demo []))] \<and>
   usersTicket (ticket_run (ticket_demo []) [SortClick, Resolve 1 [], Resolve 0 []]) = getDocs [] (''u'', Desc) \<and>
   isSorted (ticket_run (ticket_demo []) [SortClick, Resolve 1 [], Resolve 0 []])"
proof -
  have p: "pending (ticket_demo []) = [contentQuery (userId (ticket_demo [])) (isSorted (ticket_demo []))]"
    by (simp add: ticket_demo_def page_simps)
  have c: "contentQuery (userId (ticket_demo [])) (isSorted (ticket_demo [])) = (''u'', Desc)"
    by (simp add: ticket_demo_def page_simps contentQuery_def)
  have "isSorted (ticket_run (ticket_demo []) [SortClick, Resolve 1 [], Resolve 0 []])"
    by (simp add: ticket_demo_def page_simps ticket_handler_defs)
  then show ?thesis using out_of_order_stale [OF p, of "[]"] p c by simp
qed

theorem failed_query_spinner_witness:
  "isLoading (ticket_demo []) \<and> pending (ticket_demo []) = [(''u'', Desc)] \<and>
   list_all is_response [Resolve 0 [], Reject 3] \<and>
   content (ticket_render (ticket_run (ticket_demo []) [Reject 0, Resolve 0 [], Reject 3])) = Spinner"
proof -
  have l: "isLoading (ticket_demo [])" and n: "pending (ticket_demo []) = [(''u'', Desc)]"
    by (simp_all add: ticket_demo_def page_simps contentQuery_def)
  have a: "list_all is_response [Resolve 0 [], Reject 3]" by simp
  show ?thesis using failed_query_spinner [OF l n a] l n a by blast
qed

theorem signed_out_mount_witness:
  "pending (ticket_mount None False) = [(''undefined'', Desc)] \<and>
   ticket_reachable fifo_event (ticket_demo [AuthUpdate None False]) \<and>
   \<not> isSigned (ticket_demo [AuthUpdate None False]) \<and>
   Push ''/'' \<in> set (router (ticket_demo [AuthUpdate None False]))"
proof -
  have r: "ticket_reachable fifo_event (ticket_demo [AuthUpdate None False])"
    by (rule ticket_demo_reachable) simp
  have s: "\<not> isSigned (ticket_demo [AuthUpdate None False])"
    by (simp add: ticket_demo_def ticket_mount_def ticket_handler_defs)
  note w = signed_out_mount [of None False fifo_event "ticket_demo [AuthUpdate None False]"]
  show ?thesis using w r s by simp
qed

end
