(* ===== verification/Links.thy ===== *)
theory Links
  imports Prelude
begin

text \<open>
  The link buttons and the detail page they lead to: \<open>InfoButton\<close>
  (\<open>src/components/Ticket/InfoButton.tsx\<close>), \<open>TicketInfoBtn\<close>, \<open>MovieInfoBtn\<close>
  and \<open>UpdateBtn\<close> (\<open>src/components/ticket/\<close>), the props \<open>TopMovieTicket\<close>
  (\<open>src/components/home/TopMovieTicket.tsx\<close>) gives its info button, and
  \<open>UserTicketDetailPage\<close> (\<open>src/components/user-ticket-detail/\<close>), which
  reads its data back from \<open>router.query\<close>. Props and query objects are
  JavaScript objects, association lists from keys to values; what Next.js
  makes of a link's query object when it navigates is modelled from the
  Next.js URL helpers (\<open>urlQueryToSearchParams\<close>, \<open>searchParamsToUrlQuery\<close>).
\<close>

section \<open>JavaScript values and objects\<close>

text \<open>
  The values the props and queries carry: \<open>undefined\<close>, a string, a number
  (by its decimal text), an array of strings.
\<close>

datatype jv = JUndef | JStr string | JNum string | JArr "string list"

type_synonym js_obj = "(string \<times> jv) list"

text \<open>Property access \<open>obj.k\<close>: a missing key reads \<open>undefined\<close>.\<close>

definition js_prop :: "js_obj \<Rightarrow> string \<Rightarrow> jv" where
  "js_prop obj k = (case map_of obj k of None \<Rightarrow> JUndef | Some v \<Rightarrow> v)"

text \<open>\<open>`${v}`\<close>: arrays join with commas.\<close>

fun join_comma :: "string list \<Rightarrow> string" where
  "join_comma [] = []"
| "join_comma [x] = x"
| "join_comma (x # y # zs) = x @ '','' @ join_comma (y # zs)"

fun jv_template :: "jv \<Rightarrow> string" where
  "jv_template JUndef = ''undefined''"
| "jv_template (JStr s) = s"
| "jv_template (JNum s) = s"
| "jv_template (JArr xs) = join_comma xs"

text \<open>Truthiness: every array is truthy, \<open>''\<close> and \<open>0\<close> are not.\<close>

fun truthy :: "jv \<Rightarrow> bool" where
  "truthy JUndef \<longleftrightarrow> False"
| "truthy (JStr s) \<longleftrightarrow> s \<noteq> []"
| "truthy (JNum s) \<longleftrightarrow> s \<noteq> ''0'' \<and> s \<noteq> ''NaN''"
| "truthy (JArr xs) \<longleftrightarrow> True"

text \<open>\<open>Array.isArray\<close>.\<close>

fun is_array :: "jv \<Rightarrow> bool" where
  "is_array (JArr xs) \<longleftrightarrow> True"
| "is_array v \<longleftrightarrow> False"

text \<open>What React renders for a value as a child: nothing for \<open>undefined\<close>.\<close>

fun jsx_text :: "jv \<Rightarrow> string" where
  "jsx_text JUndef = []"
| "jsx_text (JStr s) = s"
| "jsx_text (JNum s) = s"
| "jsx_text (JArr xs) = concat xs"

text \<open>The decimal text of an integer, \<open>`${n}`\<close>.\<close>

fun nat_str :: "nat \<Rightarrow> string" where
  "nat_str n = (if n < 10 then [char_of (48 + n)] else nat_str (n div 10) @ [char_of (48 + n mod 10)])"

definition int_str :: "int \<Rightarrow> string" where
  "int_str i = (if i < 0 then CHR ''-'' # nat_str (nat (- i)) else nat_str (nat i))"

declare nat_str.simps [simp del]

section \<open>Navigation\<close>

text \<open>
  A \<open>Link\<close>: the \<open>href\<close> object's \<open>pathname\<close> and \<open>query\<close>, and the \<open>as\<close>
  path shown in the address bar.
\<close>

record link =
  href_pathname :: string
  href_query :: js_obj
  link_as :: "string option"

text \<open>
  Next.js serialises the query into search parameters and parses them back
  into \<open>router.query\<close>: a scalar becomes its text (\<open>undefined\<close> the empty
  text), an empty array disappears, a one-element array becomes its element,
  a longer array stays an array.
\<close>

fun next_param :: "jv \<Rightarrow> jv option" where
  "next_param JUndef = Some (JStr [])"
| "next_param (JStr s) = Some (JStr s)"
| "next_param (JNum s) = Some (JStr s)"
| "next_param (JArr []) = None"
| "next_param (JArr [x]) = Some (JStr x)"
| "next_param (JArr (x # y # zs)) = Some (JArr (x # y # zs))"

definition next_query :: "js_obj \<Rightarrow> js_obj" where
  "next_query obj = concat (map (\<lambda>(k, v). case next_param v of None \<Rightarrow> [] | Some w \<Rightarrow> [(k, w)]) obj)"

text \<open>The detail path: \<open>/title\<close> at the root, \<open>pathname/title\<close> elsewhere.\<close>

definition route_path :: "string \<Rightarrow> string \<Rightarrow> string" where
  "route_path pathname x = (if pathname = ''/'' then ''/'' @ x else pathname @ ''/'' @ x)"

text \<open>
  A dynamic route reads its parameter from the last path segment, and a
  numeric parameter is read back with \<open>Number\<close>: decimal digits, optionally
  after a minus sign.
\<close>

definition last_segment :: "string \<Rightarrow> string" where
  "last_segment path = rev (takeWhile (\<lambda>c. c \<noteq> CHR ''/'') (rev path))"

definition digit_val :: "char \<Rightarrow> nat option" where
  "digit_val c = (if 48 \<le> (of_char c :: nat) \<and> (of_char c :: nat) \<le> 57 then Some (of_char c - 48) else None)"

fun parse_digits :: "nat \<Rightarrow> string \<Rightarrow> nat option" where
  "parse_digits acc [] = Some acc"
| "parse_digits acc (c # cs) = (case digit_val c of None \<Rightarrow> None | Some d \<Rightarrow> parse_digits (10 * acc + d) cs)"

definition parse_nat :: "string \<Rightarrow> nat option" where
  "parse_nat s = (if s = [] then None else parse_digits 0 s)"

definition parse_int :: "string \<Rightarrow> int option" where
  "parse_int s =
     (if s \<noteq> [] \<and> hd s = CHR ''-'' then map_option (\<lambda>n. - int n) (parse_nat (tl s))
      else map_option int (parse_nat s))"

section \<open>The buttons\<close>

definition poster_url :: "string" where
  "poster_url = ''https://image.tmdb.org/t/p/w500/''"

definition InfoButton :: "string \<Rightarrow> js_obj \<Rightarrow> link" where
  "InfoButton pathname props =
     (let path = route_path pathname (jv_template (js_prop props ''title''))
      in \<lparr>href_pathname = path,
          href_query =
            [(''title'', js_prop props ''title''),
             (''releaseDate'', js_prop props ''releaseYear''),
             (''posterImage'', JStr (poster_url @ jv_template (js_prop props ''posterPath''))),
             (''voteAverage'', js_prop props ''voteAverage''),
             (''janre'', js_prop props ''janre''),
             (''overview'', js_prop props ''overview'')],
          link_as = Some path\<rparr>)"

definition TicketInfoBtn :: "string \<Rightarrow> js_obj \<Rightarrow> link" where
  "TicketInfoBtn pathname props =
     (let path = pathname @ ''/'' @ jv_template (js_prop props ''title'')
      in \<lparr>href_pathname = path,
          href_query =
            [(''title'', js_prop props ''title''),
             (''releaseYear'', js_prop props ''releaseYear''),
             (''posterImage'', js_prop props ''posterImage''),
             (''rating'', js_prop props ''rating''),
             (''reviewText'', js_prop props ''reviewText'')],
          link_as = Some path\<rparr>)"

definition MovieInfoBtn :: "string \<Rightarrow> int \<Rightarrow> link" where
  "MovieInfoBtn pathname movieId =
     \<lparr>href_pathname = route_path pathname (int_str movieId), href_query = [], link_as = None\<rparr>"

definition update_keys :: "string list" where
  "update_keys = [''ticketId'', ''title'', ''releaseYear'', ''rating'', ''reviewText'', ''posterImage'']"

definition UpdateBtn :: "js_obj \<Rightarrow> link" where
  "UpdateBtn props =
     \<lparr>href_pathname = ''/write'', href_query = map (\<lambda>k. (k, js_prop props k)) update_keys,
      link_as = Some ''/write''\<rparr>"

text \<open>
  \<open>TopMovieTicket\<close>: a movie of the TMDB list, its genres from
  \<open>useGetJanres\<close>, and the props it passes to \<open>InfoButton\<close>
  (\<open>releaseDate.slice(0, 4)\<close> as \<open>releaseYear\<close>, the genres as \<open>janres\<close>).
\<close>

record movie_data =
  movieId :: int
  releaseDate :: string
  movieIndex :: int
  movie_title :: string
  posterPath :: "string js_opt"
  voteAverage :: string
  overview :: string

definition topMovie_info_props :: "movie_data \<Rightarrow> string list \<Rightarrow> js_obj" where
  "topMovie_info_props m janres =
     [(''movieId'', JNum (int_str (movieId m))),
      (''title'', JStr (movie_title m)),
      (''releaseYear'', JStr (take 4 (releaseDate m))),
      (''posterPath'', (case posterPath m of None \<Rightarrow> JUndef | Some s \<Rightarrow> JStr s)),
      (''voteAverage'', JNum (voteAverage m)),
      (''janres'', JArr janres),
      (''overview'', JStr (overview m))]"

text \<open>
  What \<open>TopMovieTicket\<close> renders: the index bar on the current route, the
  rank, the info button, and the props of the poster and of the ticket's
  detail strip (\<open>PosterImage\<close> and \<open>MovieTicketDetail\<close> are not in \<open>src/\<close>).
\<close>

record top_movie_view =
  index_routePath :: string
  movie_rank :: int
  info_link :: link
  poster_props :: js_obj
  detail_props :: js_obj

definition TopMovieTicket :: "string \<Rightarrow> movie_data \<Rightarrow> string list \<Rightarrow> top_movie_view" where
  "TopMovieTicket pathname m janres =
     (let pp = (case posterPath m of None \<Rightarrow> JUndef | Some s \<Rightarrow> JStr s)
      in \<lparr>index_routePath = pathname, movie_rank = movieIndex m,
          info_link = InfoButton pathname (topMovie_info_props m janres),
          poster_props = [(''title'', JStr (movie_title m)), (''posterPath'', pp)],
          detail_props =
            [(''title'', JStr (movie_title m)), (''releaseYear'', JStr (take 4 (releaseDate m))),
             (''janres'', JArr janres), (''voteAverage'', JNum (voteAverage m)), (''posterPath'', pp)]\<rparr>)"

section \<open>The detail page\<close>

record detail_page =
  dp_isLoading :: bool
  dp_query :: js_obj
  dp_router :: "nav list"

text \<open>
  The first render and the mount effect: \<open>setIsLoading(true)\<close>; without a
  \<open>title\<close> in the query, push \<open>/ticket-list\<close> and return, else
  \<open>setIsLoading(false)\<close>.
\<close>

definition detail_mount :: "js_obj \<Rightarrow> detail_page" where
  "detail_mount q =
     (let p = \<lparr>dp_isLoading = True, dp_query = q, dp_router = []\<rparr>
      in if js_prop q ''title'' = JUndef then p\<lparr>dp_router := [Push ''/ticket-list'']\<rparr>
         else p\<lparr>dp_isLoading := False\<rparr>)"

datatype poster = NoneImg | Img string

record detail_view =
  dv_poster :: poster
  dv_heading :: string
  dv_rating :: string
  dv_janres :: "string list option"
  dv_review :: string

datatype detail_screen = LoadingMsg | Details detail_view

text \<open>
  The render: \<open>janreArr.map\<close> on a truthy value that is not an array throws.
\<close>

definition detail_render :: "detail_page \<Rightarrow> render_error + detail_screen" where
  "detail_render p =
     (if dp_isLoading p then Inr LoadingMsg
      else let q = dp_query p; janre = js_prop q ''janre''
      in if truthy janre \<and> \<not> is_array janre then Inl (TypeError ''janreArr.map is not a function'')
         else Inr (Details
           \<lparr>dv_poster = (if truthy (js_prop q ''posterImage'') then Img (jsx_text (js_prop q ''posterImage'')) else NoneImg),
            dv_heading = jsx_text (js_prop q ''title'') @ ''('' @ jsx_text (js_prop q ''releaseYear'') @ '')'',
            dv_rating = jsx_text (js_prop q ''voteAverage'') @ '' /10'',
            dv_janres = (case janre of JArr xs \<Rightarrow> Some xs | _ \<Rightarrow> None),
            dv_review = jsx_text (js_prop q ''overview'')\<rparr>))"

text \<open>Following a link to the detail page.\<close>

definition visit :: "link \<Rightarrow> render_error + detail_screen" where
  "visit l = detail_render (detail_mount (next_query (href_query l)))"

section \<open>Properties\<close>

text \<open>What \<open>router.query\<close> holds for a key of a link's query object.\<close>

lemma map_of_next_query:
  "distinct (map fst obj) \<Longrightarrow> map_of (next_query obj) k = Option.bind (map_of obj k) next_param"
proof (induction obj)
  case Nil
  then show ?case by (simp add: next_query_def)
next
  case (Cons kv obj)
  obtain k' v where kv: "kv = (k', v)" by (cases kv)
  from Cons have "map_of (next_query obj) k = Option.bind (map_of obj k) next_param" by simp
  moreover from Cons.prems kv have "k' = k \<Longrightarrow> map_of obj k = None"
    by (auto simp: map_of_eq_None_iff)
  ultimately show ?case
    using Cons.prems kv by (cases "next_param v") (auto simp: next_query_def)
qed

lemma js_prop_next_query:
  "distinct (map fst obj) \<Longrightarrow>
   js_prop (next_query obj) k = (case Option.bind (map_of obj k) next_param of None \<Rightarrow> JUndef | Some w \<Rightarrow> w)"
  by (simp add: js_prop_def map_of_next_query)

lemma poster_url_truthy [simp]: "truthy (JStr (poster_url @ s))"
  by (simp add: poster_url_def)

lemmas link_defs = InfoButton_def TicketInfoBtn_def UpdateBtn_def update_keys_def route_path_def

lemmas detail_defs = visit_def detail_mount_def detail_render_def

text \<open>
  C24: Following the info button of a top movie on the home page, the detail
  page shows the movie's title followed by empty parentheses (the button sends
  \<open>releaseDate\<close>, the page reads \<open>releaseYear\<close>), no genres (the ticket
  passes \<open>janres\<close>, the button reads \<open>janre\<close>), and a poster whose address
  ends in \<open>undefined\<close> when the movie has no poster path, never the
  \<open>IMAGE IS NONE\<close> box.
\<close>

theorem top_movie_detail:
  "visit (InfoButton pathname (topMovie_info_props m janres)) =
     Inr (Details \<lparr>dv_poster = Img (poster_url @ js_template (posterPath m)),
                   dv_heading = movie_title m @ ''()'',
                   dv_rating = voteAverage m @ '' /10'',
                   dv_janres = None,
                   dv_review = overview m\<rparr>)"
  by (cases "posterPath m")
     (simp_all add: detail_defs InfoButton_def topMovie_info_props_def js_prop_def next_query_def Let_def
                    poster_url_def)

text \<open>
  C25: Following the info button of a user's ticket, the detail page shows
  the title and release year and the poster (the \<open>IMAGE IS NONE\<close> box for an
  empty one), but neither the score nor the review: the button sends
  \<open>rating\<close> and \<open>reviewText\<close>, the page reads \<open>voteAverage\<close> and \<open>overview\<close>.
\<close>

theorem ticket_detail:
  "visit (TicketInfoBtn pathname
      [(''title'', JStr t), (''releaseYear'', JStr y), (''posterImage'', JStr img),
       (''rating'', JStr r), (''reviewText'', JStr rv)]) =
     Inr (Details \<lparr>dv_poster = (if img = [] then NoneImg else Img img),
                   dv_heading = t @ ''('' @ y @ '')'',
                   dv_rating = '' /10'',
                   dv_janres = None,
                   dv_review = []\<rparr>)"
  by (simp add: detail_defs TicketInfoBtn_def js_prop_def next_query_def Let_def)

text \<open>
  C26: What the write page finds in \<open>router.query\<close> after the edit button:
  given a ticket's \<open>WriteFormProps\<close> (its id, title, year, rating as a
  number, review and poster), and whatever other props come after them, the
  query holds exactly the six keys in the button's order, each with the
  prop's text (the rating as a string), and nothing else; the path and the
  address shown are both \<open>/write\<close>.
\<close>

theorem update_roundtrip:
  "next_query (href_query (UpdateBtn
      ([(''ticketId'', JStr i), (''title'', JStr t), (''releaseYear'', JStr y), (''rating'', JNum r),
        (''reviewText'', JStr rv), (''posterImage'', JStr img)] @ extra))) =
     [(''ticketId'', JStr i), (''title'', JStr t), (''releaseYear'', JStr y), (''rating'', JStr r),
      (''reviewText'', JStr rv), (''posterImage'', JStr img)] \<and>
   href_pathname (UpdateBtn props) = ''/write'' \<and> link_as (UpdateBtn props) = Some ''/write''"
  by (simp add: UpdateBtn_def update_keys_def next_query_def js_prop_def)

text \<open>
  C27: Opened without a \<open>title\<close> in its query, the detail page pushes
  \<open>/ticket-list\<close> and keeps showing the loading message.
\<close>

theorem detail_without_title:
  "js_prop q ''title'' = JUndef \<Longrightarrow>
   dp_router (detail_mount q) = [Push ''/ticket-list''] \<and> detail_render (detail_mount q) = Inr LoadingMsg"
  by (simp add: detail_mount_def detail_render_def)

text \<open>
  C28: An info button given a single genre in \<open>janre\<close> leads to a detail page
  whose render throws: Next.js turns a one-element array into a string, and
  the page calls \<open>map\<close> on it.
\<close>

theorem single_genre_crash:
  assumes "js_prop props ''title'' = JStr t" "js_prop props ''janre'' = JArr [g]" "g \<noteq> []"
  shows "visit (InfoButton pathname props) = Inl (TypeError ''janreArr.map is not a function'')"
proof -
  let ?q = "href_query (InfoButton pathname props)"
  have d: "distinct (map fst ?q)" by (simp add: InfoButton_def Let_def)
  have "map_of ?q ''title'' = Some (JStr t)" "map_of ?q ''janre'' = Some (JArr [g])"
    using assms(1,2) by (simp_all add: InfoButton_def Let_def)
  then have "js_prop (next_query ?q) ''title'' = JStr t" "js_prop (next_query ?q) ''janre'' = JStr g"
    by (simp_all add: js_prop_next_query [OF d])
  with assms(3) show ?thesis by (simp add: detail_defs)
qed

text \<open>The decimal text of a number reads back as the number.\<close>

lemma digit_val_char: "n < 10 \<Longrightarrow> digit_val (char_of (48 + n)) = Some n"
  by (simp add: digit_val_def of_char_of)

lemma parse_digits_append:
  "parse_digits acc (xs @ ys) = Option.bind (parse_digits acc xs) (\<lambda>a. parse_digits a ys)"
  by (induction xs arbitrary: acc) (auto split: option.splits)

lemma nat_str_digits: "c \<in> set (nat_str n) \<Longrightarrow> 48 \<le> (of_char c :: nat) \<and> (of_char c :: nat) \<le> 57"
proof (induction n rule: nat_str.induct)
  case (1 n)
  then show ?case
    by (cases "n < 10") (auto simp: nat_str.simps [of n] of_char_of)
qed

lemma nat_str_not_Nil [simp]: "nat_str n \<noteq> []"
  by (simp add: nat_str.simps [of n])

lemma parse_digits_nat_str:
  "parse_digits acc (nat_str n) = Some (acc * 10 ^ length (nat_str n) + n)"
proof (induction n arbitrary: acc rule: nat_str.induct)
  case (1 n)
  show ?case
  proof (cases "n < 10")
    case True
    then show ?thesis by (simp add: nat_str.simps [of n] digit_val_char)
  next
    case False
    then have "parse_digits acc (nat_str n) =
                 parse_digits (acc * 10 ^ length (nat_str (n div 10)) + n div 10) [char_of (48 + n mod 10)]"
      using "1.IH" by (simp add: nat_str.simps [of n] parse_digits_append)
    also have "\<dots> = Some (acc * 10 ^ length (nat_str n) + n)"
      using False by (simp add: nat_str.simps [of n] digit_val_char algebra_simps)
    finally show ?thesis .
  qed
qed

lemma parse_nat_nat_str: "parse_nat (nat_str n) = Some n"
  by (simp add: parse_nat_def parse_digits_nat_str)

lemma hd_nat_str: "hd (nat_str n) \<noteq> CHR ''-''"
proof
  assume "hd (nat_str n) = CHR ''-''"
  moreover have "hd (nat_str n) \<in> set (nat_str n)" by simp
  ultimately show False using nat_str_digits by fastforce
qed

lemma last_segment_route_path:
  assumes "CHR ''/'' \<notin> set x"
  shows "last_segment (route_path pathname x) = x"
proof -
  have "takeWhile (\<lambda>c. c \<noteq> CHR ''/'') (rev x @ CHR ''/'' # r) = rev x" for r
    using assms by (subst takeWhile_append2) auto
  then show ?thesis by (simp add: last_segment_def route_path_def)
qed

lemma slash_not_in_nat_str: "CHR ''/'' \<notin> set (nat_str n)"
  using nat_str_digits by fastforce

text \<open>
  C32: The last segment of the path \<open>MovieInfoBtn\<close> links to reads back, as
  a number, as the movie's id.
\<close>

theorem movie_route_roundtrip:
  "parse_int (last_segment (href_pathname (MovieInfoBtn pathname mid))) = Some mid"
proof -
  have "CHR ''/'' \<notin> set (int_str mid)"
    using slash_not_in_nat_str by (simp add: int_str_def)
  then have "last_segment (href_pathname (MovieInfoBtn pathname mid)) = int_str mid"
    by (simp add: MovieInfoBtn_def last_segment_route_path)
  then show ?thesis
    by (simp add: parse_int_def int_str_def parse_nat_nat_str hd_nat_str)
qed

text \<open>Witnesses.\<close>

theorem detail_without_title_witness:
  "js_prop [] ''title'' = JUndef \<and>
   dp_router (detail_mount []) = [Push ''/ticket-list''] \<and> detail_render (detail_mount []) = Inr LoadingMsg"
proof -
  have u: "js_prop [] ''title'' = JUndef" by (simp add: js_prop_def)
  show ?thesis using detail_without_title [OF u] u by blast
qed

theorem single_genre_crash_witness:
  "js_prop [(''title'', JStr ''Up''), (''janre'', JArr [''Drama''])] ''title'' = JStr ''Up'' \<and>
   js_prop [(''title'', JStr ''Up''), (''janre'', JArr [''Drama''])] ''janre'' = JArr [''Drama''] \<and>
   ''Drama'' \<noteq> [] \<and>
   visit (InfoButton ''/'' [(''title'', JStr ''Up''), (''janre'', JArr [''Drama''])]) =
     Inl (TypeError ''janreArr.map is not a function'')"
proof -
  have t: "js_prop [(''title'', JStr ''Up''), (''janre'', JArr [''Drama''])] ''title'' = JStr ''Up''"
    and g: "js_prop [(''title'', JStr ''Up''), (''janre'', JArr [''Drama''])] ''janre'' = JArr [''Drama'']"
    by (simp_all add: js_prop_def)
  have n: "''Drama'' \<noteq> []" by simp
  show ?thesis using single_genre_crash [OF t g n] t g n by blast
qed

end
