(* ===== verification/Home.thy ===== *)
theory Home
  imports Prelude
begin

text \<open>
  \<open>getStaticProps\<close> of the home page \<open>src/pages/index.tsx\<close>: one request to
  the TMDB popular-movies endpoint; the first ten results become the page's
  props, regenerated at most once a day; any failure, including a response
  without \<open>results\<close> (whose \<open>splice\<close> throws inside the \<open>try\<close>), makes the
  page a 404. The request itself is a parameter: what \<open>axios.get\<close> answers
  for a URL.
\<close>

text \<open>
  What \<open>axios.get\<close> gives: a rejection, or a response whose \<open>data.results\<close>
  is absent or a list.
\<close>

datatype 'm axios_result = AxiosError | AxiosOk "'m list js_opt"

datatype 'm static_props = Props "'m list" nat | NotFound

definition popular_url :: "string js_opt \<Rightarrow> string" where
  "popular_url key =
     ''https://api.themoviedb.org/3/movie/popular?api_key='' @ js_template key @ ''&language=ko-KR''"

definition revalidate :: nat where
  "revalidate = 86400"

definition getStaticProps :: "string js_opt \<Rightarrow> (string \<Rightarrow> 'm axios_result) \<Rightarrow> 'm static_props" where
  "getStaticProps key get =
     (case get (popular_url key) of
        AxiosError \<Rightarrow> NotFound
      | AxiosOk None \<Rightarrow> NotFound
      | AxiosOk (Some results) \<Rightarrow> Props (take 10 results) revalidate)"

section \<open>Properties\<close>

lemma getStaticProps_length: "getStaticProps key get = Props ms r \<Longrightarrow> length ms \<le> 10"
  by (auto simp: getStaticProps_def split: axios_result.splits option.splits)

text \<open>
  C29: The home page is built exactly when the popular-movies request answers
  with a result list; it then gets the first ten movies of that list in order
  (all of them when there are fewer) and is regenerated after a day.
\<close>

theorem home_props:
  "getStaticProps key get = Props ms r \<longleftrightarrow>
   (\<exists>results. get (popular_url key) = AxiosOk (Some results) \<and> ms = take 10 results \<and> r = 86400)"
  by (auto simp: getStaticProps_def revalidate_def split: axios_result.splits option.splits)

end
