(* ===== verification/Header.thy ===== *)
theory Header
  imports Prelude
begin

text \<open>
  The header menu \<open>Header\<close> of \<open>src/components/layout/Header.tsx\<close>: its items
  by the auth context's \<open>isSigned\<close>, and the sign-out handler. The handler's
  outcome is a parameter of the click: a successful sign-out reloads the page.
\<close>

datatype menu_action = LinkTo string | SignOutClick

definition header_menu :: "bool \<Rightarrow> (string \<times> menu_action) list" where
  "header_menu isSigned =
     [(''HOME'', LinkTo ''/'')] @
     (if isSigned then [(''MY TICKETS'', LinkTo ''/ticket-list'')] else []) @
     [if isSigned then (''LOGOUT'', SignOutClick) else (''SIGN IN'', LinkTo ''/sign-in'')] @
     [(''SEARCH'', LinkTo ''/search'')]"

record header_state =
  h_signOut_calls :: nat
  h_router :: "nav list"

text \<open>
  \<open>onSignOutHandler\<close>: \<open>signOut()\<close>, then \<open>router.reload()\<close>; on failure the
  handler returns an \<open>Error\<close> element, which the click handler's caller
  discards, so nothing is shown.
\<close>

definition onSignOutHandler :: "bool \<Rightarrow> header_state \<Rightarrow> header_state" where
  "onSignOutHandler ok h =
     (let h' = h\<lparr>h_signOut_calls := Suc (h_signOut_calls h)\<rparr>
      in if ok then h'\<lparr>h_router := h_router h' @ [Reload]\<rparr> else h')"

section \<open>Properties\<close>

text \<open>
  C30: The header offers the ticket list and the logout item exactly when the
  user is signed in, and the sign-in link exactly when not; home and search
  are always there. The logout item's handler calls \<open>signOut\<close> once and
  reloads the page exactly when the call succeeds; a failure changes nothing
  else.
\<close>

theorem header_menu_items:
  "(LinkTo ''/ticket-list'' \<in> snd ` set (header_menu s) \<longleftrightarrow> s) \<and>
   (SignOutClick \<in> snd ` set (header_menu s) \<longleftrightarrow> s) \<and>
   (LinkTo ''/sign-in'' \<in> snd ` set (header_menu s) \<longleftrightarrow> \<not> s) \<and>
   LinkTo ''/'' \<in> snd ` set (header_menu s) \<and> LinkTo ''/search'' \<in> snd ` set (header_menu s) \<and>
   h_signOut_calls (onSignOutHandler ok h) = Suc (h_signOut_calls h) \<and>
   h_router (onSignOutHandler ok h) = h_router h @ (if ok then [Reload] else [])"
  by (cases s) (auto simp: header_menu_def onSignOutHandler_def Let_def)

end
