(* ===== verification/Theme.thy ===== *)
theory Theme
  imports Prelude
begin

text \<open>
  The theme object of \<open>src/styles/theme.ts\<close> and what styled-components does
  with the interpolations of a styled template: each \<open>${...}\<close> is a function of
  the props and the theme, evaluated left to right when the component renders;
  a falsy result (such as \<open>undefined\<close>) contributes nothing, a string its
  text, and reading a property of \<open>undefined\<close> throws a \<open>TypeError\<close> that
  aborts the render. The CSS text of a template is kept line by line, trimmed;
  CSS comments, which do not affect the style, are dropped.
\<close>

section \<open>The theme\<close>

datatype tv = TStr string | TObj "(string \<times> tv) list"

text \<open>A multi-line template literal: each line after a line break.\<close>

definition css_text :: "string list \<Rightarrow> string" where
  "css_text ls = concat (map (\<lambda>l. CHR 0x0A # l) ls)"

definition theme :: tv where
  "theme =
     TObj [(''colors'', TObj [(''black'', TStr ''#141414''), (''gray'', TStr ''#C2C2C2''),
                              (''orange'', TStr ''#F68924''), (''yellow'', TStr ''#F6EE24'')]),
           (''scrollbarStyle'',
              TObj [(''scrollbarReset'',
                       TStr (css_text [''-ms-overflow-style: none;'', ''scrollbar-width: none;'',
                                       ''&::-webkit-scrollbar {'', ''display: none;'', ''}'']))])]"

section \<open>Styled templates\<close>

text \<open>
  A part of a template line: CSS text, \<open>({ theme }) => theme.a.b\<close>, or
  \<open>({ p }) => (p ? x : y)\<close> on a boolean prop.
\<close>

datatype css_part = Css string | ThemeRef "string list" | PropIf string "css_part list" "css_part list"

type_synonym css_template = "css_part list list"

definition undefined_read :: "string \<Rightarrow> string" where
  "undefined_read k = ''Cannot read properties of undefined (reading '' @ [CHR 0x27] @ k @ [CHR 0x27] @ '')''"

datatype tlook = TFound tv | TUndef

text \<open>
  \<open>theme.a.b...\<close>: a missing key reads \<open>undefined\<close>, and reading on from
  \<open>undefined\<close> throws. The theme's strings have none of the keys read.
\<close>

fun theme_path :: "tv \<Rightarrow> string list \<Rightarrow> render_error + tlook" where
  "theme_path v [] = Inr (TFound v)"
| "theme_path (TObj kvs) (k # ks) =
     (case map_of kvs k of
        Some v \<Rightarrow> theme_path v ks
      | None \<Rightarrow> (if ks = [] then Inr TUndef else Inl (TypeError (undefined_read (hd ks)))))"
| "theme_path (TStr s) (k # ks) = (if ks = [] then Inr TUndef else Inl (TypeError (undefined_read (hd ks))))"

text \<open>The text an interpolated value contributes (no interpolation yields an object).\<close>

fun interp_text :: "tlook \<Rightarrow> string" where
  "interp_text (TFound (TStr s)) = s"
| "interp_text _ = []"

fun eval_part :: "tv \<Rightarrow> (string \<Rightarrow> bool) \<Rightarrow> css_part \<Rightarrow> render_error + string"
and eval_parts :: "tv \<Rightarrow> (string \<Rightarrow> bool) \<Rightarrow> css_part list \<Rightarrow> render_error + string" where
  "eval_part th ps (Css s) = Inr s"
| "eval_part th ps (ThemeRef path) = map_sum id interp_text (theme_path th path)"
| "eval_part th ps (PropIf k a b) = eval_parts th ps (if ps k then a else b)"
| "eval_parts th ps [] = Inr []"
| "eval_parts th ps (x # xs) =
     (case eval_part th ps x of
        Inl e \<Rightarrow> Inl e
      | Inr s \<Rightarrow> map_sum id (\<lambda>t. s @ t) (eval_parts th ps xs))"

text \<open>The CSS of a rendered component, line by line; the first throw aborts it.\<close>

fun css_eval :: "tv \<Rightarrow> (string \<Rightarrow> bool) \<Rightarrow> css_template \<Rightarrow> render_error + string list" where
  "css_eval th ps [] = Inr []"
| "css_eval th ps (l # ls) =
     (case eval_parts th ps l of
        Inl e \<Rightarrow> Inl e
      | Inr s \<Rightarrow> map_sum id (\<lambda>ss. s # ss) (css_eval th ps ls))"

text \<open>The theme paths a template reads under given props.\<close>

fun part_refs :: "(string \<Rightarrow> bool) \<Rightarrow> css_part \<Rightarrow> string list list"
and parts_refs :: "(string \<Rightarrow> bool) \<Rightarrow> css_part list \<Rightarrow> string list list" where
  "part_refs ps (Css s) = []"
| "part_refs ps (ThemeRef path) = [path]"
| "part_refs ps (PropIf k a b) = parts_refs ps (if ps k then a else b)"
| "parts_refs ps [] = []"
| "parts_refs ps (x # xs) = part_refs ps x @ parts_refs ps xs"

definition template_refs :: "(string \<Rightarrow> bool) \<Rightarrow> css_template \<Rightarrow> string list list" where
  "template_refs ps t = concat (map (parts_refs ps) t)"

section \<open>Properties\<close>

text \<open>A template's render throws exactly when one of the paths it reads throws.\<close>

lemma isl_map_sum [simp]: "isl (map_sum f g s) = isl s"
  by (cases s) simp_all

lemma eval_part_refs:
  "isl (eval_part th ps x) \<longleftrightarrow> (\<exists>p \<in> set (part_refs ps x). isl (theme_path th p))"
  "isl (eval_parts th ps xs) \<longleftrightarrow> (\<exists>p \<in> set (parts_refs ps xs). isl (theme_path th p))"
  by (induction th ps x and th ps xs rule: eval_part_eval_parts.induct) (auto split: sum.splits)

lemma css_eval_isl: "isl (css_eval th ps t) \<longleftrightarrow> (\<exists>l \<in> set t. isl (eval_parts th ps l))"
  by (induction t) (auto split: sum.splits)

lemma css_eval_refs:
  "isl (css_eval th ps t) \<longleftrightarrow> (\<exists>p \<in> set (template_refs ps t). isl (theme_path th p))"
  unfolding css_eval_isl eval_part_refs(2) template_refs_def by auto

lemma theme_path_pair: "isl (theme_path theme [a, b]) \<longleftrightarrow> a \<notin> {''colors'', ''scrollbarStyle''}"
  by (auto simp: theme_def split: option.splits)

text \<open>
  C35: With the repository's theme, a styled component whose interpolations
  read two-key theme paths fails to render exactly when one of the paths it
  reads (under its props) starts with a key other than \<open>colors\<close> and
  \<open>scrollbarStyle\<close>, such as \<open>device\<close> or \<open>space\<close>.
\<close>

theorem theme_throws_iff:
  assumes "\<forall>p \<in> set (template_refs ps t). length p = 2"
  shows "isl (css_eval theme ps t) \<longleftrightarrow>
         (\<exists>p \<in> set (template_refs ps t). hd p \<notin> {''colors'', ''scrollbarStyle''})"
proof -
  have "isl (theme_path theme p) \<longleftrightarrow> hd p \<notin> {''colors'', ''scrollbarStyle''}"
    if "p \<in> set (template_refs ps t)" for p
  proof -
    from assms that obtain a b where "p = [a, b]"
      by (metis (no_types, lifting) One_nat_def Suc_length_conv length_0_conv numeral_2_eq_2)
    then show ?thesis by (simp add: theme_path_pair)
  qed
  then show ?thesis unfolding css_eval_refs by blast
qed

theorem theme_throws_iff_witness:
  "template_refs (\<lambda>_. False) [[ThemeRef [''device'', ''tablet''], Css '' {'']] = [[''device'', ''tablet'']] \<and>
   isl (css_eval theme (\<lambda>_. False) [[ThemeRef [''device'', ''tablet''], Css '' {'']])"
proof -
  have h: "\<forall>p \<in> set (template_refs (\<lambda>_. False) [[ThemeRef [''device'', ''tablet''], Css '' {'']]). length p = 2"
    by (simp add: template_refs_def)
  show ?thesis using theme_throws_iff [OF h] h by (simp add: template_refs_def)
qed

end
