(* ===== verification/Styles.thy ===== *)
theory Styles
  imports Theme
begin

text \<open>
  The styled components of the modelled pages, one definition per
  \<open>styled.tag`...`\<close> block, named after the file's component: \<open>signIn_\<close>
  (\<open>src/pages/sign-in/index.tsx\<close>), \<open>legacy_\<close> (\<open>src/pages/signin/index.tsx\<close>),
  \<open>ticketList_\<close>, \<open>header_\<close>, \<open>detail_\<close> (\<open>UserTicketDetailPage\<close>),
  \<open>topMovie_\<close> (\<open>TopMovieTicket\<close>) and \<open>info_\<close> (\<open>InfoButton\<close>). Each
  template line is a list of parts: CSS text and the interpolations.
\<close>

section \<open>Templates\<close>

definition signIn_LoginFormWrapper :: css_template where
  "signIn_LoginFormWrapper =
     [[Css ''display: flex;''],
      [Css ''flex-direction: column;''],
      [Css ''justify-content: center;''],
      [Css ''align-items: center;'']]"

definition signIn_LoginForTitle :: css_template where
  "signIn_LoginForTitle =
     [[Css ''font-size: 1.2rem;''],
      [Css ''font-weight: 700;''],
      [Css ''color: #fff;''],
      [Css ''margin-top: 1.5rem;''],
      [Css ''margin-bottom: 3rem;''],
      [ThemeRef [''device'', ''desktop''], Css '' {''],
      [Css ''font-size: 1.5rem;''],
      [Css ''margin-bottom: 2rem;''],
      [Css ''padding-left: 0;''],
      [Css ''}'']]"

definition signIn_LoginForm :: css_template where
  "signIn_LoginForm =
     [[Css ''display: flex;''],
      [Css ''flex-direction: column;''],
      [Css ''justify-content: center;''],
      [Css ''width: 18rem;''],
      [Css ''margin-bottom: 1.5rem;''],
      [Css ''label {''],
      [Css ''font-size: 0.8rem;''],
      [Css ''color: '', ThemeRef [''colors'', ''gray''], Css '';''],
      [Css ''margin-left: 0.5rem;''],
      [Css ''margin-bottom: 0.4rem;''],
      [Css ''}'']]"

definition signIn_StyledInput :: css_template where
  "signIn_StyledInput =
     [[Css ''width: 100%;''],
      [Css ''padding: 0.8rem 1rem;''],
      [Css ''border-radius: 1rem;''],
      [Css ''font-weight: 700;''],
      [Css ''border: none;''],
      [Css ''margin-top: 0.2rem;''],
      [Css ''&[type='password'] {''],
      [Css ''font-family: -apple-system, BlinkMacSystemFont, 'Segoe UI', Roboto, Oxygen,''],
      [Css ''Ubuntu, Cantarell, 'Open Sans', 'Helvetica Neue', sans-serif;''],
      [Css ''}''],
      [Css ''&:focus {''],
      [Css ''border-color: '', ThemeRef [''colors'', ''orange''], Css '';''],
      [Css ''box-shadow: 0 0 10px '', ThemeRef [''colors'', ''orange''], Css '';''],
      [Css ''}'']]"

definition signIn_ValidationMsg :: css_template where
  "signIn_ValidationMsg =
     [[Css ''visibility: '', PropIf ''isState'' [Css ''hidden''] [Css ''visible''], Css '';''],
      [Css ''font-size: 0.7rem;''],
      [Css ''color: '', PropIf ''isState'' [Css ''#fff''] [ThemeRef [''colors'', ''orange'']], Css '';''],
      [Css ''width: 100%;''],
      [Css ''height: 1rem;''],
      [Css ''padding-left: 0.2rem;''],
      [Css ''margin-top: 0.4rem;''],
      [Css ''margin-bottom: 1rem;'']]"

definition signIn_ErrorMsg :: css_template where
  "signIn_ErrorMsg =
     [[Css ''font-size: 0.7rem;''],
      [Css ''color: red;''],
      [Css ''margin-bottom: 1rem;'']]"

definition signIn_LoginBtn :: css_template where
  "signIn_LoginBtn =
     [[Css ''font-size: 1rem;''],
      [Css ''font-weight: 700;''],
      [Css ''padding: 1rem 2rem;''],
      [Css ''background-color: '', ThemeRef [''colors'', ''orange''], Css '';''],
      [Css ''border-radius: 1.4rem;''],
      [Css ''margin-top: 1.5rem;''],
      [Css ''&:active {''],
      [Css ''color: '', ThemeRef [''colors'', ''yellow''], Css '';''],
      [Css ''}''],
      [Css ''&:disabled {''],
      [Css ''background-color: '', ThemeRef [''colors'', ''gray''], Css '';''],
      [Css ''color: '', ThemeRef [''colors'', ''black''], Css '';''],
      [Css ''}'']]"

definition signIn_ToggleText :: css_template where
  "signIn_ToggleText =
     [[Css ''font-size: 1rem;''],
      [Css ''color: #fff;''],
      [Css ''text-align: center;''],
      [Css ''margin-top: 1.2rem;''],
      [Css ''margin-bottom: 3.5rem;''],
      [Css ''cursor: pointer;'']]"

definition signIn_SocialSignInWrapper :: css_template where
  "signIn_SocialSignInWrapper =
     [[Css ''display: flex;''],
      [Css ''justify-content: center;''],
      [Css ''align-items: center;'']]"

definition signIn_SocialSignInIcon :: css_template where
  "signIn_SocialSignInIcon =
     [[Css ''display: flex;''],
      [Css ''justify-content: center;''],
      [Css ''align-items: center;''],
      [Css ''button {''],
      [Css ''font-size: 0.8rem;''],
      [Css ''color: '', ThemeRef [''colors'', ''gray''], Css '';''],
      [Css ''&:hover,''],
      [Css ''&:active {''],
      [Css ''color: #fff;''],
      [Css ''transition: color ease-in-out 100ms;''],
      [Css ''}''],
      [Css ''svg {''],
      [Css ''color: #fff;''],
      [Css ''font-size: 1.5rem;''],
      [Css ''margin: 0 0.5rem;''],
      [Css ''}''],
      [Css ''}'']]"

definition legacy_LoginFormWrapper :: css_template where
  "legacy_LoginFormWrapper =
     [[Css ''display: flex;''],
      [Css ''flex-direction: column;''],
      [Css ''justify-content: center;''],
      [Css ''align-items: center;'']]"

definition legacy_LoginForTitle :: css_template where
  "legacy_LoginForTitle =
     [[Css ''font-size: 1.2rem;''],
      [Css ''font-weight: 700;''],
      [Css ''color: #fff;''],
      [Css ''margin-bottom: 1.5rem;''],
      [ThemeRef [''device'', ''desktop''], Css '' {''],
      [Css ''font-size: 1.5rem;''],
      [Css ''margin-bottom: 3rem;''],
      [Css ''padding-left: 0;''],
      [Css ''}'']]"

definition legacy_LoginForm :: css_template where
  "legacy_LoginForm =
     [[Css ''display: flex;''],
      [Css ''flex-direction: column;''],
      [Css ''justify-content: center;''],
      [Css ''width: 90%;''],
      [Css ''label {''],
      [Css ''font-size: 0.8rem;''],
      [Css ''color: '', ThemeRef [''colors'', ''gray''], Css '';''],
      [Css ''margin-left: 0.5rem;''],
      [Css ''margin-bottom: 0.4rem;''],
      [Css ''}''],
      [ThemeRef [''device'', ''desktop''], Css '' {''],
      [Css ''width: 30%;''],
      [Css ''}'']]"

definition legacy_StyledInput :: css_template where
  "legacy_StyledInput =
     [[Css ''width: 100%;''],
      [Css ''padding: 0.8rem 1rem;''],
      [Css ''border-radius: 1rem;''],
      [Css ''margin-bottom: 0.8rem;''],
      [Css ''font-weight: 700;''],
      [Css ''&[type='password'] {''],
      [Css ''font-family: -apple-system, BlinkMacSystemFont, 'Segoe UI', Roboto, Oxygen,''],
      [Css ''Ubuntu, Cantarell, 'Open Sans', 'Helvetica Neue', sans-serif;''],
      [Css ''}''],
      [Css ''&:focus {''],
      [Css ''border: none;''],
      [Css ''border-color: '', ThemeRef [''colors'', ''orange''], Css '';''],
      [Css ''box-shadow: 0 0 10px '', ThemeRef [''colors'', ''orange''], Css '';''],
      [Css ''}'']]"

definition legacy_ValidationMsg :: css_template where
  "legacy_ValidationMsg =
     [[Css ''font-size: 0.7rem;''],
      [Css ''color: '', PropIf ''isState'' [Css ''#fff''] [ThemeRef [''colors'', ''orange'']], Css '';''],
      [Css ''margin-bottom: 1rem;''],
      [Css ''padding-left: 0.2rem;'']]"

definition legacy_ErrorMsg :: css_template where
  "legacy_ErrorMsg =
     [[Css ''font-size: 0.7rem;''],
      [Css ''color: red;''],
      [Css ''margin-bottom: 1rem;'']]"

definition legacy_LoginBtn :: css_template where
  "legacy_LoginBtn =
     [[Css ''font-size: 1rem;''],
      [Css ''font-weight: 700;''],
      [Css ''padding: 1rem 2rem;''],
      [Css ''background-color: '', ThemeRef [''colors'', ''orange''], Css '';''],
      [Css ''border-radius: 1.4rem;''],
      [Css ''margin-top: 0.5rem;''],
      [Css ''margin-bottom: 2rem;''],
      [Css ''&:hover,''],
      [Css ''&:active {''],
      [Css ''color: '', ThemeRef [''colors'', ''yellow''], Css '';''],
      [Css ''}''],
      [Css ''&:disabled {''],
      [Css ''background-color: '', ThemeRef [''colors'', ''gray''], Css '';''],
      [Css ''}'']]"

definition legacy_ToggleText :: css_template where
  "legacy_ToggleText =
     [[Css ''font-size: 0.8rem;''],
      [Css ''color: #fff;''],
      [Css ''text-align: center;''],
      [Css ''cursor: pointer;''],
      [Css ''&:hover,''],
      [Css ''&:active {''],
      [Css ''border-bottom: 0.1rem solid #fff;''],
      [Css ''}'']]"

definition ticketList_SortList :: css_template where
  "ticketList_SortList =
     [[Css ''position: absolute;''],
      [Css ''top: 10.5rem;''],
      [Css ''left: 12rem;''],
      [Css ''display: flex;''],
      [Css ''justify-content: center;''],
      [Css ''align-items: center;''],
      [Css ''width: 5.2rem;''],
      [Css ''font-weight: 700;''],
      [Css ''color: #fff;''],
      [Css ''margin-left: 2rem;''],
      [Css ''padding: 0.3rem 0.8rem;''],
      [Css ''border: 0.1rem solid '', ThemeRef [''colors'', ''orange''], Css '';''],
      [Css ''border-radius: 2rem;''],
      [Css ''cursor: pointer;''],
      [Css ''&:hover,''],
      [Css ''&:active {''],
      [Css ''background: linear-gradient(''],
      [ThemeRef [''colors'', ''black''], Css '' 60%,''],
      [ThemeRef [''colors'', ''orange'']],
      [Css '');''],
      [Css ''}''],
      [Css ''p {''],
      [Css ''margin-right: 0.3rem;''],
      [Css ''}''],
      [ThemeRef [''device'', ''tablet''], Css '' {''],
      [Css ''top: 10.1rem;''],
      [Css ''left: 17rem;''],
      [Css ''width: 5rem;''],
      [Css ''font-size: 0.8rem;''],
      [Css ''}''],
      [ThemeRef [''device'', ''desktop''], Css '' {''],
      [Css ''top: 14rem;''],
      [Css ''left: 16rem;''],
      [Css ''}'']]"

definition ticketList_TicketListWrapper :: css_template where
  "ticketList_TicketListWrapper =
     [[Css ''width: 100%;''],
      [Css ''height: 100%;'']]"

definition ticketList_Wrapper :: css_template where
  "ticketList_Wrapper =
     [[Css ''display: flex;''],
      [Css ''justify-content: center;''],
      [Css ''width: 100%;''],
      [Css ''height: 100vh;''],
      [Css ''margin-top: 1rem;'']]"

definition header_HeaderMenu :: css_template where
  "header_HeaderMenu =
     [[Css ''display: flex;''],
      [Css ''justify-content: center;''],
      [Css ''font-weight: 700;''],
      [ThemeRef [''device'', ''tablet''], Css '' {''],
      [Css ''position: absolute;''],
      [Css ''top: 2rem;''],
      [Css ''right: 8rem;''],
      [Css ''font-size: 1.2rem;''],
      [Css ''}''],
      [ThemeRef [''device'', ''desktop''], Css '' {''],
      [Css ''right: 10rem;''],
      [Css ''}'']]"

definition header_HeaderLi :: css_template where
  "header_HeaderLi =
     [[Css ''color: #fff;''],
      [Css ''padding: 0.5rem;''],
      [Css ''cursor: pointer;''],
      [Css ''&:hover,''],
      [Css ''&:active {''],
      [Css ''color: '', ThemeRef [''colors'', ''orange''], Css '';''],
      [Css ''transition: color ease-in-out 150ms;''],
      [Css ''}''],
      [ThemeRef [''device'', ''tablet''], Css '' {''],
      [Css ''color: '', ThemeRef [''colors'', ''yellow''], Css '';''],
      [Css ''}'']]"

definition header_SearchIcon :: css_template where
  "header_SearchIcon =
     [[Css ''position: fixed;''],
      [Css ''top: 3rem;''],
      [Css ''right: '', ThemeRef [''space'', ''mobile''], Css '';''],
      [Css ''z-index: 999;''],
      [Css ''width: 3rem;''],
      [Css ''height: 3rem;''],
      [Css ''font-size: 1.8rem;''],
      [Css ''color: #fff;''],
      [Css ''padding: 0.5rem;''],
      [Css ''border: 0.1rem solid '', ThemeRef [''colors'', ''orange''], Css '';''],
      [Css ''border-radius: 50%;''],
      [Css ''filter: drop-shadow(10px 10px 10px #0000004e);''],
      [Css ''&:hover,''],
      [Css ''&:active {''],
      [Css ''color: '', ThemeRef [''colors'', ''yellow''], Css '';''],
      [Css ''transition: color 150ms ease-in-out;''],
      [Css ''background: linear-gradient(''],
      [ThemeRef [''colors'', ''black''], Css '' 60%,''],
      [ThemeRef [''colors'', ''orange'']],
      [Css '');''],
      [Css ''}''],
      [Css ''#search-icon {''],
      [Css ''margin-top: 2px;''],
      [Css ''margin-left: 1px;''],
      [Css ''}''],
      [ThemeRef [''device'', ''tablet''], Css '' {''],
      [Css ''top: 2rem;''],
      [Css ''right: '', ThemeRef [''space'', ''tablet''], Css '';''],
      [Css ''}''],
      [ThemeRef [''device'', ''desktop''], Css '' {''],
      [Css ''top: 1.5rem;''],
      [Css ''right: '', ThemeRef [''space'', ''tablet''], Css '';''],
      [Css ''}'']]"

definition detail_DetailWrapper :: css_template where
  "detail_DetailWrapper =
     [[Css ''display: flex;''],
      [Css ''justify-content: center;''],
      [Css ''align-items: center;''],
      [Css ''flex-direction: column;''],
      [Css ''width: 100%;''],
      [Css ''height: 100%;''],
      [Css ''margin-top: 2rem;''],
      [ThemeRef [''device'', ''desktop''], Css '' {''],
      [Css ''display: flex;''],
      [Css ''justify-content: center;''],
      [Css ''align-items: center;''],
      [Css ''flex-direction: column;''],
      [Css ''width: 100%;''],
      [Css ''height: 100%;''],
      [Css ''padding: 0 2rem;''],
      [Css ''padding-bottom: 4rem;''],
      [Css ''}'']]"

definition detail_MovieDetails :: css_template where
  "detail_MovieDetails =
     [[Css ''width: 100%;''],
      [Css ''height: 100%;''],
      [Css ''max-width: 600px;''],
      [ThemeRef [''device'', ''desktop''], Css '' {''],
      [Css ''display: flex;''],
      [Css ''justify-content: center;''],
      [Css ''align-items: center;''],
      [Css ''max-width: 100%;''],
      [Css ''background-color: '', ThemeRef [''colors'', ''black''], Css '';''],
      [Css ''}'']]"

definition detail_TextWrapper :: css_template where
  "detail_TextWrapper =
     [[Css ''position: relative;''],
      [Css ''bottom: 0.8rem;''],
      [Css ''left: 0;''],
      [Css ''width: 100%;''],
      [Css ''height: 100%;''],
      [Css ''overflow: hidden;''],
      [Css ''padding: 1.5rem 1rem;''],
      [Css ''border-radius: 1rem;''],
      [Css ''background: linear-gradient(white 70%, '', ThemeRef [''colors'', ''yellow''], Css '');''],
      [ThemeRef [''device'', ''desktop''], Css '' {''],
      [Css ''max-width: 600px;''],
      [Css ''padding: 1.2rem 1rem;''],
      [Css ''margin-left: 2rem;''],
      [Css ''}'']]"

definition detail_ImgBox :: css_template where
  "detail_ImgBox =
     [[Css ''display: flex;''],
      [Css ''justify-content: center;''],
      [Css ''align-items: center;''],
      [Css ''filter: drop-shadow(0px 0px 50px rgba(255, 255, 255, 0.4));''],
      [Css ''Img {''],
      [Css ''width: 100%;''],
      [Css ''max-width: 400px;''],
      [Css ''}'']]"

definition detail_NoneImg :: css_template where
  "detail_NoneImg =
     [[Css ''width: 360px;''],
      [Css ''height: 560px;''],
      [Css ''font-weight: 700;''],
      [Css ''color: black;''],
      [Css ''background-color: '', ThemeRef [''colors'', ''orange''], Css '';''],
      [Css ''text-align: center;''],
      [Css ''padding-top: 2rem;'']]"

definition detail_StyledLabeling :: css_template where
  "detail_StyledLabeling =
     [[Css ''font-size: 0.8rem;''],
      [Css ''font-weight: 700;''],
      [Css ''margin-bottom: 0.3rem;''],
      [Css ''&:first-child {''],
      [Css ''margin-bottom: 0.6rem;''],
      [Css ''}'']]"

definition detail_ContentText :: css_template where
  "detail_ContentText =
     [[Css ''width: 100%;''],
      [Css ''height: 100%;''],
      [Css ''font-size: 1.2rem;''],
      [Css ''margin-bottom: 1rem;''],
      [Css ''overflow-y: scroll;''],
      [ThemeRef [''scrollbarStyle'', ''scrollbarReset'']],
      [Css ''h1 {''],
      [Css ''font-weight: 700;''],
      [Css ''border-bottom: 0.1rem solid '', ThemeRef [''colors'', ''orange''], Css '';''],
      [Css ''padding-bottom: 0.5rem;''],
      [Css ''}'']]"

definition detail_MovieJanreWrapper :: css_template where
  "detail_MovieJanreWrapper =
     [[Css ''display: flex;''],
      [Css ''flex-wrap: wrap;''],
      [Css ''width: 100%;''],
      [Css ''font-size: 1rem;''],
      [Css ''overflow-y: scroll;''],
      [ThemeRef [''scrollbarStyle'', ''scrollbarReset'']],
      [Css ''li {''],
      [Css ''margin-right: 0.4rem;''],
      [Css ''&:last-child {''],
      [Css ''margin-right: 0;''],
      [Css ''}''],
      [Css ''}'']]"

definition detail_OverviweText :: css_template where
  "detail_OverviweText =
     [[Css ''width: 100%;''],
      [Css ''font-size: 1rem;''],
      [Css ''line-height: 1.2rem;''],
      [Css ''padding-bottom: 2rem;'']]"

definition topMovie_MovieRank :: css_template where
  "topMovie_MovieRank =
     [[Css ''font-size: 3rem;'']]"

definition info_StyeldInfo :: css_template where
  "info_StyeldInfo =
     [[Css ''font-size: 1.8rem;''],
      [Css ''color: #fff;''],
      [Css ''&:active,''],
      [Css ''&:hover {''],
      [Css ''color: '', ThemeRef [''colors'', ''orange''], Css '';''],
      [Css ''}'']]"

text \<open>All of them, by name.\<close>

definition app_styles :: "(string \<times> css_template) list" where
  "app_styles =
     [(''signIn_LoginFormWrapper'', signIn_LoginFormWrapper),
      (''signIn_LoginForTitle'', signIn_LoginForTitle),
      (''signIn_LoginForm'', signIn_LoginForm),
      (''signIn_StyledInput'', signIn_StyledInput),
      (''signIn_ValidationMsg'', signIn_ValidationMsg),
      (''signIn_ErrorMsg'', signIn_ErrorMsg),
      (''signIn_LoginBtn'', signIn_LoginBtn),
      (''signIn_ToggleText'', signIn_ToggleText),
      (''signIn_SocialSignInWrapper'', signIn_SocialSignInWrapper),
      (''signIn_SocialSignInIcon'', signIn_SocialSignInIcon),
      (''legacy_LoginFormWrapper'', legacy_LoginFormWrapper),
      (''legacy_LoginForTitle'', legacy_LoginForTitle),
      (''legacy_LoginForm'', legacy_LoginForm),
      (''legacy_StyledInput'', legacy_StyledInput),
      (''legacy_ValidationMsg'', legacy_ValidationMsg),
      (''legacy_ErrorMsg'', legacy_ErrorMsg),
      (''legacy_LoginBtn'', legacy_LoginBtn),
      (''legacy_ToggleText'', legacy_ToggleText),
      (''ticketList_SortList'', ticketList_SortList),
      (''ticketList_TicketListWrapper'', ticketList_TicketListWrapper),
      (''ticketList_Wrapper'', ticketList_Wrapper),
      (''header_HeaderMenu'', header_HeaderMenu),
      (''header_HeaderLi'', header_HeaderLi),
      (''header_SearchIcon'', header_SearchIcon),
      (''detail_DetailWrapper'', detail_DetailWrapper),
      (''detail_MovieDetails'', detail_MovieDetails),
      (''detail_TextWrapper'', detail_TextWrapper),
      (''detail_ImgBox'', detail_ImgBox),
      (''detail_NoneImg'', detail_NoneImg),
      (''detail_StyledLabeling'', detail_StyledLabeling),
      (''detail_ContentText'', detail_ContentText),
      (''detail_MovieJanreWrapper'', detail_MovieJanreWrapper),
      (''detail_OverviweText'', detail_OverviweText),
      (''topMovie_MovieRank'', topMovie_MovieRank),
      (''info_StyeldInfo'', info_StyeldInfo)]"

section \<open>Properties\<close>

lemmas style_defs =
  signIn_LoginFormWrapper_def signIn_LoginForTitle_def signIn_LoginForm_def signIn_StyledInput_def
  signIn_ValidationMsg_def signIn_ErrorMsg_def signIn_LoginBtn_def signIn_ToggleText_def
  signIn_SocialSignInWrapper_def signIn_SocialSignInIcon_def legacy_LoginFormWrapper_def legacy_LoginForTitle_def
  legacy_LoginForm_def legacy_StyledInput_def legacy_ValidationMsg_def legacy_ErrorMsg_def
  legacy_LoginBtn_def legacy_ToggleText_def ticketList_SortList_def ticketList_TicketListWrapper_def
  ticketList_Wrapper_def header_HeaderMenu_def header_HeaderLi_def header_SearchIcon_def
  detail_DetailWrapper_def detail_MovieDetails_def detail_TextWrapper_def detail_ImgBox_def
  detail_NoneImg_def detail_StyledLabeling_def detail_ContentText_def detail_MovieJanreWrapper_def
  detail_OverviweText_def topMovie_MovieRank_def info_StyeldInfo_def

text \<open>\<open>ValidationMsg\<close> of the sign-in page is hidden exactly when \<open>isState\<close> holds.\<close>

lemma signIn_ValidationMsg_visibility:
  "\<exists>ls. css_eval theme ps signIn_ValidationMsg = Inr ls \<and>
        hd ls = (if ps ''isState'' then ''visibility: hidden;'' else ''visibility: visible;'')"
  by (cases "ps ''isState''") (simp_all add: signIn_ValidationMsg_def theme_def)

text \<open>
  C36: Whatever their props, exactly ten of the styled components fail to
  render with the repository's theme, all those that read \<open>theme.device\<close>
  or \<open>theme.space\<close>: the sign-in titles and the older page's form, the ticket
  list's sort button, the whole header menu, and the detail page's wrappers.
\<close>

theorem failing_styles:
  "map fst (filter (\<lambda>(n, t). isl (css_eval theme ps t)) app_styles) =
     [''signIn_LoginForTitle'', ''legacy_LoginForTitle'', ''legacy_LoginForm'',
      ''ticketList_SortList'', ''header_HeaderMenu'', ''header_HeaderLi'',
      ''header_SearchIcon'', ''detail_DetailWrapper'', ''detail_MovieDetails'',
      ''detail_TextWrapper'']"
  unfolding css_eval_refs by (simp add: app_styles_def style_defs template_refs_def theme_path_pair)

end
