(* ===== verification/Spec2Isabelle.thy ===== *)
theory Spec2Isabelle
  imports LegacySignIn TicketList Links Home Header Styles
begin

text \<open>
  \<^bold>\<open>A verification library for JUST-MOVIE-TICKETS.\<close>

  The repository is a Next.js front end: pages that fetch the popular-movies
  list, sign users in through Firebase Auth, list a user's ticket reviews from
  Firestore, and link to detail pages. Its own logic is in the page components'
  handlers and effects, in two validation regular expressions, and in the
  route and query objects the link buttons build. This library models that
  logic as HOL definitions, one theory per part, and proves what it does.

  \<^bold>\<open>Theories.\<close>
  \<^item> \<open>Prelude\<close>: JavaScript values that may be \<open>undefined\<close>, template
    literals, router calls (\<open>nav\<close>), removal of a settled request
    (\<open>drop_nth\<close>), shared list lemmas.
  \<^item> \<open>Regex\<close>: the ECMAScript regular-expression engine on the fragment the
    sources use, modelled from the ECMAScript semantics (it is not code of the
    repository): the backtracking matcher \<open>ends\<close> (repetitions on fuel),
    the search loop \<open>search\<close> of \<open>RegExp.prototype.test\<close>, and the reference
    semantics \<open>matches\<close>. \<open>ends_matches\<close> proves the matcher computes the
    reference semantics; \<open>rep_fuel_enough\<close> proves that the fuel a repetition
    gets, \<open>Suc (length s + mn)\<close>, is never exhausted (every iteration consumes
    a character or counts down the minimum); \<open>search\<close> terminates by the
    measure \<open>Suc (length s) - i\<close>. Patterns without \<open>^\<close>, \<open>$\<close> and lookahead
    (\<open>local_re\<close>) denote languages: \<open>matches_seg\<close> reduces a match of a segment
    to \<open>full_match\<close> of the segment, and concatenation, alternation and
    repetition have the usual language laws (\<open>full_match_Seq_append\<close>,
    \<open>full_match_star_append\<close>).
  \<^item> \<open>Validation\<close>: \<open>emailCheckRegex\<close> and \<open>passwordCheckRegex\<close>, transcribed
    from the literals in \<open>src/pages/sign-in/index.tsx\<close> (lines 90-91 and
    107-108; the same literals are in \<open>src/pages/signin/index.tsx\<close>), and the
    checks \<open>email_ok\<close> and \<open>password_ok\<close> of the change handlers. The password
    check is characterised exactly (C2). The email check refines an abstract
    description of addresses written without regular expressions
    (\<open>email_spec\<close>: some suffix is a local part, \<open>@\<close>, dotted labels or a
    bracketed IP prefix, a top-level part and at most one \<open>]\<close>; C3), proved
    piece by piece through the language lemmas of \<open>Regex\<close>. Its accepted strings
    contain \<open>@\<close> and \<open>.\<close> (C6), include every simple address (C5) and
    every simple address followed by a stray \<open>]\<close> (C12, both from the
    shared lemma \<open>email_simple_matches\<close>), and are closed under any prefix
    because the pattern has no \<open>^\<close> (C7). The password length bounds 8 and
    25 are exact (C13).
  \<^item> \<open>SignIn\<close>: \<open>LoginPage\<close> of \<open>src/pages/sign-in/index.tsx\<close> as a record of
    its hooks (\<open>signin_page\<close>), one definition per handler
    (\<open>onEmailChangeHandler\<close>, \<open>onPasswordChangeHandler\<close>,
    \<open>onSignUpToggleHandler\<close>, \<open>getUser\<close> with \<open>getUser_settle\<close>,
    \<open>onSubmitHandler\<close>, \<open>onSocialSignInHandler\<close>, the \<open>isSigned\<close> effect), a
    step function on events and the reachable states as an inductive
    predicate. The memoised callbacks keep the first render's closure
    (\<open>getUser_scope\<close>), so every email call carries empty credentials (C1);
    the validation flags agree with non-empty fields (C4); the error flag is
    sticky (C9); the rejection and redirect paths leave the loading overlay up,
    and only a fulfilled call or a GitHub or unknown social button brings it
    down again (C8, C10); a submit leaves the button enabled (C11).
  \<^item> \<open>LegacySignIn\<close>: the older \<open>LoginPage\<close> of \<open>src/pages/signin/index.tsx\<close>,
    driven by the same events (\<open>legacy_step\<close>). Its handlers read the current
    render, so a click sends the typed credentials (C14), every call carries
    checked or empty credentials (C15), and a second click sends empty ones
    (C16). Here, in the root, the two pages are compared on the same input
    (C17).
  \<^item> \<open>TicketList\<close>: \<open>TicketListPage\<close> of \<open>src/pages/ticket-list/index.tsx\<close>
    with its query effect (\<open>query_effect\<close>, answered by \<open>query_resolve\<close> or
    failing by \<open>query_reject\<close>), its redirect effect, the sort toggle and the
    auth context as events, and the view; the Firestore query is \<open>getDocs\<close>.
    The query gives the user's tickets in the toggle's order (C18); with
    responses in the order sent, the newest query is current (C19) and the
    settled list answers it (C20); from any state, answers out of order leave
    the list in the old order against the arrow (C21); a failed query leaves
    the spinner for good (C22); a signed-out visit still queries, and every
    reachable signed-out state has pushed \<open>/\<close> (C23).
  \<^item> \<open>Links\<close>: the href objects of \<open>InfoButton\<close>, \<open>TicketInfoBtn\<close>,
    \<open>MovieInfoBtn\<close> and \<open>UpdateBtn\<close>, the props of \<open>TopMovieTicket\<close>, what
    Next.js makes of a query (\<open>next_query\<close>), and \<open>UserTicketDetailPage\<close>
    (\<open>detail_mount\<close>, \<open>detail_render\<close>, with its \<open>TypeError\<close> path). The
    buttons and the page disagree on the keys (C24, C25), the write page
    receives exactly the edit button's six keys, numbers as strings (C26), a
    missing title redirects (C27),
    a single genre crashes the page (C28), and the movie id in
    \<open>MovieInfoBtn\<close>'s path reads back as the id (C32). Here, in the root, a ticket of
    the settled list is followed to its detail page (C31).
  \<^item> \<open>Home\<close>: \<open>getStaticProps\<close> of \<open>src/pages/index.tsx\<close>, the request a
    parameter (C29). \<open>Header\<close>: the menu of
    \<open>src/components/layout/Header.tsx\<close> and its sign-out handler (C30).
  \<^item> \<open>Theme\<close>: the theme object of \<open>src/styles/theme.ts\<close> and the evaluation
    of a styled template's interpolations (\<open>css_eval\<close>): a template fails
    exactly when it reads a theme path the theme lacks (C35).
    \<open>Styles\<close>: every \<open>styled.tag\<close> template of the modelled files, line by
    line; exactly the ten that read \<open>theme.device\<close> or \<open>theme.space\<close> fail
    (C36). Here, in the root, the sign-in page's email \<open>ValidationMsg\<close>
    (\<open>email_msg_css\<close>) is visible exactly when the field is empty and
    unflagged or invalid (C37).
  \<^item> Added in \<open>LegacySignIn\<close>: the older page's own copies of the patterns,
    equivalent to the newer page's (C33). In \<open>TicketList\<close>: from any state a
    sort click and one in-order answer per query in flight settle the page
    in the new order (C34).
  \<^item> Here, in the root, the home page \<open>Home_page\<close> renders
    \<open>TopMovieSlider\<close> over the props of \<open>getStaticProps\<close>; what each
    \<open>TopMovieTicket\<close> links to is C24.

  \<^bold>\<open>Asynchrony.\<close> A Firebase or Firestore call the page awaits is a request
  in flight; settling it is an event of its own, in any order relative to
  other events and other requests. The ticket list's reachable states are
  parameterised by the events the environment allows (\<open>fifo_event\<close>:
  responses in the order sent; \<open>no_reject\<close>: no query fails). Redirect
  sign-ins and sign-out reload or leave the page, so their outcome is a
  parameter of the click.

  \<^bold>\<open>Characters.\<close> HOL's \<open>char\<close> has 8 bits; JavaScript strings are UTF-16.
  The patterns only test ASCII classes, and the two line terminators beyond
  8 bits (U+2028, U+2029) are not represented. Numbers in props are carried
  by their decimal text.

  \<^bold>\<open>Fuel and termination.\<close> The only loops are the regular-expression
  engine's: repetition runs on fuel \<open>Suc (length s + mn)\<close>, proved enough by
  \<open>rep_fuel_enough\<close>; the search over start indices is a \<open>function\<close> with a
  measure, so its domain predicate holds everywhere (\<open>search_total\<close>).
  The decimal printing \<open>nat_str\<close> recurses on \<open>n div 10\<close>, and
  \<open>fun\<close> proves that it terminates; every other recursion is structural.

  \<^bold>\<open>Modelled from outside \<open>src/\<close>.\<close> The regular-expression semantics, the
  Firestore query answer (\<open>getDocs\<close>, ordering by \<open>createdAt\<close> then document
  id), the Next.js query round trip and the reading of a numeric route
  parameter, JavaScript truthiness and template literals, the props the
  ticket slider passes (\<open>ticket_props\<close>, the slider is not in \<open>src/\<close>),
  and how styled-components evaluates interpolations. CSS text is kept line by
  line, trimmed, without comments.

  \<^bold>\<open>Plan.\<close> Further work: the write page and the slider components once
  they are part of the sources; the sign-in page's \<open>isSigned\<close> transitions
  composed with the header.

  \<^bold>\<open>Not modelled.\<close> What the browser makes of the CSS (layout, media
  queries), the Firebase and TMDB services themselves (only what the pages send and
  receive), React's rendering beyond the state each page's view reads, the
  focus effects and document titles (DOM only), and module resolution.
\<close>

section \<open>Definitions spanning components\<close>

text \<open>
  The props a ticket of the list gives its info button: the ticket's fields
  under their own names (the slider that renders the list is not in
  \<open>src/\<close>).
\<close>

definition ticket_props :: "ticket \<Rightarrow> js_obj" where
  "ticket_props t =
     [(''title'', JStr (title t)), (''releaseYear'', JStr (releaseYear t)),
      (''posterImage'', JStr (posterImage t)), (''rating'', JStr (rating t)),
      (''reviewText'', JStr (reviewText t))]"

definition demo_ticket :: ticket where
  "demo_ticket = \<lparr>tid = ''t1'', title = ''Up'', releaseYear = ''2009'', rating = ''9'', reviewText = ''good'',
     posterImage = ''p.jpg'', creatorId = ''u'', createdAt = 1\<rparr>"

text \<open>
  The email message of the sign-in page as styled:
  \<open><ValidationMsg isState={isEmail}>\<close>.
\<close>

definition email_msg_css :: "signin_page \<Rightarrow> render_error + string list" where
  "email_msg_css p = css_eval theme (\<lambda>k. k = ''isState'' \<and> isEmail p) signIn_ValidationMsg"

text \<open>
  The home page: \<open>Home\<close> renders its \<open>topMovies\<close> through \<open>TopMovieSlider\<close>
  (not in \<open>src/\<close>), one \<open>TopMovieTicket\<close> per movie on the route \<open>/\<close>, with
  the genres \<open>useGetJanres\<close> gives for the movie's id.
\<close>

definition TopMovieSlider :: "string \<Rightarrow> (int \<Rightarrow> string list) \<Rightarrow> movie_data list \<Rightarrow> top_movie_view list" where
  "TopMovieSlider pathname genres ms = map (\<lambda>m. TopMovieTicket pathname m (genres (movieId m))) ms"

definition Home_page :: "(int \<Rightarrow> string list) \<Rightarrow> movie_data list \<Rightarrow> top_movie_view list" where
  "Home_page genres topMovies = TopMovieSlider ''/'' genres topMovies"

section \<open>The two sign-in pages\<close>

text \<open>
  C17: On the same user input, a valid email and password typed and submitted
  from a fresh page, the older page \<open>src/pages/signin/index.tsx\<close> signs in with
  the typed credentials while the newer \<open>src/pages/sign-in/index.tsx\<close> signs in
  with an empty email and password.
\<close>

theorem pages_send_different_credentials:
  assumes "email_ok e" "password_ok pw"
  shows "l_calls (legacy_run legacy_mount [EmailChange e, PasswordChange pw, Submit]) = [SignInEmail e pw]
         \<and> calls (signin_run (signin_mount False) [EmailChange e, PasswordChange pw, Submit]) = [SignInEmail [] []]"
  using assms
  by (simp add: legacy_mount_def legacy_handler_defs l_isDisabled_def getUser_call_def Let_def
                signin_mount_def signin_fresh_def signin_handler_defs isDisabled_def
                l_email_ok_def l_password_ok_def email_ok_def password_ok_def legacy_regexes_eq)

theorem pages_send_different_credentials_witness:
  "email_ok ''user@mail.com'' \<and> password_ok ''abcd123!'' \<and>
   l_calls (legacy_run legacy_mount [EmailChange ''user@mail.com'', PasswordChange ''abcd123!'', Submit])
     = [SignInEmail ''user@mail.com'' ''abcd123!''] \<and>
   calls (signin_run (signin_mount False) [EmailChange ''user@mail.com'', PasswordChange ''abcd123!'', Submit])
     = [SignInEmail [] []]"
proof -
  have e: "email_ok ''user@mail.com''" and pw: "password_ok ''abcd123!''"
    by code_simp+
  show ?thesis using pages_send_different_credentials [OF e pw] e pw by blast
qed

section \<open>From the ticket list to the detail page\<close>

text \<open>
  C31: While responses arrive in order and none fails, every ticket the
  settled list shows belongs to the signed-in user, and its info button leads
  to a detail page with its title, release year and poster but an empty score
  and review.
\<close>

theorem settled_ticket_detail:
  assumes "ticket_reachable (\<lambda>e. fifo_event e \<and> no_reject e) p" "pending p = []"
    and "t \<in> set (usersTicket p)"
  shows "creatorId t = js_template (userId p) \<and>
         visit (TicketInfoBtn pathname (ticket_props t)) =
           Inr (Details \<lparr>dv_poster = (if posterImage t = [] then NoneImg else Img (posterImage t)),
                         dv_heading = title t @ ''('' @ releaseYear t @ '')'',
                         dv_rating = '' /10'', dv_janres = None, dv_review = []\<rparr>)"
proof
  obtain db where "usersTicket p = getDocs db (contentQuery (userId p) (isSorted p))"
    using shown_current_reachable [OF assms(1)] assms(2) unfolding shown_current_def by blast
  with assms(3) show "creatorId t = js_template (userId p)"
    by (auto dest: getDocs_owned simp: contentQuery_def)
next
  show "visit (TicketInfoBtn pathname (ticket_props t)) =
          Inr (Details \<lparr>dv_poster = (if posterImage t = [] then NoneImg else Img (posterImage t)),
                        dv_heading = title t @ ''('' @ releaseYear t @ '')'',
                        dv_rating = '' /10'', dv_janres = None, dv_review = []\<rparr>)"
    by (simp add: detail_defs TicketInfoBtn_def ticket_props_def js_prop_def next_query_def Let_def)
qed

theorem settled_ticket_detail_witness:
  "ticket_reachable (\<lambda>e. fifo_event e \<and> no_reject e) (ticket_demo [Resolve 0 [demo_ticket]]) \<and>
   pending (ticket_demo [Resolve 0 [demo_ticket]]) = [] \<and>
   demo_ticket \<in> set (usersTicket (ticket_demo [Resolve 0 [demo_ticket]])) \<and>
   creatorId demo_ticket = ''u'' \<and>
   visit (TicketInfoBtn ''/ticket-list'' (ticket_props demo_ticket)) =
     Inr (Details \<lparr>dv_poster = Img ''p.jpg'', dv_heading = ''Up(2009)'',
                   dv_rating = '' /10'', dv_janres = None, dv_review = []\<rparr>)"
proof -
  have r: "ticket_reachable (\<lambda>e. fifo_event e \<and> no_reject e) (ticket_demo [Resolve 0 [demo_ticket]])"
    by (rule ticket_demo_reachable) simp
  have n: "pending (ticket_demo [Resolve 0 [demo_ticket]]) = []"
    and t: "demo_ticket \<in> set (usersTicket (ticket_demo [Resolve 0 [demo_ticket]]))"
    and u: "userId (ticket_demo [Resolve 0 [demo_ticket]]) = Some ''u''"
    by (simp_all add: ticket_demo_def ticket_mount_def ticket_handler_defs getDocs_def
                      contentQuery_def demo_ticket_def)
  show ?thesis
    using settled_ticket_detail [OF r n t, of "''/ticket-list''"] r n t u
    by (simp add: demo_ticket_def)
qed

section \<open>The sign-in page's messages as styled\<close>

text \<open>
  C37: In every reachable state of the sign-in page, the email message is
  visible exactly when the field is empty and its flag unset, or holds an
  address the check rejects: after a valid address is submitted and the field
  emptied, the "enter your email" text is rendered but hidden.
\<close>

theorem validation_message_visible:
  assumes "signin_reachable p"
  shows "\<exists>ls. email_msg_css p = Inr ls \<and>
           (hd ls = ''visibility: visible;'' \<longleftrightarrow>
              (userEmail p = [] \<and> \<not> isEmail p) \<or> (userEmail p \<noteq> [] \<and> \<not> email_ok (userEmail p)))"
proof -
  obtain ls where ls: "email_msg_css p = Inr ls"
      "hd ls = (if isEmail p then ''visibility: hidden;'' else ''visibility: visible;'')"
    using signIn_ValidationMsg_visibility [of "\<lambda>k. k = ''isState'' \<and> isEmail p"]
    unfolding email_msg_css_def by auto
  have "userEmail p \<noteq> [] \<Longrightarrow> isEmail p = email_ok (userEmail p)"
    using flags_agree_reachable [OF assms] by (simp add: flags_agree_def)
  with ls show ?thesis by (intro exI [of _ ls]) auto
qed

theorem validation_message_visible_witness:
  "signin_reachable signin_demo \<and> v_email_msg (signin_render signin_demo) = MsgEnter \<and>
   (\<exists>ls. email_msg_css signin_demo = Inr ls \<and> hd ls \<noteq> ''visibility: visible;'')"
proof -
  have e: "userEmail signin_demo = []" "isEmail signin_demo"
    by (simp_all add: signin_demo_eval signin_fresh_def)
  have m: "v_email_msg (signin_render signin_demo) = MsgEnter"
    by (simp add: signin_demo_eval signin_fresh_def signin_render_def field_message_def)
  show ?thesis
    using validation_message_visible [OF signin_demo_reachable] signin_demo_reachable e m by auto
qed

end
